(* ===== verification/Skawld_Prelude.thy ===== *)
theory Skawld_Prelude
  imports Main "HOL-Library.Sublist" "HOL-Library.Char_ord" "HOL-Library.List_Lexorder"
begin

text \<open>
  The shared base of the development: Go error values and \<open>errors.Is\<close>, the effect type in which the
  code that talks to the database is written (state passing with an error result, so that the state
  after a failure is part of the meaning), the rules that carry proofs through such code, and generic
  lemmas on lists.

  A Go function \<open>func f(..) (T, error)\<close> that has effects becomes a value of type
  \<open>('s, 'e, 't) act\<close>: it takes the state and returns either the error (\<open>Inl\<close>) or the result
  (\<open>Inr\<close>), and in both cases the state it leaves behind. The usual Go line
  \<open>x, err := f(); if err != nil { return err }\<close> is \<open>bindE f (\<lambda>x. ..)\<close>, and the
  variant that returns \<open>fmt.Errorf("m: %w", err)\<close> is \<open>bindE (wrapE ''m'' f) (\<lambda>x. ..)\<close>.
\<close>

named_theorems act_simps \<open>equations of the effect combinators\<close>
named_theorems wp_rules \<open>weakest preconditions of the effect combinators and of the primitives\<close>
named_theorems sql_defs \<open>definitions of the single SQL statements\<close>

section \<open>Go error values\<close>

text \<open>
  One constructor per sentinel that the sources declare with \<open>errors.New\<close> or take from a library
  (\<open>pgx.ErrNoRows\<close>, \<open>io.EOF\<close>, \<open>context.Canceled\<close>), one for every error that is only
  text, \<open>Wrap\<close> for \<open>fmt.Errorf("..: %w", err)\<close> and \<open>Join\<close> for \<open>errors.Join\<close>.
  A sentinel is compared by identity in Go and by its constructor here.
\<close>

datatype goerr =
    ErrPermissionDenied
  | ErrIdempotencyKey
  | ErrInvalidOrganization
  | ErrSiteNotFound
  | ErrKeyConflict
  | ErrInProgress
  | ErrNoRows
  | ErrEOF
  | ErrCanceled
  | DriverError
  | PgError string
  | Errorf string
  | Wrap string goerr
  | Join "goerr list"

fun errors_Is :: "goerr \<Rightarrow> goerr \<Rightarrow> bool" where
  "errors_Is (Wrap m e) t = (Wrap m e = t \<or> errors_Is e t)"
| "errors_Is (Join es) t = (Join es = t \<or> list_ex (\<lambda>e. errors_Is e t) es)"
| "errors_Is e t = (e = t)"

text \<open>
  \<open>errors.Join(errs...)\<close> drops the nil errors and returns nil when nothing is left: over a list of
  the errors that are not nil, \<open>None\<close> stands for nil.
\<close>

definition errors_Join :: "goerr option list \<Rightarrow> goerr option" where
  "errors_Join errs =
     (case List.map_filter id errs of [] \<Rightarrow> None | e # es \<Rightarrow> Some (Join (e # es)))"

lemma errors_Join_None: "errors_Join errs = None \<longleftrightarrow> (\<forall>e \<in> set errs. e = None)"
  by (induction errs) (auto simp: errors_Join_def List.map_filter_def split: list.splits)

section \<open>The effect type\<close>

type_synonym ('s, 'e, 'a) act = "'s \<Rightarrow> ('e + 'a) \<times> 's"

definition retE :: "'a \<Rightarrow> ('s, 'e, 'a) act" where
  "retE x = (\<lambda>s. (Inr x, s))"

definition failE :: "'e \<Rightarrow> ('s, 'e, 'a) act" where
  "failE e = (\<lambda>s. (Inl e, s))"

definition bindE :: "('s, 'e, 'a) act \<Rightarrow> ('a \<Rightarrow> ('s, 'e, 'b) act) \<Rightarrow> ('s, 'e, 'b) act" where
  "bindE m f = (\<lambda>s. case m s of (Inl e, s') \<Rightarrow> (Inl e, s') | (Inr x, s') \<Rightarrow> f x s')"

definition mapErr :: "('e \<Rightarrow> 'e) \<Rightarrow> ('s, 'e, 'a) act \<Rightarrow> ('s, 'e, 'a) act" where
  "mapErr g m = (\<lambda>s. case m s of (Inl e, s') \<Rightarrow> (Inl (g e), s') | (Inr x, s') \<Rightarrow> (Inr x, s'))"

abbreviation wrapE :: "string \<Rightarrow> ('s, goerr, 'a) act \<Rightarrow> ('s, goerr, 'a) act" where
  "wrapE m \<equiv> mapErr (Wrap m)"

text \<open>\<open>tryE\<close> hands the result, error or not, to the continuation: Go code that looks at \<open>err\<close>
  instead of returning it.\<close>

definition tryE :: "('s, 'e, 'a) act \<Rightarrow> ('e + 'a \<Rightarrow> 's \<Rightarrow> 'b) \<Rightarrow> 's \<Rightarrow> 'b" where
  "tryE m k = (\<lambda>s. case m s of (r, s') \<Rightarrow> k r s')"

lemma retE_app [simp, act_simps]: "retE x s = (Inr x, s)"
  by (simp add: retE_def)

lemma failE_app [simp, act_simps]: "failE e s = (Inl e, s)"
  by (simp add: failE_def)

lemma bindE_Inr [act_simps]: "m s = (Inr x, s') \<Longrightarrow> bindE m f s = f x s'"
  by (simp add: bindE_def)

lemma bindE_Inl [act_simps]: "m s = (Inl e, s') \<Longrightarrow> bindE m f s = (Inl e, s')"
  by (simp add: bindE_def)

lemma mapErr_Inr [act_simps]: "m s = (Inr x, s') \<Longrightarrow> mapErr g m s = (Inr x, s')"
  by (simp add: mapErr_def)

lemma mapErr_Inl [act_simps]: "m s = (Inl e, s') \<Longrightarrow> mapErr g m s = (Inl (g e), s')"
  by (simp add: mapErr_def)

lemma bindE_retE [simp]: "bindE (retE x) f = f x"
  by (simp add: bindE_def retE_def)

lemma bindE_failE [simp]: "bindE (failE e) f = failE e"
  by (simp add: bindE_def failE_def)

lemma bindE_assoc: "bindE (bindE m f) g = bindE m (\<lambda>x. bindE (f x) g)"
  by (auto simp: bindE_def fun_eq_iff split: prod.splits sum.splits)

lemma bindE_InrE:
  assumes "bindE m f s = (Inr y, s'')"
  obtains x s' where "m s = (Inr x, s')" and "f x s' = (Inr y, s'')"
  using assms by (auto simp: bindE_def split: prod.splits sum.splits)

lemma mapErr_InrE:
  assumes "mapErr g m s = (Inr y, s')"
  obtains "m s = (Inr y, s')"
  using assms by (auto simp: mapErr_def split: prod.splits sum.splits)

lemma bindE_Inr_iff:
  "bindE m f s = (Inr y, s'') \<longleftrightarrow> (\<exists>x s'. m s = (Inr x, s') \<and> f x s' = (Inr y, s''))"
  by (auto simp: bindE_def split: prod.splits sum.splits)

lemma mapErr_Inr_iff [simp]: "mapErr g m s = (Inr y, s') \<longleftrightarrow> m s = (Inr y, s')"
  by (auto simp: mapErr_def split: prod.splits sum.splits)

text \<open>The error monad without state, for the parts of a statement that can fail.\<close>

definition bindS :: "'e + 'a \<Rightarrow> ('a \<Rightarrow> 'e + 'b) \<Rightarrow> 'e + 'b" where
  "bindS m f = (case m of Inl e \<Rightarrow> Inl e | Inr x \<Rightarrow> f x)"

lemma bindS_simps [simp]: "bindS (Inl e) f = Inl e" "bindS (Inr x) f = f x"
  by (simp_all add: bindS_def)

lemma bindS_Inr_iff: "bindS m f = Inr y \<longleftrightarrow> (\<exists>x. m = Inr x \<and> f x = Inr y)"
  by (cases m) auto

definition check :: "bool \<Rightarrow> 'e \<Rightarrow> 'e + unit" where
  "check b e = (if b then Inr () else Inl e)"

lemma check_Inr_iff [simp]: "check b e = Inr u \<longleftrightarrow> b"
  by (simp add: check_def)

lemma check_simps [simp]: "check True e = Inr ()" "check False e = Inl e"
  by (simp_all add: check_def)

section \<open>Weakest preconditions and invariants of effects\<close>

text \<open>\<open>wp m Q s\<close>: running \<open>m\<close> from \<open>s\<close> ends in a result and a state that satisfy \<open>Q\<close>,
  whether the run fails or not.\<close>

definition wp :: "('s, 'e, 'a) act \<Rightarrow> ('e + 'a \<Rightarrow> 's \<Rightarrow> bool) \<Rightarrow> 's \<Rightarrow> bool" where
  "wp m Q s = (case m s of (r, s') \<Rightarrow> Q r s')"

lemma wp_iff: "wp m Q s \<longleftrightarrow> (\<forall>r s'. m s = (r, s') \<longrightarrow> Q r s')"
  by (auto simp: wp_def split: prod.splits)

lemma wpD: "wp m Q s \<Longrightarrow> m s = (r, s') \<Longrightarrow> Q r s'"
  by (simp add: wp_iff)

lemma wp_retE [wp_rules]: "wp (retE x) Q s = Q (Inr x) s"
  by (simp add: wp_def)

lemma wp_failE [wp_rules]: "wp (failE e) Q s = Q (Inl e) s"
  by (simp add: wp_def)

lemma wp_bindE [wp_rules]:
  "wp (bindE m f) Q s = wp m (\<lambda>r s'. case r of Inl e \<Rightarrow> Q (Inl e) s' | Inr x \<Rightarrow> wp (f x) Q s') s"
  by (simp add: wp_def bindE_def split: prod.splits sum.splits)

lemma wp_mapErr [wp_rules]:
  "wp (mapErr g m) Q s = wp m (\<lambda>r s'. case r of Inl e \<Rightarrow> Q (Inl (g e)) s' | Inr x \<Rightarrow> Q (Inr x) s') s"
  by (simp add: wp_def mapErr_def split: prod.splits sum.splits)

lemma wp_if [wp_rules]: "wp (if b then m else n) Q s = (if b then wp m Q s else wp n Q s)"
  by simp

lemma wp_mono: "wp m Q s \<Longrightarrow> (\<And>r s'. Q r s' \<Longrightarrow> R r s') \<Longrightarrow> wp m R s"
  by (simp add: wp_def split: prod.splits)

text \<open>\<open>keeps R m\<close>: every run of \<open>m\<close>, failed or not, relates the state before to the state after
  by \<open>R\<close>. Taken with a reflexive and transitive \<open>R\<close> it composes over \<open>bindE\<close>.\<close>

definition keeps :: "('s \<Rightarrow> 's \<Rightarrow> bool) \<Rightarrow> ('s, 'e, 'a) act \<Rightarrow> bool" where
  "keeps R m \<longleftrightarrow> (\<forall>s. R s (snd (m s)))"

lemma keepsI: "(\<And>s. R s (snd (m s))) \<Longrightarrow> keeps R m"
  by (simp add: keeps_def)

lemma keepsD: "keeps R m \<Longrightarrow> m s = (r, s') \<Longrightarrow> R s s'"
  by (metis keeps_def snd_conv)

lemma keeps_retE: "reflp R \<Longrightarrow> keeps R (retE x)"
  by (simp add: keeps_def reflpD)

lemma keeps_failE: "reflp R \<Longrightarrow> keeps R (failE e)"
  by (simp add: keeps_def reflpD)

lemma keeps_mapErr: "keeps R m \<Longrightarrow> keeps R (mapErr g m)"
  by (auto simp: keeps_def mapErr_def split: prod.splits sum.splits)
     (metis snd_conv)+

lemma keeps_bindE:
  assumes "transp R" and "keeps R m" and "\<And>x. keeps R (f x)"
  shows "keeps R (bindE m f)"
proof (rule keepsI)
  fix s
  obtain r s' where ms: "m s = (r, s')" by fastforce
  then have R: "R s s'" using assms(2) by (simp add: keepsD)
  show "R s (snd (bindE m f s))"
  proof (cases r)
    case (Inl e)
    then show ?thesis using ms R by (simp add: bindE_def)
  next
    case (Inr x)
    then have "R s' (snd (f x s'))" using assms(3) by (simp add: keeps_def)
    then show ?thesis using Inr ms R assms(1) by (auto simp: bindE_def dest: transpD)
  qed
qed

lemma keeps_if: "(b \<Longrightarrow> keeps R m) \<Longrightarrow> (\<not> b \<Longrightarrow> keeps R n) \<Longrightarrow> keeps R (if b then m else n)"
  by simp

section \<open>Lists\<close>

lemma map_upd_list_ex_False: "\<not> list_ex P xs \<Longrightarrow> map (\<lambda>x. if P x then f x else x) xs = xs"
  by (induction xs) auto

lemma filter_Not_list_ex_False: "\<not> list_ex P xs \<Longrightarrow> filter (\<lambda>x. \<not> P x) xs = xs"
  by (induction xs) auto

lemma find_None_list_ex: "find P xs = None \<longleftrightarrow> \<not> list_ex P xs"
  by (auto simp: find_None_iff list_ex_iff)

lemma find_SomeD: "find P xs = Some x \<Longrightarrow> x \<in> set xs \<and> P x"
  by (induction xs) (auto split: if_splits)

lemma find_append: "find P (xs @ ys) = (case find P xs of None \<Rightarrow> find P ys | Some x \<Rightarrow> Some x)"
  by (induction xs) auto

lemma find_map_upd:
  assumes "\<And>x. P (f x) = P x"
  shows "find P (map f xs) = map_option f (find P xs)"
  by (induction xs) (auto simp: assms)

lemma find_eq_if_distinct_key:
  assumes "distinct (map k xs)" and "x \<in> set xs" and "k x = a"
  shows "find (\<lambda>y. k y = a) xs = Some x"
  using assms by (induction xs) (auto simp: image_iff)

end
