(* ===== verification/Go_Strings.thy ===== *)
theory Go_Strings
  imports Skawld_Prelude
begin

text \<open>
  The operations of Go's packages \<open>strings\<close>, \<open>unicode/utf8\<close> and \<open>strconv\<close> that the sources
  call. A Go string is a sequence of bytes, here a \<open>string\<close>, whose characters are exactly the 256
  byte values; \<open>len(s)\<close> is \<open>length s\<close> and counts bytes.
\<close>

abbreviation byte :: "char \<Rightarrow> nat" where
  "byte c \<equiv> of_char c"

section \<open>UTF-8\<close>

definition cont :: "nat \<Rightarrow> nat \<Rightarrow> char \<Rightarrow> bool" where
  "cont lo hi c \<longleftrightarrow> lo \<le> byte c \<and> byte c \<le> hi"

text \<open>
  \<open>utf8.DecodeRuneInString\<close>: the first rune and the number of bytes it takes; \<open>None\<close> for the
  pair (RuneError, 1) that reports an invalid encoding. A non-empty argument is decoded.
\<close>

fun decode_rune :: "string \<Rightarrow> (nat \<times> nat) option" where
  "decode_rune [] = None"
| "decode_rune (c0 # cs) =
     (let b0 = byte c0 in
      if b0 < 0x80 then Some (b0, 1)
      else if 0xC2 \<le> b0 \<and> b0 \<le> 0xDF then
        (case cs of
           c1 # _ \<Rightarrow> if cont 0x80 0xBF c1 then Some ((b0 - 0xC0) * 64 + (byte c1 - 0x80), 2) else None
         | _ \<Rightarrow> None)
      else if 0xE0 \<le> b0 \<and> b0 \<le> 0xEF then
        (case cs of
           c1 # c2 # _ \<Rightarrow>
             if cont (if b0 = 0xE0 then 0xA0 else 0x80) (if b0 = 0xED then 0x9F else 0xBF) c1
                \<and> cont 0x80 0xBF c2
             then Some ((b0 - 0xE0) * 4096 + (byte c1 - 0x80) * 64 + (byte c2 - 0x80), 3) else None
         | _ \<Rightarrow> None)
      else if 0xF0 \<le> b0 \<and> b0 \<le> 0xF4 then
        (case cs of
           c1 # c2 # c3 # _ \<Rightarrow>
             if cont (if b0 = 0xF0 then 0x90 else 0x80) (if b0 = 0xF4 then 0x8F else 0xBF) c1
                \<and> cont 0x80 0xBF c2 \<and> cont 0x80 0xBF c3
             then Some ((b0 - 0xF0) * 262144 + (byte c1 - 0x80) * 4096
                        + (byte c2 - 0x80) * 64 + (byte c3 - 0x80), 4) else None
         | _ \<Rightarrow> None)
      else None)"

lemma decode_rune_size: "decode_rune s = Some (r, n) \<Longrightarrow> 0 < n \<and> n \<le> length s \<and> n \<le> 4"
  by (cases s) (auto simp: Let_def split: if_splits list.splits)

text \<open>The runes of a string, as \<open>for _, r := range s\<close> yields them.\<close>

definition RuneError :: nat where
  "RuneError = 0xFFFD"

fun runes :: "string \<Rightarrow> nat list" where
  "runes [] = []"
| "runes (c # cs) =
     (case decode_rune (c # cs) of
        None \<Rightarrow> RuneError # runes cs
      | Some rn \<Rightarrow> fst rn # runes (drop (snd rn - 1) cs))"

text \<open>\<open>utf8.ValidString\<close>.\<close>

fun valid_utf8 :: "string \<Rightarrow> bool" where
  "valid_utf8 [] = True"
| "valid_utf8 (c # cs) =
     (case decode_rune (c # cs) of
        None \<Rightarrow> False
      | Some rn \<Rightarrow> valid_utf8 (drop (snd rn - 1) cs))"

text \<open>A rune is decoded from its own bytes only: what follows them does not matter.\<close>

lemma decode_rune_take:
  assumes "decode_rune s = Some (r, n)"
  shows "decode_rune (take n s @ t) = Some (r, n)"
  using assms
  by (cases s) (auto simp: Let_def split: if_splits list.splits)

lemma ascii_valid_utf8: "\<forall>c \<in> set s. byte c < 0x80 \<Longrightarrow> valid_utf8 s"
  by (induction s) auto

lemma runes_ascii: "\<forall>c \<in> set s. byte c < 0x80 \<Longrightarrow> runes s = map byte s"
  by (induction s) auto

section \<open>Trimming\<close>

text \<open>
  \<open>strings.TrimSpace\<close> removes the leading and trailing runes for which \<open>unicode.IsSpace\<close> holds.
  These are the UTF-8 encodings of all of them: tab, newline, vertical tab, form feed, carriage
  return, space, U+0085, U+00A0, U+1680, U+2000 to U+200A, U+2028, U+2029, U+202F, U+205F and U+3000.
  An invalid encoding decodes to RuneError, which is no space, so a rune is trimmed exactly when one
  of these byte sequences stands at the end in question.
\<close>

definition space_runes :: "string list" where
  "space_runes =
     [[CHR 0x09], [CHR 0x0A], [CHR 0x0B], [CHR 0x0C], [CHR 0x0D], [CHR 0x20],
      [CHR 0xC2, CHR 0x85], [CHR 0xC2, CHR 0xA0], [CHR 0xE1, CHR 0x9A, CHR 0x80],
      [CHR 0xE2, CHR 0x80, CHR 0x80], [CHR 0xE2, CHR 0x80, CHR 0x81], [CHR 0xE2, CHR 0x80, CHR 0x82],
      [CHR 0xE2, CHR 0x80, CHR 0x83], [CHR 0xE2, CHR 0x80, CHR 0x84], [CHR 0xE2, CHR 0x80, CHR 0x85],
      [CHR 0xE2, CHR 0x80, CHR 0x86], [CHR 0xE2, CHR 0x80, CHR 0x87], [CHR 0xE2, CHR 0x80, CHR 0x88],
      [CHR 0xE2, CHR 0x80, CHR 0x89], [CHR 0xE2, CHR 0x80, CHR 0x8A], [CHR 0xE2, CHR 0x80, CHR 0xA8],
      [CHR 0xE2, CHR 0x80, CHR 0xA9], [CHR 0xE2, CHR 0x80, CHR 0xAF], [CHR 0xE2, CHR 0x81, CHR 0x9F],
      [CHR 0xE3, CHR 0x80, CHR 0x80]]"

fun trim_front :: "string list \<Rightarrow> string \<Rightarrow> string" where
  "trim_front sp [] = []"
| "trim_front sp (c # cs) =
     (case find (\<lambda>p. p \<noteq> [] \<and> prefix p (c # cs)) sp of
        None \<Rightarrow> c # cs
      | Some p \<Rightarrow> trim_front sp (drop (length p - 1) cs))"

definition TrimLeftSpace :: "string \<Rightarrow> string" where
  "TrimLeftSpace s = trim_front space_runes s"

definition TrimRightSpace :: "string \<Rightarrow> string" where
  "TrimRightSpace s = rev (trim_front (map rev space_runes) (rev s))"

definition TrimSpace :: "string \<Rightarrow> string" where
  "TrimSpace s = TrimRightSpace (TrimLeftSpace s)"

lemma trim_front_suffix: "suffix (trim_front sp s) s"
proof (induction sp s rule: trim_front.induct)
  case (2 sp c cs)
  show ?case
  proof (cases "find (\<lambda>p. p \<noteq> [] \<and> prefix p (c # cs)) sp")
    case (Some p)
    with 2 have "suffix (trim_front sp (drop (length p - 1) cs)) (drop (length p - 1) cs)" by simp
    then have "suffix (trim_front sp (drop (length p - 1) cs)) (c # cs)"
      by (meson suffix_ConsI suffix_drop suffix_order.trans)
    then show ?thesis using Some by simp
  qed simp
qed simp

lemma trim_front_stops:
  "p \<in> set sp \<Longrightarrow> p \<noteq> [] \<Longrightarrow> \<not> prefix p (trim_front sp s)"
proof (induction sp s rule: trim_front.induct)
  case (2 sp c cs)
  show ?case
  proof (cases "find (\<lambda>p. p \<noteq> [] \<and> prefix p (c # cs)) sp")
    case None
    then have "\<not> prefix p (c # cs)" using "2.prems" unfolding find_None_iff by blast
    then show ?thesis using None by simp
  next
    case (Some q)
    then show ?thesis using 2 by simp
  qed
qed simp

lemma trim_front_id: "(\<And>p. p \<in> set sp \<Longrightarrow> p \<noteq> [] \<Longrightarrow> \<not> prefix p s) \<Longrightarrow> trim_front sp s = s"
  by (cases s) (auto simp: find_None_iff split: option.splits dest: find_SomeD)

lemma space_runes_nonempty: "p \<in> set space_runes \<Longrightarrow> p \<noteq> []"
  by (auto simp: space_runes_def)

lemma TrimSpace_no_leading: "p \<in> set space_runes \<Longrightarrow> \<not> prefix p (TrimSpace s)"
proof
  assume p: "p \<in> set space_runes" and "prefix p (TrimSpace s)"
  moreover have "prefix (TrimSpace s) (TrimLeftSpace s)"
    using trim_front_suffix [of "map rev space_runes" "rev (TrimLeftSpace s)"]
    by (simp add: TrimSpace_def TrimRightSpace_def suffix_to_prefix)
  ultimately have "prefix p (TrimLeftSpace s)" using prefix_order.trans by blast
  then show False
    using trim_front_stops [OF p space_runes_nonempty [OF p]] by (simp add: TrimLeftSpace_def)
qed

lemma TrimSpace_no_trailing: "p \<in> set space_runes \<Longrightarrow> \<not> suffix p (TrimSpace s)"
  using trim_front_stops [of "rev p" "map rev space_runes" "rev (TrimLeftSpace s)"]
  by (auto simp: TrimSpace_def TrimRightSpace_def suffix_to_prefix space_runes_nonempty)

lemma TrimSpace_id_iff:
  "TrimSpace s = s \<longleftrightarrow> (\<forall>p \<in> set space_runes. \<not> prefix p s \<and> \<not> suffix p s)"
proof
  assume "TrimSpace s = s"
  then show "\<forall>p \<in> set space_runes. \<not> prefix p s \<and> \<not> suffix p s"
    using TrimSpace_no_leading [of _ s] TrimSpace_no_trailing [of _ s] by simp
next
  assume *: "\<forall>p \<in> set space_runes. \<not> prefix p s \<and> \<not> suffix p s"
  then have "TrimLeftSpace s = s"
    by (auto simp: TrimLeftSpace_def intro: trim_front_id)
  moreover have "TrimRightSpace s = s"
  proof -
    have "trim_front (map rev space_runes) (rev s) = rev s"
      using * by (intro trim_front_id) (auto simp: suffix_to_prefix)
    then show ?thesis by (simp add: TrimRightSpace_def)
  qed
  ultimately show "TrimSpace s = s" by (simp add: TrimSpace_def)
qed

lemma TrimSpace_idem [simp]: "TrimSpace (TrimSpace s) = TrimSpace s"
  using TrimSpace_no_leading TrimSpace_no_trailing by (simp add: TrimSpace_id_iff)

lemma TrimSpace_Nil [simp]: "TrimSpace [] = []"
  by (simp add: TrimSpace_id_iff space_runes_def)

text \<open>What is left is a contiguous part of the argument.\<close>

lemma TrimSpace_sublist: "sublist (TrimSpace s) s"
proof -
  have "sublist (TrimRightSpace (TrimLeftSpace s)) (TrimLeftSpace s)"
    using trim_front_suffix [of "map rev space_runes" "rev (TrimLeftSpace s)"]
    by (simp add: TrimRightSpace_def suffix_to_prefix)
  moreover have "sublist (TrimLeftSpace s) s"
    by (simp add: TrimLeftSpace_def trim_front_suffix)
  ultimately show ?thesis
    by (metis TrimSpace_def sublist_order.order_trans)
qed

section \<open>Case folding\<close>

text \<open>
  \<open>strings.EqualFold\<close> compares rune by rune under simple Unicode case folding. A rune is mapped to
  one representative of its fold orbit: the ASCII orbits are written out (the Kelvin sign folds with
  \<open>k\<close>, the long s with \<open>s\<close>); the Unicode table for the remaining runes is the parameter
  \<open>tbl\<close>.
\<close>

definition fold_rune :: "(nat \<Rightarrow> nat) \<Rightarrow> nat \<Rightarrow> nat" where
  "fold_rune tbl r =
     (if 0x41 \<le> r \<and> r \<le> 0x5A then r + 0x20
      else if r = 0x212A then 0x6B
      else if r = 0x17F then 0x73
      else if r < 0x80 then r
      else tbl r)"

definition EqualFold :: "(nat \<Rightarrow> nat) \<Rightarrow> string \<Rightarrow> string \<Rightarrow> bool" where
  "EqualFold tbl s t \<longleftrightarrow> map (fold_rune tbl) (runes s) = map (fold_rune tbl) (runes t)"

lemma EqualFold_refl [simp]: "EqualFold tbl s s"
  by (simp add: EqualFold_def)

lemma EqualFold_sym: "EqualFold tbl s t \<Longrightarrow> EqualFold tbl t s"
  by (simp add: EqualFold_def)

lemma EqualFold_trans: "EqualFold tbl s t \<Longrightarrow> EqualFold tbl t u \<Longrightarrow> EqualFold tbl s u"
  by (simp add: EqualFold_def)

lemma EqualFold_Nil [simp]: "EqualFold tbl [] s \<longleftrightarrow> s = []" "EqualFold tbl s [] \<longleftrightarrow> s = []"
  by (cases s; auto simp: EqualFold_def split: option.splits)+

section \<open>Decimal numbers\<close>

definition digit :: "nat \<Rightarrow> char" where
  "digit n = char_of (48 + n)"

definition is_digit :: "char \<Rightarrow> bool" where
  "is_digit c \<longleftrightarrow> 48 \<le> byte c \<and> byte c \<le> 57"

fun nat_text :: "nat \<Rightarrow> string" where
  "nat_text n = (if n < 10 then [digit n] else nat_text (n div 10) @ [digit (n mod 10)])"

declare nat_text.simps [simp del]

definition itoa :: "int \<Rightarrow> string" where
  "itoa i = (if i < 0 then CHR ''-'' # nat_text (nat (- i)) else nat_text (nat i))"

fun digits_value :: "nat \<Rightarrow> string \<Rightarrow> nat option" where
  "digits_value acc [] = Some acc"
| "digits_value acc (c # cs) =
     (if is_digit c then digits_value (acc * 10 + (byte c - 48)) cs else None)"

definition decimal :: "string \<Rightarrow> nat option" where
  "decimal s = (if s = [] then None else digits_value 0 s)"

definition int64_range :: "int \<Rightarrow> bool" where
  "int64_range i \<longleftrightarrow> - (2 ^ 63) \<le> i \<and> i < 2 ^ 63"

text \<open>\<open>strconv.Atoi\<close> on a 64-bit platform: an optional sign and decimal digits, in the range of
  \<open>int64\<close>; \<open>None\<close> stands for its error.\<close>

definition Atoi :: "string \<Rightarrow> int option" where
  "Atoi s =
     (let (neg, ds) =
        (case s of
           [] \<Rightarrow> (False, [])
         | c # cs \<Rightarrow> if c = CHR ''-'' then (True, cs) else if c = CHR ''+'' then (False, cs)
                    else (False, s))
      in case decimal ds of
           None \<Rightarrow> None
         | Some n \<Rightarrow> (let i = (if neg then - int n else int n) in
                     if int64_range i then Some i else None))"

lemma byte_digit [simp]: "n < 10 \<Longrightarrow> byte (digit n) = 48 + n"
  by (simp add: digit_def of_char_of)

lemma is_digit_digit [simp]: "n < 10 \<Longrightarrow> is_digit (digit n)"
  by (simp add: is_digit_def)

lemma digits_value_append:
  "digits_value acc (s @ t) =
     (case digits_value acc s of None \<Rightarrow> None | Some v \<Rightarrow> digits_value v t)"
  by (induction acc s rule: digits_value.induct) auto

lemma nat_text_nonempty [simp]: "nat_text n \<noteq> []"
  by (subst nat_text.simps) simp

lemma nat_text_digits: "c \<in> set (nat_text n) \<Longrightarrow> is_digit c"
proof (induction n rule: nat_text.induct)
  case (1 n)
  then show ?case by (cases "n < 10") (auto simp: nat_text.simps [of n])
qed

lemma digits_value_nat_text: "digits_value 0 (nat_text n) = Some n"
proof (induction n rule: nat_text.induct)
  case (1 n)
  show ?case
  proof (cases "n < 10")
    case True
    then show ?thesis by (simp add: nat_text.simps [of n])
  next
    case False
    with 1 have "digits_value 0 (nat_text (n div 10)) = Some (n div 10)" by simp
    then show ?thesis using False by (simp add: nat_text.simps [of n] digits_value_append)
  qed
qed

lemma decimal_nat_text [simp]: "decimal (nat_text n) = Some n"
  by (simp add: decimal_def digits_value_nat_text)

lemma nat_text_hd: "\<exists>c cs. nat_text n = c # cs \<and> is_digit c"
  by (metis list.exhaust list.set_intros(1) nat_text_digits nat_text_nonempty)

lemma Atoi_itoa: "int64_range i \<Longrightarrow> Atoi (itoa i) = Some i"
proof (cases "i < 0")
  case True
  assume "int64_range i"
  with True show ?thesis by (simp add: Atoi_def itoa_def)
next
  case False
  assume r: "int64_range i"
  obtain c cs where c: "nat_text (nat i) = c # cs" "is_digit c" using nat_text_hd by blast
  then have "c \<noteq> CHR ''-''" "c \<noteq> CHR ''+''" by (auto simp: is_digit_def)
  moreover have "decimal (c # cs) = Some (nat i)" using c(1) decimal_nat_text by metis
  ultimately show ?thesis using False r c by (simp add: Atoi_def itoa_def)
qed

section \<open>Splitting\<close>

text \<open>\<open>strings.Split\<close>.\<close>

fun split_on :: "char \<Rightarrow> string \<Rightarrow> string list" where
  "split_on c [] = [[]]"
| "split_on c (x # xs) =
     (if x = c then [] # split_on c xs
      else case split_on c xs of [] \<Rightarrow> [[x]] | y # ys \<Rightarrow> (x # y) # ys)"

lemma split_on_no_sep: "y \<in> set (split_on c s) \<Longrightarrow> c \<notin> set y"
  by (induction c s arbitrary: y rule: split_on.induct) (auto split: if_splits list.splits)

lemma split_on_not_Nil [simp]: "split_on c s \<noteq> []"
  by (cases s) (auto split: list.splits)

lemma split_on_append_sep: "split_on c (s @ c # t) = split_on c s @ split_on c t"
  by (induction s) (auto split: list.splits)

lemma split_on_plain: "c \<notin> set s \<Longrightarrow> split_on c s = [s]"
  by (induction s) auto

end
