(* ===== verification/Identity_Domain.thy ===== *)
theory Identity_Domain
  imports Go_Strings
begin

text \<open>
  The domain packages: \<open>internal/integration/domain/source_of_truth.go\<close>,
  \<open>internal/identity/domain/organization.go\<close> and \<open>internal/identity/domain/authorization.go\<close>.
  A \<open>time.Time\<close> is its instant, an integer number of nanoseconds since the zero time (1 January of
  the year 1, UTC); \<open>UTC()\<close> changes how an instant is shown and not the instant, so it is the
  identity here. A Go map used as a set is a set.
\<close>

type_synonym gotime = int

definition IsZero :: "gotime \<Rightarrow> bool" where
  "IsZero t \<longleftrightarrow> t = 0"

definition Before :: "gotime \<Rightarrow> gotime \<Rightarrow> bool" where
  "Before t u \<longleftrightarrow> t < u"

section \<open>Source of truth\<close>

type_synonym SourceOfTruth = string

definition OwnedBySkawld :: SourceOfTruth where
  "OwnedBySkawld = ''OWNED_BY_SKAWLD''"

definition ExternalReference :: SourceOfTruth where
  "ExternalReference = ''EXTERNAL_REFERENCE''"

definition SourceOfTruth_Validate :: "SourceOfTruth \<Rightarrow> bool \<Rightarrow> goerr option" where
  "SourceOfTruth_Validate s hasExternalReference =
     (if s = OwnedBySkawld then
        (if hasExternalReference
         then Some (Errorf ''Skawld-owned record cannot declare an authoritative external reference'')
         else None)
      else if s = ExternalReference then
        (if \<not> hasExternalReference
         then Some (Errorf ''external projection requires an external reference'')
         else None)
      else Some (Errorf ''unsupported source of truth''))"

section \<open>Organizations\<close>

record Organization =
  org_ID :: string
  org_Name :: string
  org_SourceOfTruth :: SourceOfTruth
  org_Version :: int
  org_CreatedAt :: gotime
  org_UpdatedAt :: gotime

definition NewOrganization :: "string \<Rightarrow> string \<Rightarrow> gotime \<Rightarrow> goerr + Organization" where
  "NewOrganization ident name now =
     (let name = TrimSpace name in
      if ident = [] then Inl (Errorf ''organization ID is required'')
      else if name = [] then Inl (Errorf ''organization name is required'')
      else Inr \<lparr>org_ID = ident, org_Name = name, org_SourceOfTruth = OwnedBySkawld,
                org_Version = 1, org_CreatedAt = now, org_UpdatedAt = now\<rparr>)"

section \<open>Permissions and principals\<close>

type_synonym Permission = string

definition PermissionOrganizationCreate :: Permission where
  "PermissionOrganizationCreate = ''organization:create''"

definition PermissionWorkflowReview :: Permission where
  "PermissionWorkflowReview = ''workflow:review''"

definition PermissionWorkflowPublish :: Permission where
  "PermissionWorkflowPublish = ''workflow:publish''"

definition PermissionReportApprove :: Permission where
  "PermissionReportApprove = ''report:approve''"

lemmas permission_defs = PermissionOrganizationCreate_def PermissionWorkflowReview_def
  PermissionWorkflowPublish_def PermissionReportApprove_def

text \<open>\<open>RiskLevel\<close> is an \<open>int\<close> that is only compared; the named levels are 0 to 4.\<close>

type_synonym RiskLevel = int

definition RiskInformational :: RiskLevel where "RiskInformational = 0"
definition RiskAdvisory :: RiskLevel where "RiskAdvisory = 1"
definition RiskOperationalLow :: RiskLevel where "RiskOperationalLow = 2"
definition RiskSafetySignificant :: RiskLevel where "RiskSafetySignificant = 3"
definition RiskCritical :: RiskLevel where "RiskCritical = 4"

record Principal =
  prin_ID :: string
  prin_ExternalSubject :: string
  prin_DisplayName :: string
  prin_OrganizationID :: string
  prin_SiteIDs :: "string list"
  prin_Permissions :: "Permission set"

definition zero_Principal :: Principal where
  "zero_Principal = \<lparr>prin_ID = [], prin_ExternalSubject = [], prin_DisplayName = [],
     prin_OrganizationID = [], prin_SiteIDs = [], prin_Permissions = {}\<rparr>"

definition Has :: "Principal \<Rightarrow> Permission \<Rightarrow> bool" where
  "Has p permission \<longleftrightarrow> permission \<in> prin_Permissions p"

fun site_loop :: "string list \<Rightarrow> string \<Rightarrow> bool" where
  "site_loop [] siteID = False"
| "site_loop (allowedSiteID # rest) siteID =
     (if allowedSiteID = siteID then True else site_loop rest siteID)"

definition CanAccessSite :: "Principal \<Rightarrow> string \<Rightarrow> string \<Rightarrow> bool" where
  "CanAccessSite p organizationID siteID =
     (if prin_OrganizationID p = [] \<or> prin_OrganizationID p \<noteq> organizationID \<or> siteID = []
      then False
      else if prin_SiteIDs p = [] then True
      else site_loop (prin_SiteIDs p) siteID)"

section \<open>Approval authority\<close>

record ApprovalRequest =
  req_OrganizationID :: string
  req_SiteID :: string
  req_ScopeKind :: string
  req_ScopeID :: string
  req_Competency :: string
  req_Risk :: RiskLevel
  req_At :: gotime

record ApprovalAuthority =
  auth_ID :: string
  auth_SubjectID :: string
  auth_OrganizationID :: string
  auth_SiteID :: string
  auth_ScopeKind :: string
  auth_ScopeID :: string
  auth_Competency :: string
  auth_MaximumRisk :: RiskLevel
  auth_ValidFrom :: gotime
  auth_ValidUntil :: gotime
  auth_RevokedAt :: "gotime option"
  auth_DelegatedBySubjectID :: string

text \<open>\<open>Matches\<close>: the first argument is the Unicode fold table that \<open>strings.EqualFold\<close> uses.\<close>

definition Matches :: "(nat \<Rightarrow> nat) \<Rightarrow> ApprovalAuthority \<Rightarrow> string \<Rightarrow> ApprovalRequest \<Rightarrow> bool" where
  "Matches tbl a subjectID request =
     (let at = req_At request in
      if auth_RevokedAt a \<noteq> None \<or> auth_SubjectID a \<noteq> subjectID
         \<or> auth_OrganizationID a \<noteq> req_OrganizationID request then False
      else if auth_SiteID a \<noteq> [] \<and> auth_SiteID a \<noteq> req_SiteID request then False
      else if auth_ScopeKind a \<noteq> [] \<and> \<not> EqualFold tbl (auth_ScopeKind a) (req_ScopeKind request) then False
      else if auth_ScopeID a \<noteq> [] \<and> auth_ScopeID a \<noteq> req_ScopeID request then False
      else if auth_Competency a \<noteq> [] \<and> \<not> EqualFold tbl (auth_Competency a) (req_Competency request) then False
      else if req_Risk request > auth_MaximumRisk a then False
      else if \<not> IsZero (auth_ValidFrom a) \<and> Before at (auth_ValidFrom a) then False
      else if \<not> IsZero (auth_ValidUntil a) \<and> \<not> Before at (auth_ValidUntil a) then False
      else True)"

fun authority_loop :: "(nat \<Rightarrow> nat) \<Rightarrow> ApprovalAuthority list \<Rightarrow> string \<Rightarrow> ApprovalRequest \<Rightarrow> bool" where
  "authority_loop tbl [] subjectID request = False"
| "authority_loop tbl (a # rest) subjectID request =
     (if Matches tbl a subjectID request then True else authority_loop tbl rest subjectID request)"

definition CanApprove ::
  "(nat \<Rightarrow> nat) \<Rightarrow> Principal \<Rightarrow> Permission \<Rightarrow> ApprovalAuthority list \<Rightarrow> ApprovalRequest \<Rightarrow> bool" where
  "CanApprove tbl prin permission authorities request =
     (if \<not> Has prin permission then False
      else authority_loop tbl authorities (prin_ID prin) request)"

section \<open>The principal in the request context\<close>

text \<open>A request context carries at most one value under the private key \<open>principalKey\<close>.\<close>

type_synonym Context = "Principal option"

definition WithPrincipal :: "Context \<Rightarrow> Principal \<Rightarrow> Context" where
  "WithPrincipal ctx prin = Some prin"

text \<open>\<open>PrincipalFromContext\<close> returns the principal and whether it is usable; the boolean is False for
  an absent value and for a principal with an empty ID.\<close>

definition PrincipalFromContext :: "Context \<Rightarrow> Principal \<times> bool" where
  "PrincipalFromContext ctx =
     (case ctx of
        None \<Rightarrow> (zero_Principal, False)
      | Some prin \<Rightarrow> (prin, prin_ID prin \<noteq> []))"

section \<open>Laws\<close>

lemma OwnedBySkawld_neq [simp]: "OwnedBySkawld \<noteq> ExternalReference"
  by (simp add: OwnedBySkawld_def ExternalReference_def)

lemma SourceOfTruth_Validate_ok:
  "SourceOfTruth_Validate s x = None \<longleftrightarrow>
     (s = OwnedBySkawld \<and> \<not> x) \<or> (s = ExternalReference \<and> x)"
  by (auto simp: SourceOfTruth_Validate_def)

lemma site_loop_mem: "site_loop ids s \<longleftrightarrow> s \<in> set ids"
  by (induction ids) auto

lemma authority_loop_ex:
  "authority_loop tbl as subj r \<longleftrightarrow> (\<exists>a \<in> set as. Matches tbl a subj r)"
  by (induction as) auto

text \<open>The scope of an authority: a blank field does not restrict, a filled one must agree.\<close>

definition in_scope :: "(nat \<Rightarrow> nat) \<Rightarrow> ApprovalAuthority \<Rightarrow> ApprovalRequest \<Rightarrow> bool" where
  "in_scope tbl a r \<longleftrightarrow>
     auth_OrganizationID a = req_OrganizationID r
     \<and> (auth_SiteID a = [] \<or> auth_SiteID a = req_SiteID r)
     \<and> (auth_ScopeKind a = [] \<or> EqualFold tbl (auth_ScopeKind a) (req_ScopeKind r))
     \<and> (auth_ScopeID a = [] \<or> auth_ScopeID a = req_ScopeID r)
     \<and> (auth_Competency a = [] \<or> EqualFold tbl (auth_Competency a) (req_Competency r))"

text \<open>The validity window is half open, and the zero time on either side leaves that side open.\<close>

definition in_window :: "ApprovalAuthority \<Rightarrow> gotime \<Rightarrow> bool" where
  "in_window a t \<longleftrightarrow>
     (auth_ValidFrom a = 0 \<or> auth_ValidFrom a \<le> t) \<and> (auth_ValidUntil a = 0 \<or> t < auth_ValidUntil a)"

lemma Matches_iff:
  "Matches tbl a subj r \<longleftrightarrow>
     auth_RevokedAt a = None \<and> auth_SubjectID a = subj \<and> in_scope tbl a r
     \<and> req_Risk r \<le> auth_MaximumRisk a \<and> in_window a (req_At r)"
  by (auto simp: Matches_def in_scope_def in_window_def IsZero_def Before_def Let_def)

lemma NewOrganization_Inr:
  "NewOrganization i n now = Inr orga \<longleftrightarrow>
     i \<noteq> [] \<and> TrimSpace n \<noteq> []
     \<and> orga = \<lparr>org_ID = i, org_Name = TrimSpace n, org_SourceOfTruth = OwnedBySkawld,
              org_Version = 1, org_CreatedAt = now, org_UpdatedAt = now\<rparr>"
  by (auto simp: NewOrganization_def Let_def)

end
