(* ===== verification/Database.thy ===== *)
theory Database
  imports Identity_Domain
begin

text \<open>
  The database the program works on and the way it is called.

  The tables are those of \<open>migrations/00001_foundation.sql\<close> that the code reads or writes, one record
  per row; a table is the list of its rows. A single SQL statement is a function on the tables that
  either fails with an error and changes nothing, or returns its rows and the new tables; the
  statements themselves stand in the theories of the components whose sources contain them, each with
  the constraints of the schema (keys, references, checks) that the server enforces on it.

  Everything the code takes from outside the repository is a field of the record \<open>env\<close>: the
  identifier source, the clock, the random source, the failures of the connection, the hash function,
  the server's own conversions of text to \<open>uuid\<close>, \<open>text\<close>, \<open>jsonb\<close> and \<open>timestamptz\<close>, the order of
  rows that a query leaves open, and whether the driver sends a nil slice as NULL. The sources of identifiers, times, random bytes and failures are
  sequences, read one element after the other; the positions are part of the state \<open>world\<close>.

  \<open>internal/platform/database/database.go\<close>: \<open>InTx\<close>. \<open>internal/platform/id\<close> and
  \<open>internal/platform/clock\<close>: the two interfaces.
\<close>

section \<open>Tables\<close>

record organization_row =
  o_id :: string
  o_name :: string
  o_source_of_truth :: string
  o_external_system :: "string option"
  o_external_id :: "string option"
  o_version :: int
  o_created_at :: gotime
  o_updated_at :: gotime

record site_row =
  s_id :: string
  s_organization_id :: string
  s_code :: string
  s_name :: string
  s_timezone :: string
  s_status :: string

record principal_row =
  p_id :: string
  p_external_subject :: string
  p_display_name :: string
  p_email :: "string option"
  p_status :: string
  p_created_at :: gotime
  p_updated_at :: gotime

record membership_row =
  m_id :: string
  m_principal_id :: string
  m_organization_id :: string
  m_site_id :: "string option"
  m_role :: string
  m_created_at :: gotime

record flow_row =
  f_state_hash :: string
  f_nonce :: string
  f_pkce_verifier :: string
  f_return_to :: string
  f_expires_at :: gotime
  f_created_at :: gotime

record session_row =
  w_token_hash :: string
  w_principal_id :: string
  w_expires_at :: gotime
  w_created_at :: gotime
  w_last_seen_at :: gotime
  w_revoked_at :: "gotime option"

record key_row =
  k_principal_id :: string
  k_scope :: string
  k_idempotency_key :: string
  k_request_hash :: string
  k_status :: string
  k_response_status :: "int option"
  k_response_body :: "string option"
  k_created_at :: gotime
  k_completed_at :: "gotime option"

record audit_row =
  a_id :: string
  a_organization_id :: "string option"
  a_site_id :: "string option"
  a_actor_id :: "string option"
  a_action :: string
  a_entity_kind :: string
  a_entity_id :: string
  a_reason :: "string option"
  a_request_id :: "string option"
  a_execution_id :: "string option"
  a_workflow_id :: "string option"
  a_approval_id :: "string option"
  a_ai_involvement :: string
  a_before_value :: string
  a_after_value :: string
  a_attributes :: string
  a_occurred_at :: gotime

record tables =
  organizations :: "organization_row list"
  sites :: "site_row list"
  principals :: "principal_row list"
  memberships :: "membership_row list"
  auth_flows :: "flow_row list"
  web_sessions :: "session_row list"
  idempotency_keys :: "key_row list"
  audit_events :: "audit_row list"

section \<open>The environment and the state\<close>

text \<open>What a call over the connection does besides the statement: nothing; it fails before the server
  has acted; or the server has acted and its answer is lost.\<close>

datatype fault = NoFault | FailBefore | FailAfter

record env =
  env_id :: "nat \<Rightarrow> string"
  env_now :: "nat \<Rightarrow> gotime"
  env_rand :: "nat \<Rightarrow> string option"
  env_fault :: "nat \<Rightarrow> fault"
  env_sha256 :: "string \<Rightarrow> string"
  env_uuid :: "string \<Rightarrow> string option"
  env_text :: "string \<Rightarrow> bool"
  env_jsonb :: "string \<Rightarrow> string option"
  env_ts :: "gotime \<Rightarrow> gotime"
  env_order :: "membership_row list \<Rightarrow> membership_row list"
  env_nil_null :: bool

record world =
  db :: tables
  ids :: nat
  ticks :: nat
  rands :: nat
  calls :: nat

type_synonym 'a prog = "(world, goerr, 'a) act"
type_synonym 'a sql = "tables \<Rightarrow> goerr + ('a \<times> tables)"

text \<open>\<open>id.Generator.New()\<close> and \<open>clock.Clock.Now()\<close>: they cannot fail.\<close>

definition New :: "env \<Rightarrow> string prog" where
  "New E = (\<lambda>w. (Inr (env_id E (ids w)), w\<lparr>ids := Suc (ids w)\<rparr>))"

definition Now :: "env \<Rightarrow> gotime prog" where
  "Now E = (\<lambda>w. (Inr (env_now E (ticks w)), w\<lparr>ticks := Suc (ticks w)\<rparr>))"

definition apply_sql :: "'a sql \<Rightarrow> world \<Rightarrow> (goerr + 'a) \<times> world" where
  "apply_sql q w = (case q (db w) of Inl e \<Rightarrow> (Inl e, w) | Inr (x, d) \<Rightarrow> (Inr x, w\<lparr>db := d\<rparr>))"

text \<open>One statement sent over the connection (\<open>Exec\<close>, \<open>QueryRow(..).Scan\<close>, \<open>Query\<close>).\<close>

definition call :: "env \<Rightarrow> 'a sql \<Rightarrow> 'a prog" where
  "call E q = (\<lambda>w. let w1 = w\<lparr>calls := Suc (calls w)\<rparr> in
     case env_fault E (calls w) of
       NoFault \<Rightarrow> apply_sql q w1
     | FailBefore \<Rightarrow> (Inl DriverError, w1)
     | FailAfter \<Rightarrow> (Inl DriverError, snd (apply_sql q w1)))"

definition begin_tx :: "env \<Rightarrow> unit prog" where
  "begin_tx E = (\<lambda>w. let w1 = w\<lparr>calls := Suc (calls w)\<rparr> in
     if env_fault E (calls w) = NoFault then (Inr (), w1) else (Inl DriverError, w1))"

text \<open>
  \<open>tx.Commit\<close>, given the tables the transaction started from: when it fails before the server has
  acted, the transaction is rolled back; when only the answer is lost, it is committed although the
  caller sees an error.
\<close>

definition commit_tx :: "env \<Rightarrow> tables \<Rightarrow> unit prog" where
  "commit_tx E d0 = (\<lambda>w. let w1 = w\<lparr>calls := Suc (calls w)\<rparr> in
     case env_fault E (calls w) of
       NoFault \<Rightarrow> (Inr (), w1)
     | FailBefore \<Rightarrow> (Inl DriverError, w1\<lparr>db := d0\<rparr>)
     | FailAfter \<Rightarrow> (Inl DriverError, w1))"

text \<open>
  \<open>InTx\<close>. The statements of \<open>fn\<close> run on the transaction's own view of the tables; an error of
  \<open>fn\<close> leaves through the deferred \<open>Rollback\<close>, which restores them. Identifiers, clock readings and
  calls already used are not given back.
\<close>

definition InTx :: "env \<Rightarrow> 'a prog \<Rightarrow> 'a prog" where
  "InTx E fn = bindE (wrapE ''begin transaction'' (begin_tx E)) (\<lambda>_ w.
     case fn w of
       (Inl e, w') \<Rightarrow> (Inl e, w'\<lparr>db := db w\<rparr>)
     | (Inr result, w') \<Rightarrow>
         bindE (wrapE ''commit transaction'' (commit_tx E (db w))) (\<lambda>_. retE result) w')"

section \<open>Server conversions\<close>

text \<open>\<open>$n::uuid\<close>: the canonical text of the identifier, or the server's error for malformed text.\<close>

definition cast_uuid :: "env \<Rightarrow> string \<Rightarrow> goerr + string" where
  "cast_uuid E s = (case env_uuid E s of None \<Rightarrow> Inl (PgError ''22P02'') | Some u \<Rightarrow> Inr u)"

text \<open>\<open>nullif($n, '')\<close>.\<close>

definition nullif_empty :: "string \<Rightarrow> string option" where
  "nullif_empty s = (if s = [] then None else Some s)"

definition coalesce_empty :: "string option \<Rightarrow> string" where
  "coalesce_empty v = (case v of None \<Rightarrow> [] | Some s \<Rightarrow> s)"

text \<open>\<open>nullif($n, '')::uuid\<close>, \<open>$n::jsonb\<close>, and the check the server makes on every text value.\<close>

definition cast_uuid_null :: "env \<Rightarrow> string \<Rightarrow> goerr + string option" where
  "cast_uuid_null E s = (if s = [] then Inr None else bindS (cast_uuid E s) (\<lambda>u. Inr (Some u)))"

definition cast_jsonb :: "env \<Rightarrow> string \<Rightarrow> goerr + string" where
  "cast_jsonb E s = (case env_jsonb E s of None \<Rightarrow> Inl (PgError ''22P02'') | Some j \<Rightarrow> Inr j)"

definition check_text :: "env \<Rightarrow> string list \<Rightarrow> goerr + unit" where
  "check_text E ss = check (list_all (env_text E) ss) (PgError ''22021'')"

lemma cast_uuid_Inr_iff [simp]: "cast_uuid E s = Inr u \<longleftrightarrow> env_uuid E s = Some u"
  by (auto simp: cast_uuid_def split: option.splits)

lemma cast_jsonb_Inr_iff [simp]: "cast_jsonb E s = Inr j \<longleftrightarrow> env_jsonb E s = Some j"
  by (auto simp: cast_jsonb_def split: option.splits)

lemma check_text_Inr_iff [simp]: "check_text E ss = Inr u \<longleftrightarrow> list_all (env_text E) ss"
  by (simp add: check_text_def)

lemma coalesce_nullif [simp]: "coalesce_empty (nullif_empty s) = s"
  by (simp add: coalesce_empty_def nullif_empty_def)

text \<open>\<open>btrim(s)\<close> removes spaces (and only spaces) at both ends.\<close>

definition btrim :: "string \<Rightarrow> string" where
  "btrim s = rev (dropWhile (\<lambda>c. c = CHR '' '') (rev (dropWhile (\<lambda>c. c = CHR '' '') s)))"

lemma btrim_empty_iff: "btrim s = [] \<longleftrightarrow> (\<forall>c \<in> set s. c = CHR '' '')"
proof -
  have "(\<forall>c \<in> set (dropWhile P s). P c) \<longleftrightarrow> (\<forall>c \<in> set s. P c)" for P :: "char \<Rightarrow> bool"
    by (induction s) auto
  then show ?thesis by (simp add: btrim_def dropWhile_eq_Nil_conv)
qed

lemma TrimSpace_btrim: "TrimSpace s \<noteq> [] \<Longrightarrow> btrim (TrimSpace s) \<noteq> []"
proof
  assume ne: "TrimSpace s \<noteq> []" and "btrim (TrimSpace s) = []"
  then obtain cs where "TrimSpace s = CHR '' '' # cs"
    by (cases "TrimSpace s") (auto simp: btrim_empty_iff)
  then have "prefix [CHR '' ''] (TrimSpace s)" by simp
  moreover have "[CHR '' ''] \<in> set space_runes" by (simp add: space_runes_def)
  ultimately show False using TrimSpace_no_leading by blast
qed

section \<open>A sample environment\<close>

text \<open>A concrete environment on which the statements of the development are exercised: identifiers,
  times and random bytes are counted, the connection never fails, the hash is the identity, the server
  accepts valid UTF-8 and keeps documents as they are.\<close>

definition sample_env :: env where
  "sample_env = \<lparr>env_id = (\<lambda>n. CHR ''i'' # replicate n CHR ''x''), env_now = (\<lambda>n. int n + 1),
     env_rand = (\<lambda>n. Some (replicate 32 (char_of (n + 1)))), env_fault = (\<lambda>_. NoFault),
     env_sha256 = (\<lambda>s. s), env_uuid = (\<lambda>s. if s \<noteq> [] \<and> valid_utf8 s then Some s else None),
     env_text = valid_utf8, env_jsonb = (\<lambda>s. Some s), env_ts = (\<lambda>t. t),
     env_order = sort_key m_created_at, env_nil_null = True\<rparr>"

lemma sample_env_simps [simp]:
  "env_id sample_env n = CHR ''i'' # replicate n CHR ''x''" "env_now sample_env n = int n + 1"
  "env_rand sample_env n = Some (replicate 32 (char_of (n + 1)))" "env_fault sample_env n = NoFault"
  "env_sha256 sample_env s = s" "env_uuid sample_env s = (if s \<noteq> [] \<and> valid_utf8 s then Some s else None)"
  "env_text sample_env = valid_utf8" "env_jsonb sample_env s = Some s" "env_ts sample_env t = t"
  "env_order sample_env = sort_key m_created_at" "env_nil_null sample_env"
  by (simp_all add: sample_env_def)

definition empty_tables :: tables where
  "empty_tables = \<lparr>organizations = [], sites = [], principals = [], memberships = [], auth_flows = [],
     web_sessions = [], idempotency_keys = [], audit_events = []\<rparr>"

definition world_of :: "tables \<Rightarrow> world" where
  "world_of d = \<lparr>db = d, ids = 0, ticks = 0, rands = 0, calls = 0\<rparr>"

lemma world_of_simps [simp]:
  "db (world_of d) = d" "ids (world_of d) = 0" "ticks (world_of d) = 0" "calls (world_of d) = 0"
  "rands (world_of d) = 0"
  by (simp_all add: world_of_def)

section \<open>Rules for calls and transactions\<close>

lemma New_app [simp, act_simps]: "New E w = (Inr (env_id E (ids w)), w\<lparr>ids := Suc (ids w)\<rparr>)"
  by (simp add: New_def)

lemma Now_app [simp, act_simps]: "Now E w = (Inr (env_now E (ticks w)), w\<lparr>ticks := Suc (ticks w)\<rparr>)"
  by (simp add: Now_def)

lemma wp_New [wp_rules]: "wp (New E) Q w = Q (Inr (env_id E (ids w))) (w\<lparr>ids := Suc (ids w)\<rparr>)"
  by (simp add: wp_def)

lemma wp_Now [wp_rules]: "wp (Now E) Q w = Q (Inr (env_now E (ticks w))) (w\<lparr>ticks := Suc (ticks w)\<rparr>)"
  by (simp add: wp_def)

lemma call_Inr_iff:
  "call E q w = (Inr x, w') \<longleftrightarrow>
     env_fault E (calls w) = NoFault \<and>
     (\<exists>d. q (db w) = Inr (x, d) \<and> w' = w\<lparr>calls := Suc (calls w), db := d\<rparr>)"
  by (auto simp: call_def apply_sql_def Let_def split: fault.splits sum.splits prod.splits)

lemma call_NoFault:
  "env_fault E (calls w) = NoFault \<Longrightarrow> call E q w =
     (case q (db w) of
        Inl e \<Rightarrow> (Inl e, w\<lparr>calls := Suc (calls w)\<rparr>)
      | Inr (x, d) \<Rightarrow> (Inr x, w\<lparr>calls := Suc (calls w), db := d\<rparr>))"
  by (simp add: call_def apply_sql_def Let_def split: sum.splits prod.splits)

lemma call_db_cases:
  "call E q w = (r, w') \<Longrightarrow> db w' = db w \<or> (\<exists>x. q (db w) = Inr (x, db w'))"
  by (auto simp: call_def apply_sql_def Let_def split: fault.splits sum.splits prod.splits)

text \<open>Atomicity: a transaction that reports an error has changed nothing, unless the answer to its
  commit was lost; then it has done all of its work.\<close>

lemma InTx_unfold:
  "InTx E fn w =
     (if env_fault E (calls w) \<noteq> NoFault
      then (Inl (Wrap ''begin transaction'' DriverError), w\<lparr>calls := Suc (calls w)\<rparr>)
      else case fn (w\<lparr>calls := Suc (calls w)\<rparr>) of
        (Inl e, w2) \<Rightarrow> (Inl e, w2\<lparr>db := db w\<rparr>)
      | (Inr x, w2) \<Rightarrow>
          (case env_fault E (calls w2) of
             NoFault \<Rightarrow> (Inr x, w2\<lparr>calls := Suc (calls w2)\<rparr>)
           | FailBefore \<Rightarrow> (Inl (Wrap ''commit transaction'' DriverError),
                           w2\<lparr>calls := Suc (calls w2), db := db w\<rparr>)
           | FailAfter \<Rightarrow> (Inl (Wrap ''commit transaction'' DriverError), w2\<lparr>calls := Suc (calls w2)\<rparr>)))"
  by (simp add: InTx_def begin_tx_def commit_tx_def bindE_def mapErr_def Let_def
        split: prod.split sum.split fault.split)

lemma InTx_InrD:
  assumes "InTx E fn w = (Inr x, w')"
  shows "\<exists>w2. fn (w\<lparr>calls := Suc (calls w)\<rparr>) = (Inr x, w2) \<and> w' = w2\<lparr>calls := Suc (calls w2)\<rparr>"
proof -
  obtain r w2 where "fn (w\<lparr>calls := Suc (calls w)\<rparr>) = (r, w2)" by fastforce
  then show ?thesis using assms
    by (cases r) (simp_all add: InTx_unfold split: if_split_asm fault.split_asm)
qed

lemma InTx_InlD:
  assumes "InTx E fn w = (Inl e, w')"
  shows "db w' = db w \<or>
    (\<exists>x w2. fn (w\<lparr>calls := Suc (calls w)\<rparr>) = (Inr x, w2) \<and> env_fault E (calls w2) = FailAfter
        \<and> e = Wrap ''commit transaction'' DriverError \<and> w' = w2\<lparr>calls := Suc (calls w2)\<rparr>)"
proof -
  obtain r w2 where "fn (w\<lparr>calls := Suc (calls w)\<rparr>) = (r, w2)" by fastforce
  then show ?thesis using assms
    by (cases r) (force simp add: InTx_unfold split: if_split_asm fault.split_asm)+
qed

lemma InTx_fn_error:
  assumes "env_fault E (calls w) = NoFault" and "fn (w\<lparr>calls := Suc (calls w)\<rparr>) = (Inl e, w2)"
  shows "InTx E fn w = (Inl e, w2\<lparr>db := db w\<rparr>)"
  using assms by (simp add: InTx_unfold)

lemma InTx_fn_ok:
  assumes "env_fault E (calls w) = NoFault" and "fn (w\<lparr>calls := Suc (calls w)\<rparr>) = (Inr x, w2)"
    and "env_fault E (calls w2) = NoFault"
  shows "InTx E fn w = (Inr x, w2\<lparr>calls := Suc (calls w2)\<rparr>)"
  using assms by (simp add: InTx_unfold)

text \<open>The tables after a transaction are those before it or those its body left.\<close>

lemma InTx_db_cases:
  assumes "InTx E fn w = (r, w')"
  shows "db w' = db w \<or>
    (\<exists>x w2. fn (w\<lparr>calls := Suc (calls w)\<rparr>) = (Inr x, w2) \<and> db w' = db w2)"
proof (cases r)
  case (Inl e)
  then show ?thesis using InTx_InlD assms by fastforce
next
  case (Inr x)
  then show ?thesis using InTx_InrD assms by fastforce
qed

section \<open>Relations that every program of a component keeps\<close>

text \<open>A relation on tables, lifted to states, and the programs that keep it: they relate the tables
  before a run to those after it, whatever the outcome of the run.\<close>

definition on_db :: "(tables \<Rightarrow> tables \<Rightarrow> bool) \<Rightarrow> world \<Rightarrow> world \<Rightarrow> bool" where
  "on_db R w w' \<longleftrightarrow> R (db w) (db w')"

locale table_relation =
  fixes R :: "tables \<Rightarrow> tables \<Rightarrow> bool"
  assumes R_refl: "R d d"
    and R_trans: "R d1 d2 \<Longrightarrow> R d2 d3 \<Longrightarrow> R d1 d3"
begin

lemma on_db_refl: "reflp (on_db R)"
  by (simp add: reflp_def on_db_def R_refl)

lemma on_db_trans: "transp (on_db R)"
  by (auto simp: transp_def on_db_def intro: R_trans)

lemma keep_retE: "keeps (on_db R) (retE x)"
  by (rule keeps_retE [OF on_db_refl])

lemma keep_failE: "keeps (on_db R) (failE e)"
  by (rule keeps_failE [OF on_db_refl])

lemma keep_mapErr: "keeps (on_db R) m \<Longrightarrow> keeps (on_db R) (mapErr g m)"
  by (rule keeps_mapErr)

lemma keep_bindE: "keeps (on_db R) m \<Longrightarrow> (\<And>x. keeps (on_db R) (f x)) \<Longrightarrow> keeps (on_db R) (bindE m f)"
  by (rule keeps_bindE [OF on_db_trans])

lemma keep_New: "keeps (on_db R) (New E)"
  by (simp add: keeps_def on_db_def R_refl)

lemma keep_Now: "keeps (on_db R) (Now E)"
  by (simp add: keeps_def on_db_def R_refl)

lemma keep_call:
  assumes "\<And>d x d'. q d = Inr (x, d') \<Longrightarrow> R d d'"
  shows "keeps (on_db R) (call E q)"
proof (rule keepsI)
  fix w
  obtain r w' where c: "call E q w = (r, w')" by fastforce
  then show "on_db R w (snd (call E q w))"
    using call_db_cases [OF c] assms by (auto simp: on_db_def R_refl)
qed

lemma keep_InTx:
  assumes "keeps (on_db R) fn"
  shows "keeps (on_db R) (InTx E fn)"
proof (rule keepsI)
  fix w
  obtain r w' where c: "InTx E fn w = (r, w')" by fastforce
  then show "on_db R w (snd (InTx E fn w))"
    using InTx_db_cases [OF c] keepsD [OF assms] by (fastforce simp: on_db_def R_refl)
qed

lemmas keep_rules = keep_retE keep_failE keep_mapErr keep_bindE keep_New keep_Now keeps_if

end

end
