(* ===== verification/Go_Json.thy ===== *)
theory Go_Json
  imports Go_Strings
begin

text \<open>
  The part of Go's \<open>encoding/json\<close> that the sources use: the text \<open>json.Marshal\<close> writes, the
  document \<open>json.Unmarshal\<close> and \<open>json.Decoder\<close> read, and how object keys are matched to struct
  fields. A document is a tree; object members stay in their order, since the decoder stores them one
  after another. Numbers keep their literal text, as the decoder does until a field takes them.
\<close>

datatype json =
    JNull
  | JBool bool
  | JNum string
  | JStr string
  | JArr "json list"
  | JObj "(string \<times> json) list"

section \<open>Writing\<close>

definition hex_digit :: "nat \<Rightarrow> char" where
  "hex_digit n = (if n < 10 then char_of (48 + n) else char_of (87 + n))"

definition quote_mark :: char where
  "quote_mark = CHR 0x22"

definition backslash :: char where
  "backslash = CHR 0x5C"

text \<open>The escapes of \<open>appendString\<close> with HTML escaping on, which is how \<open>Marshal\<close> and a fresh
  \<open>Encoder\<close> call it.\<close>

definition escape_ascii :: "char \<Rightarrow> string" where
  "escape_ascii c =
     (let b = byte c in
      if c = quote_mark \<or> c = backslash then [backslash, c]
      else if b = 0x08 then [backslash, CHR ''b'']
      else if b = 0x0C then [backslash, CHR ''f'']
      else if b = 0x0A then [backslash, CHR ''n'']
      else if b = 0x0D then [backslash, CHR ''r'']
      else if b = 0x09 then [backslash, CHR ''t'']
      else if b < 0x20 \<or> c = CHR ''<'' \<or> c = CHR ''>'' \<or> c = CHR ''&''
        then backslash # ''u00'' @ [hex_digit (b div 16), hex_digit (b mod 16)]
      else [c])"

fun quote_body :: "string \<Rightarrow> string" where
  "quote_body [] = []"
| "quote_body (c # cs) =
     (if byte c < 0x80 then escape_ascii c @ quote_body cs
      else case decode_rune (c # cs) of
        None \<Rightarrow> (backslash # ''ufffd'') @ quote_body cs
      | Some rn \<Rightarrow>
          (if fst rn = 0x2028 then backslash # ''u2028''
           else if fst rn = 0x2029 then backslash # ''u2029''
           else c # take (snd rn - 1) cs) @ quote_body (drop (snd rn - 1) cs))"

definition quote :: "string \<Rightarrow> string" where
  "quote s = quote_mark # quote_body s @ [quote_mark]"

fun join_comma :: "string list \<Rightarrow> string" where
  "join_comma [] = []"
| "join_comma [x] = x"
| "join_comma (x # xs) = x @ CHR '','' # join_comma xs"

fun json_text :: "json \<Rightarrow> string" where
  "json_text JNull = ''null''"
| "json_text (JBool b) = (if b then ''true'' else ''false'')"
| "json_text (JNum l) = l"
| "json_text (JStr s) = quote s"
| "json_text (JArr vs) = CHR ''['' # join_comma (map json_text vs) @ '']''"
| "json_text (JObj ms) =
     CHR ''{'' # join_comma (map (\<lambda>m. quote (fst m) @ CHR '':'' # json_text (snd m)) ms) @ ''}''"

section \<open>Reading\<close>

definition is_ws :: "char \<Rightarrow> bool" where
  "is_ws c \<longleftrightarrow> c = CHR 0x20 \<or> c = CHR 0x09 \<or> c = CHR 0x0A \<or> c = CHR 0x0D"

definition skip_ws :: "string \<Rightarrow> string" where
  "skip_ws s = dropWhile is_ws s"

definition hex_value :: "char \<Rightarrow> nat option" where
  "hex_value c =
     (let b = byte c in
      if 48 \<le> b \<and> b \<le> 57 then Some (b - 48)
      else if 97 \<le> b \<and> b \<le> 102 then Some (b - 87)
      else if 65 \<le> b \<and> b \<le> 70 then Some (b - 55)
      else None)"

fun getu4 :: "string \<Rightarrow> nat option" where
  "getu4 (a # b # c # d # _) =
     (case (hex_value a, hex_value b, hex_value c, hex_value d) of
        (Some x, Some y, Some z, Some w) \<Rightarrow> Some (x * 4096 + y * 256 + z * 16 + w)
      | _ \<Rightarrow> None)"
| "getu4 _ = None"

definition encode_rune :: "nat \<Rightarrow> string" where
  "encode_rune r =
     (if r < 0x80 then [char_of r]
      else if r < 0x800 then [char_of (0xC0 + r div 64), char_of (0x80 + r mod 64)]
      else if 0xD800 \<le> r \<and> r < 0xE000 \<or> 0x110000 \<le> r then [CHR 0xEF, CHR 0xBF, CHR 0xBD]
      else if r < 0x10000
        then [char_of (0xE0 + r div 4096), char_of (0x80 + r div 64 mod 64), char_of (0x80 + r mod 64)]
      else [char_of (0xF0 + r div 262144), char_of (0x80 + r div 4096 mod 64),
            char_of (0x80 + r div 64 mod 64), char_of (0x80 + r mod 64)])"

text \<open>
  A \<open>\\u\<close> escape: the rune and what follows the escape. A high surrogate joins with a low one
  that follows at once as a second escape (\<open>utf16.DecodeRune\<close>); any other surrogate becomes U+FFFD.
\<close>

definition unicode_escape :: "string \<Rightarrow> (nat \<times> string) option" where
  "unicode_escape s =
     (case getu4 s of
        None \<Rightarrow> None
      | Some r \<Rightarrow>
          (let rest = drop 4 s in
           if 0xD800 \<le> r \<and> r < 0xE000 then
             (case (if take 2 rest = [backslash, CHR ''u''] then getu4 (drop 2 rest) else None) of
                Some r2 \<Rightarrow>
                  if r < 0xDC00 \<and> 0xDC00 \<le> r2 \<and> r2 < 0xE000
                  then Some ((r - 0xD800) * 1024 + (r2 - 0xDC00) + 0x10000, drop 6 rest)
                  else Some (RuneError, rest)
              | None \<Rightarrow> Some (RuneError, rest))
           else Some (r, rest)))"

definition simple_escape :: "char \<Rightarrow> char option" where
  "simple_escape e =
     (if e = quote_mark \<or> e = backslash \<or> e = CHR ''/'' then Some e
      else if e = CHR ''b'' then Some (CHR 0x08)
      else if e = CHR ''f'' then Some (CHR 0x0C)
      else if e = CHR ''n'' then Some (CHR 0x0A)
      else if e = CHR ''r'' then Some (CHR 0x0D)
      else if e = CHR ''t'' then Some (CHR 0x09)
      else None)"

text \<open>The characters of a string literal after its opening quote: the value and the text after the
  closing quote. The first argument bounds the number of steps; the length of the text is enough.\<close>

fun unquote :: "nat \<Rightarrow> string \<Rightarrow> (string \<times> string) option" where
  "unquote 0 s = None"
| "unquote (Suc f) [] = None"
| "unquote (Suc f) (c # cs) =
     (if c = quote_mark then Some ([], cs)
      else if c = backslash then
        (case cs of
           [] \<Rightarrow> None
         | e # es \<Rightarrow>
             if e = CHR ''u'' then
               (case unicode_escape es of
                  None \<Rightarrow> None
                | Some (r, rest) \<Rightarrow> map_option (apfst ((@) (encode_rune r))) (unquote f rest))
             else
               (case simple_escape e of
                  None \<Rightarrow> None
                | Some x \<Rightarrow> map_option (apfst ((#) x)) (unquote f es)))
      else if byte c < 0x20 then None
      else
        (case decode_rune (c # cs) of
           None \<Rightarrow> map_option (apfst ((@) (encode_rune RuneError))) (unquote f cs)
         | Some (r, n) \<Rightarrow>
             map_option (apfst ((@) (c # take (n - 1) cs))) (unquote f (drop (n - 1) cs))))"

definition read_string :: "string \<Rightarrow> (string \<times> string) option" where
  "read_string s = unquote (Suc (length s)) s"

definition scan_digits :: "string \<Rightarrow> (string \<times> string) option" where
  "scan_digits s =
     (let ds = takeWhile is_digit s in if ds = [] then None else Some (ds, dropWhile is_digit s))"

definition scan_int :: "string \<Rightarrow> (string \<times> string) option" where
  "scan_int s = (case s of c # cs \<Rightarrow> if c = CHR ''0'' then Some (''0'', cs) else scan_digits s | [] \<Rightarrow> None)"

definition scan_frac :: "string \<Rightarrow> (string \<times> string) option" where
  "scan_frac s =
     (case s of
        c # cs \<Rightarrow> if c = CHR ''.'' then map_option (apfst ((#) c)) (scan_digits cs) else Some ([], s)
      | [] \<Rightarrow> Some ([], []))"

definition scan_exp :: "string \<Rightarrow> (string \<times> string) option" where
  "scan_exp s =
     (case s of
        c # cs \<Rightarrow>
          if c = CHR ''e'' \<or> c = CHR ''E'' then
            (case cs of
               g # gs \<Rightarrow>
                 if g = CHR ''+'' \<or> g = CHR ''-''
                 then map_option (apfst (\<lambda>ds. c # g # ds)) (scan_digits gs)
                 else map_option (apfst ((#) c)) (scan_digits cs)
             | [] \<Rightarrow> None)
          else Some ([], s)
      | [] \<Rightarrow> Some ([], []))"

definition scan_number :: "string \<Rightarrow> (string \<times> string) option" where
  "scan_number s =
     (let (sg, s1) = (case s of c # cs \<Rightarrow> if c = CHR ''-'' then ([c], cs) else ([], s) | [] \<Rightarrow> ([], s))
      in case scan_int s1 of
           None \<Rightarrow> None
         | Some (i, s2) \<Rightarrow>
             (case scan_frac s2 of
                None \<Rightarrow> None
              | Some (fr, s3) \<Rightarrow>
                  map_option (apfst (\<lambda>ex. sg @ i @ fr @ ex)) (scan_exp s3)))"

definition literal :: "string \<Rightarrow> json \<Rightarrow> string \<Rightarrow> (json \<times> string) option" where
  "literal w v s = (if prefix w s then Some (v, drop (length w) s) else None)"

text \<open>
  The value parser. The first argument is fuel: each nested value, array element and object member
  spends one unit, and each of them takes at least one byte of the text, so the length of the text
  is enough.
\<close>

fun read_value :: "nat \<Rightarrow> string \<Rightarrow> (json \<times> string) option"
  and read_elems :: "nat \<Rightarrow> string \<Rightarrow> (json list \<times> string) option"
  and read_members :: "nat \<Rightarrow> string \<Rightarrow> ((string \<times> json) list \<times> string) option" where
  "read_value 0 s = None"
| "read_value (Suc f) s =
     (case skip_ws s of
        [] \<Rightarrow> None
      | c # cs \<Rightarrow>
          if c = quote_mark then map_option (apfst JStr) (read_string cs)
          else if c = CHR ''{'' then
            (case skip_ws cs of
               d # ds \<Rightarrow>
                 if d = CHR ''}'' then Some (JObj [], ds)
                 else map_option (apfst JObj) (read_members f (d # ds))
             | [] \<Rightarrow> None)
          else if c = CHR ''['' then
            (case skip_ws cs of
               d # ds \<Rightarrow>
                 if d = CHR '']'' then Some (JArr [], ds)
                 else map_option (apfst JArr) (read_elems f (d # ds))
             | [] \<Rightarrow> None)
          else if c = CHR ''t'' then literal ''true'' (JBool True) (c # cs)
          else if c = CHR ''f'' then literal ''false'' (JBool False) (c # cs)
          else if c = CHR ''n'' then literal ''null'' JNull (c # cs)
          else map_option (apfst JNum) (scan_number (c # cs)))"
| "read_elems 0 s = None"
| "read_elems (Suc f) s =
     (case read_value f s of
        None \<Rightarrow> None
      | Some (v, r) \<Rightarrow>
          (case skip_ws r of
             d # ds \<Rightarrow>
               if d = CHR '','' then map_option (apfst ((#) v)) (read_elems f ds)
               else if d = CHR '']'' then Some ([v], ds)
               else None
           | [] \<Rightarrow> None))"
| "read_members 0 s = None"
| "read_members (Suc f) s =
     (case skip_ws s of
        [] \<Rightarrow> None
      | c # cs \<Rightarrow>
          if c \<noteq> quote_mark then None
          else
            (case read_string cs of
               None \<Rightarrow> None
             | Some (k, r1) \<Rightarrow>
                 (case skip_ws r1 of
                    [] \<Rightarrow> None
                  | d # ds \<Rightarrow>
                      if d \<noteq> CHR '':'' then None
                      else
                        (case read_value f ds of
                           None \<Rightarrow> None
                         | Some (v, r2) \<Rightarrow>
                             (case skip_ws r2 of
                                e # es \<Rightarrow>
                                  if e = CHR '','' then map_option (apfst ((#) (k, v))) (read_members f es)
                                  else if e = CHR ''}'' then Some ([(k, v)], es)
                                  else None
                              | [] \<Rightarrow> None)))))"

text \<open>\<open>Decoder.Decode\<close> reads one value and leaves the rest of the input.\<close>

definition json_next :: "string \<Rightarrow> (json \<times> string) option" where
  "json_next s = read_value (2 * length s + 2) s"

text \<open>\<open>json.Unmarshal\<close> wants exactly one value, with white space around it at most.\<close>

definition json_parse :: "string \<Rightarrow> json option" where
  "json_parse s =
     (case json_next s of
        None \<Rightarrow> None
      | Some (v, r) \<Rightarrow> if skip_ws r = [] then Some v else None)"

text \<open>An object key selects a struct field by its exact name, else by case folding. The field names
  of the sources are ASCII, so the table for other runes plays no part.\<close>

definition key_matches :: "string \<Rightarrow> string \<Rightarrow> bool" where
  "key_matches field key \<longleftrightarrow> key = field \<or> EqualFold (\<lambda>r. r) key field"

section \<open>What is written is read back\<close>

lemma char_of_eq: "k < 256 \<Longrightarrow> (char_of k = c) = (k = byte c)"
  by (metis mod_less of_char_of char_of_char)

lemma base64_digits:
  assumes "(y::nat) < 64" and "z < 64"
  shows "(x * 4096 + y * 64 + z) div 4096 = x" and "(x * 4096 + y * 64 + z) div 64 mod 64 = y"
    and "(x * 4096 + y * 64 + z) mod 64 = z"
proof -
  have e: "x * 4096 + y * 64 + z = (x * 64 + y) * 64 + z" by simp
  have d: "(x * 4096 + y * 64 + z) div 64 = x * 64 + y"
    unfolding e using assms by simp
  show "(x * 4096 + y * 64 + z) mod 64 = z"
    using assms by (simp only: e mod_mult_self3 mod_less)
  show "(x * 4096 + y * 64 + z) div 64 mod 64 = y"
    unfolding d using assms by simp
  have "(x * 4096 + y * 64 + z) div 4096 = (x * 4096 + y * 64 + z) div 64 div 64"
    by (simp add: div_mult2_eq [symmetric])
  then show "(x * 4096 + y * 64 + z) div 4096 = x"
    unfolding d using assms by simp
qed

lemma encode_decode_rune:
  assumes "decode_rune s = Some (r, n)"
  shows "encode_rune r = take n s"
proof (cases s)
  case Nil
  then show ?thesis using assms by simp
next
  case (Cons c0 cs)
  note d = assms [unfolded Cons]
  consider (one) "byte c0 < 0x80" | (two) "0xC2 \<le> byte c0" "byte c0 \<le> 0xDF"
    | (three) "0xE0 \<le> byte c0" "byte c0 \<le> 0xEF" | (four) "0xF0 \<le> byte c0" "byte c0 \<le> 0xF4"
    using d by (auto simp: Let_def split: if_splits)
  then show ?thesis
  proof cases
    case one
    then show ?thesis using d Cons by (auto simp: encode_rune_def)
  next
    case two
    then obtain c1 cs1 where cs: "cs = c1 # cs1" "n = 2" and c1: "cont 0x80 0xBF c1"
      and r: "r = (byte c0 - 0xC0) * 64 + (byte c1 - 0x80)"
      using d by (auto simp: Let_def split: list.splits if_splits)
    obtain x y where x: "byte c0 = 0xC0 + x" "2 \<le> x" "x < 32" and y: "byte c1 = 0x80 + y" "y < 64"
      using two c1 that [of "byte c0 - 0xC0" "byte c1 - 0x80"] unfolding cont_def by auto
    have r': "r = x * 64 + y" using r x y by simp
    have "0x80 \<le> r" "r < 0x800" using r' x y by simp_all
    moreover have "r div 64 = x" "r mod 64 = y" using r' y by simp_all
    ultimately show ?thesis using cs x y Cons by (simp add: encode_rune_def char_of_eq)
  next
    case three
    then obtain c1 c2 cs1 where cs: "cs = c1 # c2 # cs1" "n = 3"
      and c1: "cont (if byte c0 = 0xE0 then 0xA0 else 0x80) (if byte c0 = 0xED then 0x9F else 0xBF) c1"
      and c2: "cont 0x80 0xBF c2"
      and r: "r = (byte c0 - 0xE0) * 4096 + (byte c1 - 0x80) * 64 + (byte c2 - 0x80)"
      using d by (auto simp: Let_def split: list.splits if_splits)
    obtain x y z where x: "byte c0 = 0xE0 + x" "x < 16" and y: "byte c1 = 0x80 + y" "y < 64"
       and z: "byte c2 = 0x80 + z" "z < 64"
      using three c1 c2 that [of "byte c0 - 0xE0" "byte c1 - 0x80" "byte c2 - 0x80"] unfolding cont_def
      by (auto split: if_splits)
    have r': "r = x * 4096 + y * 64 + z" using r x y z by simp
    have "r \<ge> 0x800" using r' x y c1 unfolding cont_def by (auto split: if_splits)
    moreover have "r < 0x10000" using r' x y z by simp
    moreover have "\<not> (0xD800 \<le> r \<and> r < 0xE000)" using r' x y z c1 unfolding cont_def
      by (auto split: if_splits)
    moreover have "r div 4096 = x" "r div 64 mod 64 = y" "r mod 64 = z"
      using base64_digits [OF y(2) z(2), of x] r' by simp_all
    ultimately show ?thesis using cs x y z Cons
      by (simp only: encode_rune_def) (auto simp: char_of_eq)
  next
    case four
    then obtain c1 c2 c3 cs1 where cs: "cs = c1 # c2 # c3 # cs1" "n = 4"
      and c1: "cont (if byte c0 = 0xF0 then 0x90 else 0x80) (if byte c0 = 0xF4 then 0x8F else 0xBF) c1"
      and c2: "cont 0x80 0xBF c2" and c3: "cont 0x80 0xBF c3"
      and r: "r = (byte c0 - 0xF0) * 262144 + (byte c1 - 0x80) * 4096
                        + (byte c2 - 0x80) * 64 + (byte c3 - 0x80)"
      using d by (auto simp: Let_def split: list.splits if_splits)
    obtain x y z w where x: "byte c0 = 0xF0 + x" "x < 5" and y: "byte c1 = 0x80 + y" "y < 64"
       and z: "byte c2 = 0x80 + z" "z < 64" and w: "byte c3 = 0x80 + w" "w < 64"
      using four c1 c2 c3 that [of "byte c0 - 0xF0" "byte c1 - 0x80" "byte c2 - 0x80" "byte c3 - 0x80"]
      unfolding cont_def by (auto split: if_splits)
    have r': "r = x * 262144 + y * 4096 + z * 64 + w" using r x y z w by simp
    have "r \<ge> 0x10000" using r' x y c1 unfolding cont_def by (auto split: if_splits)
    moreover have "r < 0x110000" using r' x y z w c1 unfolding cont_def by (auto split: if_splits)
    moreover have "r div 262144 = x" "r div 4096 mod 64 = y" "r div 64 mod 64 = z" "r mod 64 = w"
      using base64_digits [OF z(2) w(2), of "x * 64 + y"] y(2) r' div_mult2_eq [of r 4096 64]
      by (simp_all add: algebra_simps)
    ultimately show ?thesis using cs x y z w Cons by (simp add: encode_rune_def char_of_eq)
  qed
qed

lemma hex_value_hex_digit: "n < 16 \<Longrightarrow> hex_value (hex_digit n) = Some n"
  by (auto simp: hex_value_def hex_digit_def Let_def)

lemma getu4_00:
  assumes "b < 256"
  shows "getu4 (''00'' @ hex_digit (b div 16) # hex_digit (b mod 16) # t) = Some b"
proof -
  have "hex_value (hex_digit (b div 16)) = Some (b div 16)"
    "hex_value (hex_digit (b mod 16)) = Some (b mod 16)"
    using assms by (simp_all add: hex_value_hex_digit)
  moreover have "hex_value (CHR ''0'') = Some 0" by (simp add: hex_value_def)
  ultimately show ?thesis by simp
qed

lemma byte_inj: "byte c = byte d \<Longrightarrow> c = d"
  by (simp only: of_char_eq_iff)

lemma byte_control:
  "byte c = 0x08 \<Longrightarrow> c = CHR 0x08" "byte c = 0x0C \<Longrightarrow> c = CHR 0x0C"
  "byte c = 0x0A \<Longrightarrow> c = CHR 0x0A" "byte c = 0x0D \<Longrightarrow> c = CHR 0x0D"
  "byte c = 0x09 \<Longrightarrow> c = CHR 0x09"
  by (rule byte_inj; simp)+

lemma escape_ascii_control:
  "escape_ascii (CHR 0x08) = [backslash, CHR ''b'']"
  "escape_ascii (CHR 0x0C) = [backslash, CHR ''f'']"
  "escape_ascii (CHR 0x0A) = [backslash, CHR ''n'']"
  "escape_ascii (CHR 0x0D) = [backslash, CHR ''r'']"
  "escape_ascii (CHR 0x09) = [backslash, CHR ''t'']"
  by (simp_all add: escape_ascii_def quote_mark_def backslash_def)

lemma unquote_simple_escape:
  "simple_escape e = Some x \<Longrightarrow> unquote (Suc f) (backslash # e # t) = map_option (apfst ((#) x)) (unquote f t)"
  by (auto simp: quote_mark_def backslash_def simple_escape_def)

lemma simple_escape_control:
  "simple_escape (CHR ''b'') = Some (CHR 0x08)" "simple_escape (CHR ''f'') = Some (CHR 0x0C)"
  "simple_escape (CHR ''n'') = Some (CHR 0x0A)" "simple_escape (CHR ''r'') = Some (CHR 0x0D)"
  "simple_escape (CHR ''t'') = Some (CHR 0x09)"
  by (simp_all add: simple_escape_def quote_mark_def backslash_def)

lemma unquote_escape_ascii:
  assumes "byte c < 0x80"
  shows "unquote (Suc f) (escape_ascii c @ t) = map_option (apfst ((#) c)) (unquote f t)"
proof -
  define u where "u = (byte c < 0x20 \<or> c = CHR ''<'' \<or> c = CHR ''>'' \<or> c = CHR ''&'')"
  consider (esc) "c = quote_mark \<or> c = backslash"
    | (sh) "byte c \<in> {0x08, 0x0C, 0x0A, 0x0D, 0x09}"
    | (uni) "c \<noteq> quote_mark" "c \<noteq> backslash" "byte c \<notin> {0x08, 0x0C, 0x0A, 0x0D, 0x09}" u
    | (plain) "c \<noteq> quote_mark" "c \<noteq> backslash" "\<not> u"
    by blast
  then show ?thesis
  proof cases
    case esc
    then show ?thesis
      by (auto simp: escape_ascii_def simple_escape_def quote_mark_def backslash_def)
  next
    case sh
    then have "c = CHR 0x08 \<or> c = CHR 0x0C \<or> c = CHR 0x0A \<or> c = CHR 0x0D \<or> c = CHR 0x09"
      using byte_control by blast
    then show ?thesis
      by (elim disjE)
        (simp_all only: escape_ascii_control append_Cons append_Nil
           unquote_simple_escape [OF simple_escape_control(1)]
           unquote_simple_escape [OF simple_escape_control(2)]
           unquote_simple_escape [OF simple_escape_control(3)]
           unquote_simple_escape [OF simple_escape_control(4)]
           unquote_simple_escape [OF simple_escape_control(5)])
  next
    case uni
    then have e: "escape_ascii c =
        backslash # CHR ''u'' # ''00'' @ [hex_digit (byte c div 16), hex_digit (byte c mod 16)]"
      by (simp add: escape_ascii_def u_def Let_def)
    have "unicode_escape (''00'' @ hex_digit (byte c div 16) # hex_digit (byte c mod 16) # t)
        = Some (byte c, t)"
      using assms getu4_00 [of "byte c" t] by (simp add: unicode_escape_def)
    moreover have "encode_rune (byte c) = [c]"
      using assms by (simp add: encode_rune_def)
    moreover have "(@) [c] = (#) c" by auto
    ultimately show ?thesis unfolding e by (simp add: quote_mark_def backslash_def)
  next
    case plain
    then have "escape_ascii c = [c]" "\<not> byte c < 0x20"
      by (auto simp: escape_ascii_def u_def Let_def)
    moreover have "(@) [c] = (#) c" by auto
    ultimately show ?thesis using plain assms by simp
  qed
qed

lemma unquote_quote_body:
  "valid_utf8 s \<Longrightarrow> length (quote_body s) < f
    \<Longrightarrow> unquote f (quote_body s @ quote_mark # rest) = Some (s, rest)"
proof (induction s arbitrary: f rule: quote_body.induct)
  case 1
  then show ?case by (cases f) auto
next
  case (2 c cs)
  obtain g where f: "f = Suc g" using 2 by (cases f) auto
  show ?case
  proof (cases "byte c < 0x80")
    case True
    moreover have "escape_ascii c \<noteq> []" by (auto simp: escape_ascii_def Let_def)
    then have "0 < length (escape_ascii c)" by blast
    with 2 f True have "length (quote_body cs) < g" by (simp del: length_greater_0_conv)
    ultimately have "unquote g (quote_body cs @ quote_mark # rest) = Some (cs, rest)"
      using 2 f by simp
    then show ?thesis using True f by (simp add: unquote_escape_ascii)
  next
    case False
    then obtain r n where d: "decode_rune (c # cs) = Some (r, n)" and v: "valid_utf8 (drop (n - 1) cs)"
      using "2.prems" by (auto split: option.splits)
    have n: "0 < n" "n \<le> Suc (length cs)" using decode_rune_size [OF d] by auto
    have IH: "unquote h (quote_body (drop (n - 1) cs) @ quote_mark # rest) = Some (drop (n - 1) cs, rest)"
      if "length (quote_body (drop (n - 1) cs)) < h" for h
      using "2.IH"(3) [OF False d] v that by simp
    have enc: "encode_rune r = c # take (n - 1) cs"
      using encode_decode_rune [OF d] n by (cases n) auto
    show ?thesis
    proof (cases "r = 0x2028 \<or> r = 0x2029")
      case True
      then have "unicode_escape ((if r = 0x2028 then ''2028'' else ''2029'') @ t) = Some (r, t)" for t
        by (auto simp: unicode_escape_def hex_value_def)
      then have "unquote (Suc g) (backslash # CHR ''u'' # (if r = 0x2028 then ''2028'' else ''2029'')
            @ quote_body (drop (n - 1) cs) @ quote_mark # rest) = Some (c # cs, rest)"
        using IH [of g] 2 False d True f enc
        by (auto simp: backslash_def quote_mark_def)
      then show ?thesis using True False d f by (auto split: if_splits)
    next
      case F: False
      have "decode_rune (c # take (n - 1) cs @ t) = Some (r, n)" for t
        using decode_rune_take [OF d, of t] n by (cases n) auto
      moreover have "c \<noteq> quote_mark" "c \<noteq> backslash"
        using False by (auto simp: quote_mark_def backslash_def)
      ultimately show ?thesis using IH [of g] "2.prems" F False d f n by simp
    qed
  qed
qed

lemma read_string_quote:
  "valid_utf8 s \<Longrightarrow> read_string (quote_body s @ quote_mark # rest) = Some (s, rest)"
  by (simp add: read_string_def unquote_quote_body)

subsection \<open>Numbers\<close>

definition num_end :: "string \<Rightarrow> bool" where
  "num_end s \<longleftrightarrow> (case s of [] \<Rightarrow> True | c # _ \<Rightarrow> \<not> is_digit c \<and> c \<noteq> CHR ''.'' \<and> c \<noteq> CHR ''e'' \<and> c \<noteq> CHR ''E'')"

lemma nat_text_hd_nonzero: "0 < n \<Longrightarrow> hd (nat_text n) \<noteq> CHR ''0''"
proof (induction n rule: nat_text.induct)
  case (1 n)
  show ?case
  proof (cases "n < 10")
    case True
    have "digit n \<noteq> CHR ''0''"
    proof
      assume "digit n = CHR ''0''"
      then have "byte (digit n) = 48" by simp
      then show False using True 1 by simp
    qed
    then show ?thesis using True by (simp add: nat_text.simps [of n])
  next
    case False
    then have "hd (nat_text (n div 10)) \<noteq> CHR ''0''" using 1 by simp
    then show ?thesis using False by (simp add: nat_text.simps [of n])
  qed
qed

lemma scan_int_nat_text:
  assumes "num_end rest"
  shows "scan_int (nat_text n @ rest) = Some (nat_text n, rest)"
proof -
  have nd: "takeWhile is_digit rest = []" "dropWhile is_digit rest = rest"
    using assms by (cases rest; simp add: num_end_def)+
  have ds: "\<forall>c \<in> set (nat_text n). is_digit c" using nat_text_digits by blast
  have tw: "takeWhile is_digit (nat_text n @ rest) = nat_text n"
    "dropWhile is_digit (nat_text n @ rest) = rest"
    using ds nd by (simp_all add: takeWhile_append2 dropWhile_append2)
  show ?thesis
  proof (cases "n = 0")
    case True
    have "digit 0 = CHR ''0''" by (rule byte_inj) simp
    then have "nat_text 0 = ''0''" by (simp add: nat_text.simps [of 0])
    then show ?thesis using True by (simp add: scan_int_def)
  next
    case False
    then obtain c cs where c: "nat_text n = c # cs" "c \<noteq> CHR ''0''"
      using nat_text_hd_nonzero [of n] nat_text_nonempty [of n] by (cases "nat_text n") auto
    then have "scan_int (nat_text n @ rest) = scan_digits (nat_text n @ rest)"
      by (simp add: scan_int_def)
    then show ?thesis using tw by (simp add: scan_digits_def)
  qed
qed

lemma scan_tail_end: "num_end rest \<Longrightarrow> scan_frac rest = Some ([], rest) \<and> scan_exp rest = Some ([], rest)"
  by (cases rest) (auto simp: num_end_def scan_frac_def scan_exp_def)

lemma scan_number_itoa:
  assumes "num_end rest"
  shows "scan_number (itoa i @ rest) = Some (itoa i, rest)"
proof -
  have sc: "scan_int (nat_text n @ rest) = Some (nat_text n, rest)" for n
    using assms by (rule scan_int_nat_text)
  have t: "scan_frac rest = Some ([], rest)" "scan_exp rest = Some ([], rest)"
    using scan_tail_end [OF assms] by auto
  obtain c cs where c: "nat_text (nat i) = c # cs" "is_digit c" using nat_text_hd by blast
  then have "c \<noteq> CHR ''-''" by (auto simp: is_digit_def)
  then show ?thesis using sc [of "nat i"] sc [of "nat (- i)"] t c
    by (simp add: scan_number_def itoa_def)
qed

lemma itoa_hd: "\<exists>c cs. itoa i = c # cs \<and> (is_digit c \<or> c = CHR ''-'')"
  using nat_text_hd [of "nat i"] by (auto simp: itoa_def)

subsection \<open>Documents\<close>

fun wf_json :: "json \<Rightarrow> bool" where
  "wf_json JNull = True"
| "wf_json (JBool b) = True"
| "wf_json (JNum l) = (\<exists>i. l = itoa i)"
| "wf_json (JStr s) = valid_utf8 s"
| "wf_json (JArr vs) = list_all wf_json vs"
| "wf_json (JObj ms) = list_all (\<lambda>m. valid_utf8 (fst m) \<and> wf_json (snd m)) ms"

fun list_fuel :: "('a \<Rightarrow> nat) \<Rightarrow> 'a list \<Rightarrow> nat" where
  "list_fuel f [] = 0"
| "list_fuel f (x # xs) = Suc (max (f x) (list_fuel f xs))"

lemma list_fuel_cong [fundef_cong]:
  "xs = ys \<Longrightarrow> (\<And>x. x \<in> set ys \<Longrightarrow> f x = g x) \<Longrightarrow> list_fuel f xs = list_fuel g ys"
  by (induction xs arbitrary: ys) auto

fun json_fuel :: "json \<Rightarrow> nat" where
  "json_fuel (JArr vs) = Suc (list_fuel json_fuel vs)"
| "json_fuel (JObj ms) = Suc (list_fuel (\<lambda>m. json_fuel (snd m)) ms)"
| "json_fuel _ = 1"

lemma skip_ws_id: "\<not> is_ws c \<Longrightarrow> skip_ws (c # cs) = c # cs"
  by (simp add: skip_ws_def)

lemma json_text_hd:
  assumes "wf_json v"
  shows "\<exists>c cs. json_text v = c # cs \<and> \<not> is_ws c \<and> c \<noteq> CHR '']'' \<and> c \<noteq> CHR ''}''"
proof (cases v)
  case (JNum l)
  then obtain i where l: "l = itoa i" using assms by auto
  obtain c cs where "nat_text (nat i) = c # cs" "is_digit c" using nat_text_hd by blast
  then show ?thesis using l JNum by (auto simp: itoa_def is_ws_def is_digit_def)
qed (auto simp: quote_def quote_mark_def is_ws_def)

lemma read_elems_text:
  assumes "\<And>v f rest. v \<in> set vs \<Longrightarrow> json_fuel v \<le> f \<Longrightarrow> num_end rest
      \<Longrightarrow> read_value f (json_text v @ rest) = Some (v, rest)"
    and "vs \<noteq> []" and "list_fuel json_fuel vs \<le> f"
  shows "read_elems f (join_comma (map json_text vs) @ CHR '']'' # rest) = Some (vs, rest)"
  using assms
proof (induction vs arbitrary: f)
  case (Cons v vs)
  obtain g where f: "f = Suc g" using Cons.prems by (cases f) auto
  have v: "read_value g (json_text v @ r) = Some (v, r)" if "num_end r" for r
    using Cons.prems f that by simp
  show ?case
  proof (cases vs)
    case Nil
    then show ?thesis using v [of "CHR '']'' # rest"] f by (simp add: num_end_def skip_ws_id is_ws_def is_digit_def)
  next
    case (Cons w ws)
    have "read_elems g (join_comma (map json_text vs) @ CHR '']'' # rest) = Some (vs, rest)"
      using Cons.IH Cons.prems f \<open>vs = w # ws\<close> by simp
    then show ?thesis
      using v f Cons by (simp add: num_end_def skip_ws_id is_ws_def is_digit_def)
  qed
qed simp

abbreviation member_text :: "string \<times> json \<Rightarrow> string" where
  "member_text m \<equiv> quote (fst m) @ CHR '':'' # json_text (snd m)"

lemma read_members_text:
  assumes "\<And>m f rest. m \<in> set ms \<Longrightarrow> json_fuel (snd m) \<le> f \<Longrightarrow> num_end rest
      \<Longrightarrow> read_value f (json_text (snd m) @ rest) = Some (snd m, rest)"
    and "list_all (\<lambda>m. valid_utf8 (fst m)) ms"
    and "ms \<noteq> []" and "list_fuel (\<lambda>m. json_fuel (snd m)) ms \<le> f"
  shows "read_members f (join_comma (map member_text ms) @ CHR ''}'' # rest) = Some (ms, rest)"
  using assms
proof (induction ms arbitrary: f)
  case (Cons m ms)
  obtain g where f: "f = Suc g" using Cons.prems by (cases f) auto
  have v: "read_value g (json_text (snd m) @ r) = Some (snd m, r)" if "num_end r" for r
    using Cons.prems f that by simp
  have k: "read_string (quote_body (fst m) @ quote_mark # r) = Some (fst m, r)" for r
    using Cons.prems by (simp add: read_string_quote)
  have q: "skip_ws (quote_mark # r) = quote_mark # r" for r
    by (simp add: skip_ws_id is_ws_def quote_mark_def)
  show ?case
  proof (cases ms)
    case Nil
    then show ?thesis using v [of "CHR ''}'' # rest"] k f q
      by (simp add: quote_def num_end_def skip_ws_id is_ws_def is_digit_def)
  next
    case (Cons w ws)
    have "read_members g (join_comma (map member_text ms) @ CHR ''}'' # rest) = Some (ms, rest)"
      using Cons.IH Cons.prems f \<open>ms = w # ws\<close> by simp
    then show ?thesis
      using v k f q Cons by (simp add: quote_def num_end_def skip_ws_id is_ws_def is_digit_def)
  qed
qed simp

lemma read_value_text:
  "wf_json v \<Longrightarrow> json_fuel v \<le> f \<Longrightarrow> num_end rest
    \<Longrightarrow> read_value f (json_text v @ rest) = Some (v, rest)"
proof (induction v arbitrary: f rest)
  case (JNum l)
  then obtain i g where i: "l = itoa i" and f: "f = Suc g" by (cases f) auto
  obtain c cs where c: "itoa i = c # cs" "is_digit c \<or> c = CHR ''-''"
    using itoa_hd by blast
  then have "\<not> is_ws c" "c \<noteq> quote_mark" "c \<noteq> CHR ''{''" "c \<noteq> CHR ''[''" "c \<noteq> CHR ''t''"
    "c \<noteq> CHR ''f''" "c \<noteq> CHR ''n''"
    by (auto simp: is_ws_def is_digit_def quote_mark_def)
  moreover have "scan_number ((c # cs) @ rest) = Some (c # cs, rest)"
    using scan_number_itoa [OF JNum.prems(3), of i] c by simp
  ultimately show ?case using i f c by (simp add: skip_ws_id)
next
  case (JArr vs)
  then obtain g where f: "f = Suc g" by (cases f) auto
  show ?case
  proof (cases vs)
    case Nil
    then show ?thesis using f by (simp add: skip_ws_id is_ws_def quote_mark_def)
  next
    case (Cons w ws)
    obtain c cs where c: "json_text w = c # cs" "\<not> is_ws c" "c \<noteq> CHR '']''"
      using json_text_hd [of w] JArr.prems Cons by auto
    obtain ds where ds: "join_comma (map json_text vs) @ '']'' @ rest = c # ds"
      using Cons c by (cases ws) auto
    have "read_elems g (join_comma (map json_text vs) @ CHR '']'' # rest) = Some (vs, rest)"
      using JArr.IH JArr.prems Cons f by (intro read_elems_text) (auto simp: list_all_iff)
    then show ?thesis using f c ds by (simp add: skip_ws_id is_ws_def quote_mark_def)
  qed
next
  case (JObj ms)
  then obtain g where f: "f = Suc g" by (cases f) auto
  show ?case
  proof (cases ms)
    case Nil
    then show ?thesis using f by (simp add: skip_ws_id is_ws_def quote_mark_def)
  next
    case (Cons w ws)
    obtain ds where ds: "join_comma (map member_text ms) @ ''}'' @ rest = quote_mark # ds"
      using Cons by (cases ws) (auto simp: quote_def)
    have "read_value h (json_text (snd m) @ r) = Some (snd m, r)"
      if "m \<in> set ms" "json_fuel (snd m) \<le> h" "num_end r" for m h r
      using JObj.IH [of m "snd m" h r] JObj.prems(1) that
      by (cases m) (auto simp: list_all_iff snds.simps)
    then have "read_members g (join_comma (map member_text ms) @ CHR ''}'' # rest) = Some (ms, rest)"
      using JObj.prems Cons f by (intro read_members_text) (auto simp: list_all_iff)
    then show ?thesis using f ds by (simp add: skip_ws_id is_ws_def quote_mark_def)
  qed
next
  case (JStr s)
  then obtain g where f: "f = Suc g" by (cases f) auto
  have "skip_ws (quote_mark # r) = quote_mark # r" for r
    by (simp add: skip_ws_id is_ws_def quote_mark_def)
  then show ?case using JStr.prems f by (simp add: quote_def read_string_quote)
qed (auto simp: skip_ws_id is_ws_def quote_mark_def literal_def
       elim: le_SucE dest!: Suc_le_D)


lemma join_comma_fuel:
  assumes "\<And>x. x \<in> set xs \<Longrightarrow> h x < 2 * length (t x)"
  shows "list_fuel h xs \<le> 2 * length (join_comma (map t xs))"
  using assms
proof (induction xs)
  case (Cons x xs)
  then have "list_fuel h xs \<le> 2 * length (join_comma (map t xs))" by simp
  moreover have "h x < 2 * length (t x)" using Cons.prems by simp
  ultimately show ?case by (cases xs) auto
qed simp

lemma json_fuel_text: "wf_json v \<Longrightarrow> json_fuel v < 2 * length (json_text v)"
proof (induction v)
  case (JNum l)
  then obtain i where "l = itoa i" by auto
  then show ?case using itoa_hd [of i] by auto
next
  case (JArr vs)
  then have "list_fuel json_fuel vs \<le> 2 * length (join_comma (map json_text vs))"
    by (intro join_comma_fuel) (auto simp: list_all_iff)
  then show ?case by simp
next
  case (JObj ms)
  have "list_fuel (\<lambda>m. json_fuel (snd m)) ms \<le> 2 * length (join_comma (map member_text ms))"
  proof (rule join_comma_fuel)
    fix m assume "m \<in> set ms"
    then show "json_fuel (snd m) < 2 * length (member_text m)"
      using JObj.IH [of m "snd m"] JObj.prems by (cases m) (auto simp: list_all_iff snds.simps)
  qed
  then show ?case by simp
qed (auto simp: quote_def)

lemma json_next_text: "wf_json v \<Longrightarrow> num_end rest \<Longrightarrow> json_next (json_text v @ rest) = Some (v, rest)"
  unfolding json_next_def using json_fuel_text [of v] by (intro read_value_text) auto

lemma json_parse_text: "wf_json v \<Longrightarrow> json_parse (json_text v) = Some v"
  using json_next_text [of v "[]"] by (simp add: json_parse_def num_end_def skip_ws_def)

text \<open>Different well-formed documents have different texts.\<close>

lemma json_text_inj: "wf_json v \<Longrightarrow> wf_json w \<Longrightarrow> json_text v = json_text w \<Longrightarrow> v = w"
  by (metis json_parse_text option.inject)

section \<open>Decoding into fields\<close>

text \<open>\<open>json.Unmarshal\<close> of one member into a string or an \<open>int64\<close> field: null leaves the field as it is, a
  value of another type fails.\<close>

definition set_string :: "json \<Rightarrow> (string \<Rightarrow> 'r \<Rightarrow> 'r) \<Rightarrow> 'r \<Rightarrow> 'r option" where
  "set_string v upd r = (case v of JStr s \<Rightarrow> Some (upd s r) | JNull \<Rightarrow> Some r | _ \<Rightarrow> None)"

definition set_int64 :: "json \<Rightarrow> (int \<Rightarrow> 'r \<Rightarrow> 'r) \<Rightarrow> 'r \<Rightarrow> 'r option" where
  "set_int64 v upd r =
     (case v of JNum l \<Rightarrow> map_option (\<lambda>i. upd i r) (Atoi l) | JNull \<Rightarrow> Some r | _ \<Rightarrow> None)"

end
