(* ===== verification/Http.thy ===== *)
theory Http
  imports Database Go_Json "HOL-Library.AList"
begin

text \<open>
  Requests and responses of \<open>net/http\<close> as the handlers of this program see them. A request carries its
  parsed query, cookies and headers; a response writer is the response written so far. A handler takes
  both and the state, and returns the response and the state it leaves.
\<close>

record request =
  rq_Method :: string
  rq_Path :: string
  rq_Query :: "(string \<times> string) list"
  rq_Cookies :: "(string \<times> string) list"
  rq_Header :: "(string \<times> string) list"
  rq_Body :: string
  rq_Context :: Context

datatype SameSite = SameSiteDefaultMode | SameSiteLaxMode | SameSiteStrictMode | SameSiteNoneMode

record cookie =
  ck_Name :: string
  ck_Value :: string
  ck_Path :: string
  ck_HttpOnly :: bool
  ck_Secure :: bool
  ck_SameSite :: SameSite
  ck_Expires :: "gotime option"
  ck_MaxAge :: int

datatype body = NoBody | Text string | Json json

record response =
  rs_Status :: nat
  rs_Header :: "(string \<times> string) list"
  rs_Cookies :: "cookie list"
  rs_Body :: body

definition empty_response :: response where
  "empty_response = \<lparr>rs_Status = 200, rs_Header = [], rs_Cookies = [], rs_Body = NoBody\<rparr>"

type_synonym handler = "request \<Rightarrow> response \<Rightarrow> world \<Rightarrow> response \<times> world"

section \<open>Reading a request\<close>

text \<open>The first value under a name: \<open>url.Values.Get\<close> and \<open>Header.Get\<close> give the empty string when there is
  none, \<open>Request.Cookie\<close> gives an error.\<close>

definition get_first :: "(string \<times> string) list \<Rightarrow> string \<Rightarrow> string" where
  "get_first kvs name = (case map_of kvs name of None \<Rightarrow> [] | Some v \<Rightarrow> v)"

definition get_cookie :: "request \<Rightarrow> string \<Rightarrow> string option" where
  "get_cookie r name = map_of (rq_Cookies r) name"

section \<open>Writing a response\<close>

definition set_header :: "string \<Rightarrow> string \<Rightarrow> response \<Rightarrow> response" where
  "set_header k v rs = rs\<lparr>rs_Header := AList.update k v (rs_Header rs)\<rparr>"

definition SetCookie :: "cookie \<Rightarrow> response \<Rightarrow> response" where
  "SetCookie c rs = rs\<lparr>rs_Cookies := rs_Cookies rs @ [c]\<rparr>"

definition http_Error :: "string \<Rightarrow> nat \<Rightarrow> response \<Rightarrow> response" where
  "http_Error msg status rs =
     (set_header ''X-Content-Type-Options'' ''nosniff''
       (set_header ''Content-Type'' ''text/plain; charset=utf-8'' rs))
     \<lparr>rs_Status := status, rs_Body := Text (msg @ [CHR 0x0A])\<rparr>"

text \<open>\<open>http.Redirect\<close>, with the target it is given.\<close>

definition Redirect :: "string \<Rightarrow> nat \<Rightarrow> response \<Rightarrow> response" where
  "Redirect target status rs = (set_header ''Location'' target rs)\<lparr>rs_Status := status\<rparr>"

definition header :: "response \<Rightarrow> string \<Rightarrow> string option" where
  "header rs k = map_of (rs_Header rs) k"

lemma header_set_header [simp]: "header (set_header k v rs) k' = (if k' = k then Some v else header rs k')"
  by (simp add: header_def set_header_def update_conv')

lemma set_header_simps [simp]:
  "rs_Status (set_header k v rs) = rs_Status rs" "rs_Cookies (set_header k v rs) = rs_Cookies rs"
  "rs_Body (set_header k v rs) = rs_Body rs"
  by (simp_all add: set_header_def)

lemma header_update_simps [simp]:
  "header (rs\<lparr>rs_Status := n\<rparr>) k = header rs k" "header (rs\<lparr>rs_Body := b\<rparr>) k = header rs k"
  "header (rs\<lparr>rs_Cookies := cs\<rparr>) k = header rs k"
  by (simp_all add: header_def)

lemma SetCookie_simps [simp]:
  "rs_Status (SetCookie c rs) = rs_Status rs" "rs_Cookies (SetCookie c rs) = rs_Cookies rs @ [c]"
  "header (SetCookie c rs) k = header rs k"
  by (simp_all add: SetCookie_def header_def)

lemma http_Error_simps [simp]:
  "rs_Status (http_Error m n rs) = n" "rs_Cookies (http_Error m n rs) = rs_Cookies rs"
  by (simp_all add: http_Error_def)

lemma Redirect_simps [simp]:
  "rs_Status (Redirect t n rs) = n" "rs_Cookies (Redirect t n rs) = rs_Cookies rs"
  "header (Redirect t n rs) ''Location'' = Some t"
  by (simp_all add: Redirect_def)

text \<open>A handler that keeps a relation on states, whatever it answers.\<close>

definition handler_keeps :: "(world \<Rightarrow> world \<Rightarrow> bool) \<Rightarrow> handler \<Rightarrow> bool" where
  "handler_keeps R h \<longleftrightarrow> (\<forall>r rs w. R w (snd (h r rs w)))"

lemma tryE_keeps:
  assumes "transp R" and "keeps R m" and "\<And>x w. R w (snd (k x w))"
  shows "R w (snd (tryE m k w))"
proof -
  obtain x w' where "m w = (x, w')" by fastforce
  then show ?thesis
    using transpD [OF assms(1) keepsD [OF assms(2)] assms(3)] by (simp add: tryE_def)
qed

end
