(* ===== verification/Application.thy ===== *)
theory Application
  imports Identity_Domain Go_Json "HOL-Library.Multiset"
begin

text \<open>
  \<open>internal/identity/application/organization.go\<close> and \<open>site.go\<close>: the commands, their results and
  the two services. A service holds an interface value that may be nil; here the optional operation
  behind it. What the organization service relies on is the locale \<open>organization_store\<close>, what the
  site service relies on the locale \<open>site_source\<close>.
\<close>

section \<open>Commands and results\<close>

record CreateOrganization =
  cmd_Name :: string

record CreateOrganizationResult =
  res_ID :: string
  res_Name :: string
  res_SourceOfTruth :: string
  res_Version :: int

definition command_json :: "CreateOrganization \<Rightarrow> json" where
  "command_json c = JObj [(''name'', JStr (cmd_Name c))]"

definition result_json :: "CreateOrganizationResult \<Rightarrow> json" where
  "result_json r = JObj [(''id'', JStr (res_ID r)), (''name'', JStr (res_Name r)),
     (''source_of_truth'', JStr (res_SourceOfTruth r)), (''version'', JNum (itoa (res_Version r)))]"

definition zero_result :: CreateOrganizationResult where
  "zero_result = \<lparr>res_ID = [], res_Name = [], res_SourceOfTruth = [], res_Version = 0\<rparr>"

text \<open>
  \<open>json.Unmarshal\<close> into a result: the members are stored one after the other, null leaves a field as
  it is, a value of the wrong type makes the call fail (\<open>None\<close>), unknown members are skipped.
\<close>

definition result_member :: "string \<times> json \<Rightarrow> CreateOrganizationResult option \<Rightarrow> CreateOrganizationResult option" where
  "result_member m acc =
     (case acc of
        None \<Rightarrow> None
      | Some r \<Rightarrow>
          if key_matches ''id'' (fst m) then set_string (snd m) (\<lambda>s. res_ID_update (\<lambda>_. s)) r
          else if key_matches ''name'' (fst m) then set_string (snd m) (\<lambda>s. res_Name_update (\<lambda>_. s)) r
          else if key_matches ''source_of_truth'' (fst m)
            then set_string (snd m) (\<lambda>s. res_SourceOfTruth_update (\<lambda>_. s)) r
          else if key_matches ''version'' (fst m) then set_int64 (snd m) (\<lambda>i. res_Version_update (\<lambda>_. i)) r
          else Some r)"

definition decode_result :: "json \<Rightarrow> CreateOrganizationResult option" where
  "decode_result v =
     (case v of
        JObj ms \<Rightarrow> fold result_member ms (Some zero_result)
      | JNull \<Rightarrow> Some zero_result
      | _ \<Rightarrow> None)"

definition unmarshal_result :: "string \<Rightarrow> CreateOrganizationResult option" where
  "unmarshal_result s = (case json_parse s of None \<Rightarrow> None | Some v \<Rightarrow> decode_result v)"

text \<open>Into a command, with \<open>DisallowUnknownFields\<close>: an unknown member fails.\<close>

definition command_member :: "string \<times> json \<Rightarrow> CreateOrganization option \<Rightarrow> CreateOrganization option" where
  "command_member m acc =
     (case acc of
        None \<Rightarrow> None
      | Some c \<Rightarrow>
          if key_matches ''name'' (fst m) then set_string (snd m) (\<lambda>s. cmd_Name_update (\<lambda>_. s)) c
          else None)"

definition decode_command :: "json \<Rightarrow> CreateOrganization option" where
  "decode_command v =
     (case v of
        JObj ms \<Rightarrow> fold command_member ms (Some \<lparr>cmd_Name = []\<rparr>)
      | JNull \<Rightarrow> Some \<lparr>cmd_Name = []\<rparr>
      | _ \<Rightarrow> None)"

record Site =
  site_ID :: string
  site_OrganizationID :: string
  site_Code :: string
  site_Name :: string
  site_Timezone :: string
  site_Status :: string

definition site_json :: "Site \<Rightarrow> json" where
  "site_json s = JObj [(''id'', JStr (site_ID s)), (''organization_id'', JStr (site_OrganizationID s)),
     (''code'', JStr (site_Code s)), (''name'', JStr (site_Name s)),
     (''timezone'', JStr (site_Timezone s)), (''status'', JStr (site_Status s))]"

section \<open>Services\<close>

type_synonym 'w create_op =
  "Principal \<Rightarrow> string \<Rightarrow> CreateOrganization \<Rightarrow> ('w, goerr, CreateOrganizationResult \<times> bool) act"

definition OrganizationService_Create :: "'w create_op option \<Rightarrow> 'w create_op" where
  "OrganizationService_Create Store prin idempotencyKey command =
     (if \<not> Has prin PermissionOrganizationCreate then failE ErrPermissionDenied
      else
        let idempotencyKey = TrimSpace idempotencyKey in
        if length idempotencyKey < 8 \<or> length idempotencyKey > 200 then failE ErrIdempotencyKey
        else if TrimSpace (cmd_Name command) = [] then failE ErrInvalidOrganization
        else case Store of
          None \<Rightarrow> failE (Errorf ''organization store is required'')
        | Some create \<Rightarrow> create prin idempotencyKey command)"

type_synonym 'w site_op = "Principal \<Rightarrow> string \<Rightarrow> ('w, goerr, Site) act"

definition SiteService_Get :: "'w site_op option \<Rightarrow> 'w site_op" where
  "SiteService_Get Reader prin siteID =
     (case Reader of
        None \<Rightarrow> failE ErrSiteNotFound
      | Some get \<Rightarrow> if prin_OrganizationID prin = [] then failE ErrSiteNotFound else get prin siteID)"

section \<open>Decoding what was encoded\<close>

lemma key_matches_table:
  "key_matches ''id'' ''id''" "\<not> key_matches ''id'' ''name''"
  "\<not> key_matches ''id'' ''source_of_truth''" "\<not> key_matches ''id'' ''version''"
  "key_matches ''name'' ''name''" "\<not> key_matches ''name'' ''source_of_truth''"
  "\<not> key_matches ''name'' ''version''" "key_matches ''source_of_truth'' ''source_of_truth''"
  "\<not> key_matches ''source_of_truth'' ''version''" "key_matches ''version'' ''version''"
  by (simp_all add: key_matches_def EqualFold_def fold_rune_def runes_ascii del: runes.simps)

text \<open>An object member that reaches a document in another place decodes to the same result: the four
  members of a result write different fields.\<close>

lemma result_member_Some:
  "result_member (''id'', JStr s) (Some r) = Some (r\<lparr>res_ID := s\<rparr>)"
  "result_member (''name'', JStr s) (Some r) = Some (r\<lparr>res_Name := s\<rparr>)"
  "result_member (''source_of_truth'', JStr s) (Some r) = Some (r\<lparr>res_SourceOfTruth := s\<rparr>)"
  "int64_range i \<Longrightarrow> result_member (''version'', JNum (itoa i)) (Some r) = Some (r\<lparr>res_Version := i\<rparr>)"
  "result_member m None = None"
  by (simp_all add: result_member_def key_matches_table set_string_def set_int64_def Atoi_itoa)

lemma result_member_commute:
  assumes "int64_range (res_Version r)" and "result_json r = JObj ms"
    and "m \<in> set ms" and "m' \<in> set ms"
  shows "result_member m \<circ> result_member m' = result_member m' \<circ> result_member m"
proof
  fix acc
  show "(result_member m \<circ> result_member m') acc = (result_member m' \<circ> result_member m) acc"
    using assms by (cases acc) (auto simp: result_json_def result_member_Some)
qed

lemma decode_result_json: "int64_range (res_Version r) \<Longrightarrow> decode_result (result_json r) = Some r"
  by (simp add: decode_result_def result_json_def result_member_Some zero_result_def)

lemma decode_result_perm:
  assumes "int64_range (res_Version r)" and "result_json r = JObj ms" and "mset ms' = mset ms"
  shows "decode_result (JObj ms') = Some r"
proof -
  have "fold result_member ms = fold result_member ms'"
    by (rule fold_multiset_equiv) (simp_all only: result_member_commute [OF assms(1,2)] assms(3))
  then show ?thesis
    using decode_result_json [OF assms(1)] assms(2) by (simp add: decode_result_def)
qed

lemma wf_result_json:
  "valid_utf8 (res_ID r) \<Longrightarrow> valid_utf8 (res_Name r) \<Longrightarrow> valid_utf8 (res_SourceOfTruth r)
    \<Longrightarrow> wf_json (result_json r)"
  by (auto simp: result_json_def ascii_valid_utf8)

lemma wf_command_json: "valid_utf8 (cmd_Name c) \<Longrightarrow> wf_json (command_json c)"
  by (simp add: command_json_def ascii_valid_utf8)

text \<open>Different names, different request texts.\<close>

lemma command_text_inj:
  assumes "valid_utf8 (cmd_Name c)" and "valid_utf8 (cmd_Name c')"
    and "json_text (command_json c) = json_text (command_json c')"
  shows "cmd_Name c = cmd_Name c'"
  using json_text_inj [OF wf_command_json wf_command_json, OF assms] by (simp add: command_json_def)

section \<open>The organization service over its store\<close>

text \<open>
  The promises of an \<open>AtomicOrganizationStore\<close>: after a create that returned, the same request under
  the same key returns the same result as a replay, a request with another digest is refused, and in
  neither case does anything change (\<open>same\<close>).
\<close>

locale organization_store =
  fixes create :: "'w create_op"
    and digest :: "CreateOrganization \<Rightarrow> 'h"
    and ok :: "'w \<Rightarrow> bool"
    and up :: "'w \<Rightarrow> bool"
    and same :: "'w \<Rightarrow> 'w \<Rightarrow> bool"
  assumes replays: "ok w \<Longrightarrow> create prin key c w = (Inr (r, b), w') \<Longrightarrow> up w' \<Longrightarrow> digest c' = digest c \<Longrightarrow>
      \<exists>w''. create prin key c' w' = (Inr (r, True), w'') \<and> same w' w''"
    and conflicts: "ok w \<Longrightarrow> create prin key c w = (Inr (r, b), w') \<Longrightarrow> up w' \<Longrightarrow> digest c' \<noteq> digest c \<Longrightarrow>
      \<exists>w''. create prin key c' w' = (Inl ErrKeyConflict, w'') \<and> same w' w''"
    and ok_kept: "ok w \<Longrightarrow> create prin key c w = (x, w') \<Longrightarrow> ok w'"
begin

lemma service_delegates:
  assumes "OrganizationService_Create (Some create) prin key c w = (Inr x, w')"
  shows "create prin (TrimSpace key) c w = (Inr x, w') \<and> Has prin PermissionOrganizationCreate
     \<and> 8 \<le> length (TrimSpace key) \<and> length (TrimSpace key) \<le> 200 \<and> TrimSpace (cmd_Name c) \<noteq> []"
  using assms by (auto simp: OrganizationService_Create_def Let_def split: if_splits)

lemma service_replays:
  assumes "ok w" and "OrganizationService_Create (Some create) prin key c w = (Inr (r, b), w')"
    and "up w'" and "TrimSpace key' = TrimSpace key"
  shows "\<exists>w''. OrganizationService_Create (Some create) prin key' c w' = (Inr (r, True), w'')
           \<and> same w' w''"
  using service_delegates [OF assms(2)] replays [OF assms(1) _ assms(3) refl] assms(4)
  by (auto simp: OrganizationService_Create_def Let_def)

lemma service_conflicts:
  assumes "ok w" and "OrganizationService_Create (Some create) prin key c w = (Inr (r, b), w')"
    and "up w'" and "TrimSpace key' = TrimSpace key" and "digest c' \<noteq> digest c"
    and "TrimSpace (cmd_Name c') \<noteq> []"
  shows "\<exists>w''. OrganizationService_Create (Some create) prin key' c' w' = (Inl ErrKeyConflict, w'')
           \<and> same w' w''"
  using service_delegates [OF assms(2)] conflicts [OF assms(1) _ assms(3) assms(5)] assms(4,6)
  by (auto simp: OrganizationService_Create_def Let_def)

end

section \<open>The site service over its reader\<close>

text \<open>The promise of a \<open>SiteReader\<close>: it returns only sites the principal may access, and reads only.\<close>

locale site_source =
  fixes get :: "'w site_op"
    and same :: "'w \<Rightarrow> 'w \<Rightarrow> bool"
  assumes get_authorized: "get prin siteID w = (Inr s, w') \<Longrightarrow>
      CanAccessSite prin (site_OrganizationID s) (site_ID s)"
    and get_reads: "get prin siteID w = (r, w') \<Longrightarrow> same w w'"
    and same_refl: "same w w"
begin

lemma service_authorized:
  assumes "SiteService_Get (Some get) prin siteID w = (Inr s, w')"
  shows "CanAccessSite prin (site_OrganizationID s) (site_ID s) \<and> prin_OrganizationID prin \<noteq> []"
  using assms get_authorized by (auto simp: SiteService_Get_def split: if_splits)

lemma service_reads:
  assumes "SiteService_Get (Some get) prin siteID w = (r, w')"
  shows "same w w'"
  using assms get_reads same_refl by (auto simp: SiteService_Get_def split: if_splits)

end

end
