(* ===== verification/Http_Server.thy ===== *)
theory Http_Server
  imports Http Application
begin

text \<open>
  \<open>internal/platform/httpserver\<close> (\<open>router.go\<close>, \<open>problem.go\<close>) and \<open>internal/platform/buildinfo\<close>: the routes,
  the handlers of the API, the problem documents and the security headers. The authenticator is an
  interface of four operations, fields of \<open>Dependencies\<close>; what the router relies on is the locale
  \<open>authenticator\<close>. The router library (\<open>chi\<close>) is the record \<open>chi\<close>; the
  access log and the request identifier have no effect on a response and are left out. \<open>uuid.Parse\<close> is
  the argument \<open>dp_ParseUUID\<close>.
\<close>

section \<open>Documents\<close>

record Problem =
  pb_Type :: string
  pb_Title :: string
  pb_Status :: nat
  pb_Detail :: string

definition problem_json :: "Problem \<Rightarrow> json" where
  "problem_json p = JObj ([(''type'', JStr (pb_Type p)), (''title'', JStr (pb_Title p)),
     (''status'', JNum (nat_text (pb_Status p)))]
     @ (if pb_Detail p = [] then [] else [(''detail'', JStr (pb_Detail p))]))"

definition writeProblem :: "nat \<Rightarrow> string \<Rightarrow> string \<Rightarrow> response \<Rightarrow> response" where
  "writeProblem status title detail rs =
     (set_header ''Content-Type'' ''application/problem+json'' rs)
     \<lparr>rs_Status := status,
      rs_Body := Json (problem_json \<lparr>pb_Type = ''about:blank'', pb_Title = title, pb_Status = status,
                                     pb_Detail = detail\<rparr>)\<rparr>"

definition writeJSON :: "nat \<Rightarrow> json \<Rightarrow> response \<Rightarrow> response" where
  "writeJSON status value rs =
     (set_header ''Content-Type'' ''application/json'' rs)\<lparr>rs_Status := status, rs_Body := Json value\<rparr>"

text \<open>\<open>err.Error()\<close>.\<close>

fun error_text :: "goerr \<Rightarrow> string" where
  "error_text ErrPermissionDenied = ''permission denied''"
| "error_text ErrIdempotencyKey = ''idempotency key must contain 8 to 200 characters''"
| "error_text ErrInvalidOrganization = ''organization name is required''"
| "error_text ErrSiteNotFound = ''site not found''"
| "error_text ErrKeyConflict = ''idempotency key was already used with a different request''"
| "error_text ErrInProgress = ''idempotent operation is still processing''"
| "error_text ErrNoRows = ''no rows in result set''"
| "error_text ErrEOF = ''EOF''"
| "error_text ErrCanceled = ''context canceled''"
| "error_text DriverError = ''driver error''"
| "error_text (PgError code) = code"
| "error_text (Errorf m) = m"
| "error_text (Wrap m e) = m @ '': '' @ error_text e"
| "error_text (Join es) = concat (map (\<lambda>e. error_text e @ [CHR 0x0A]) es)"

record Info =
  bi_Version :: string
  bi_Commit :: string
  bi_BuiltAt :: string

definition Current :: Info where
  "Current = \<lparr>bi_Version = ''dev'', bi_Commit = ''unknown'', bi_BuiltAt = ''unknown''\<rparr>"

definition info_json :: "Info \<Rightarrow> json" where
  "info_json i = JObj [(''version'', JStr (bi_Version i)), (''commit'', JStr (bi_Commit i)),
     (''built_at'', JStr (bi_BuiltAt i))]"

section \<open>Handlers\<close>

record Dependencies =
  dp_Database :: bool
  dp_Begin :: handler
  dp_Callback :: handler
  dp_Logout :: handler
  dp_Middleware :: "handler \<Rightarrow> handler"
  dp_Organizations :: "world create_op option"
  dp_Sites :: "world site_op option"
  dp_ParseUUID :: "string \<Rightarrow> bool"

definition live :: handler where
  "live r rs w = (writeJSON 200 (JObj [(''build'', info_json Current), (''status'', JStr ''live'')]) rs, w)"

definition ping :: "unit sql" where
  "ping = (\<lambda>d. Inr ((), d))"

definition readiness :: "env \<Rightarrow> bool \<Rightarrow> handler" where
  "readiness E pool r rs w =
     (let unavailable = (\<lambda>w. (writeProblem 503 ''Not Ready'' ''database is unavailable'' rs, w)) in
      if \<not> pool then unavailable w
      else tryE (call E ping) (\<lambda>x w. case x of
        Inl err \<Rightarrow> unavailable w
      | Inr _ \<Rightarrow> (writeJSON 200 (JObj [(''status'', JStr ''ready'')]) rs, w)) w)"

text \<open>A nil slice is encoded as null.\<close>

definition strings_json :: "string list \<Rightarrow> json" where
  "strings_json ss = (if ss = [] then JNull else JArr (map JStr ss))"

definition currentPrincipal :: handler where
  "currentPrincipal r rs w =
     (case PrincipalFromContext (rq_Context r) of (prin, ok) \<Rightarrow>
        if \<not> ok then (writeProblem 401 ''Unauthorized'' ''principal is missing'' rs, w)
        else
          (writeJSON 200 (JObj
             [(''display_name'', JStr (prin_DisplayName prin)),
              (''external_subject'', JStr (prin_ExternalSubject prin)),
              (''id'', JStr (prin_ID prin)),
              (''organization_id'', JStr (prin_OrganizationID prin)),
              (''permissions'', JArr (map JStr (sorted_list_of_set (prin_Permissions prin)))),
              (''site_ids'', strings_json (prin_SiteIDs prin))]) rs, w))"

definition getSite :: "(string \<Rightarrow> bool) \<Rightarrow> world site_op option \<Rightarrow> string \<Rightarrow> handler" where
  "getSite parseUUID reader siteID r rs w =
     (case PrincipalFromContext (rq_Context r) of (prin, ok) \<Rightarrow>
        if \<not> ok then (writeProblem 401 ''Unauthorized'' ''principal is missing'' rs, w)
        else if \<not> parseUUID siteID then (writeProblem 400 ''Invalid Request'' ''site ID must be a UUID'' rs, w)
        else tryE (SiteService_Get reader prin siteID) (\<lambda>x w. case x of
          Inr site \<Rightarrow> (writeJSON 200 (site_json site) rs, w)
        | Inl err \<Rightarrow>
            if errors_Is err ErrSiteNotFound then (writeProblem 404 ''Not Found'' ''site was not found'' rs, w)
            else (writeProblem 500 ''Internal Server Error'' ''request could not be completed'' rs, w)) w)"

text \<open>
  The body: at most 64 KiB, one JSON document that decodes into the command, and nothing but white
  space after it. The error is the detail of the answer. A document that closes itself is read to its
  last byte; the literal null is only complete when something after it can be read.
\<close>

definition max_body :: nat where "max_body = 65536"

definition decode_body :: "string \<Rightarrow> string + CreateOrganization" where
  "decode_body body =
     (case json_next (take max_body body) of
        None \<Rightarrow> Inl ''request body must match the schema''
      | Some (v, rest) \<Rightarrow>
          if v = JNull \<and> rest = [] \<and> max_body < length body then Inl ''request body must match the schema''
          else (case decode_command v of
             None \<Rightarrow> Inl ''request body must match the schema''
           | Some command \<Rightarrow>
               if skip_ws rest = [] \<and> length body \<le> max_body then Inr command
               else Inl ''request body must contain one JSON object''))"

definition create_status :: "goerr + CreateOrganizationResult \<times> bool \<Rightarrow> response \<Rightarrow> response" where
  "create_status x rs =
     (case x of
        Inr (result, replay) \<Rightarrow>
          if replay then writeJSON 200 (result_json result) (set_header ''Idempotent-Replayed'' ''true'' rs)
          else writeJSON 201 (result_json result) rs
      | Inl err \<Rightarrow>
          if errors_Is err ErrPermissionDenied then writeProblem 403 ''Forbidden'' ''permission denied'' rs
          else if errors_Is err ErrIdempotencyKey \<or> errors_Is err ErrInvalidOrganization
            then writeProblem 400 ''Invalid Request'' (error_text err) rs
          else if errors_Is err ErrKeyConflict
            then writeProblem 409 ''Idempotency Conflict'' (error_text err) rs
          else writeProblem 500 ''Internal Server Error'' ''request could not be completed'' rs)"

definition createOrganization :: "world create_op option \<Rightarrow> handler" where
  "createOrganization store r rs w =
     (case PrincipalFromContext (rq_Context r) of (prin, ok) \<Rightarrow>
        if \<not> ok then (writeProblem 401 ''Unauthorized'' ''principal is missing'' rs, w)
        else
          let key = TrimSpace (get_first (rq_Header r) ''Idempotency-Key'') in
          (case decode_body (rq_Body r) of
             Inl detail \<Rightarrow> (writeProblem 400 ''Invalid Request'' detail rs, w)
           | Inr command \<Rightarrow>
               tryE (OrganizationService_Create store prin key command) (\<lambda>x w. (create_status x rs, w)) w))"

section \<open>Router\<close>

text \<open>
  A table of handlers, each with its method, its pattern and the URL parameters it gets, is served
  through the router library: the library looks up the method and the path among the patterns and
  answers by itself when there is none.
\<close>

datatype matched = Matched "string \<times> string" "(string \<times> string) list" | NoRoute | NoMethod

record chi =
  chi_match :: "(string \<times> string) list \<Rightarrow> string \<Rightarrow> string \<Rightarrow> matched"
  chi_NotFound :: handler
  chi_NotAllowed :: handler

type_synonym route = "(string \<times> string) \<times> ((string \<times> string) list \<Rightarrow> handler)"

definition dispatch :: "chi \<Rightarrow> route list \<Rightarrow> string \<Rightarrow> handler" where
  "dispatch C table path r =
     (case chi_match C (map fst table) (rq_Method r) path of
        Matched k params \<Rightarrow>
          (case map_of table k of Some h \<Rightarrow> h params r | None \<Rightarrow> chi_NotFound C r)
      | NoRoute \<Rightarrow> chi_NotFound C r
      | NoMethod \<Rightarrow> chi_NotAllowed C r)"

definition api_routes :: "Dependencies \<Rightarrow> route list" where
  "api_routes D =
     [((''GET'', ''/me''), \<lambda>_. currentPrincipal),
      ((''POST'', ''/organizations''), \<lambda>_. createOrganization (dp_Organizations D)),
      ((''GET'', ''/sites/{siteID}''), \<lambda>params. getSite (dp_ParseUUID D) (dp_Sites D) (get_first params ''siteID''))]"

text \<open>A mounted router gets what the wildcard stands for as its path.\<close>

definition api_router :: "chi \<Rightarrow> Dependencies \<Rightarrow> (string \<times> string) list \<Rightarrow> handler" where
  "api_router C D params = dp_Middleware D (dispatch C (api_routes D) (''/'' @ get_first params ''*''))"

definition routes :: "env \<Rightarrow> chi \<Rightarrow> Dependencies \<Rightarrow> route list" where
  "routes E C D =
     [((''GET'', ''/health/live''), \<lambda>_. live),
      ((''GET'', ''/health/ready''), \<lambda>_. readiness E (dp_Database D)),
      ((''GET'', ''/auth/login''), \<lambda>_. dp_Begin D),
      ((''GET'', ''/auth/callback''), \<lambda>_. dp_Callback D),
      ((''POST'', ''/auth/logout''), \<lambda>_. dp_Logout D),
      ((''*'', ''/api/v1/*''), api_router C D)]"

definition csp :: string where
  "csp = (let none = [CHR 0x27] @ ''none'' @ [CHR 0x27] in
     ''default-src '' @ none @ ''; frame-ancestors '' @ none)"

definition securityHeaders :: "handler \<Rightarrow> handler" where
  "securityHeaders nxt r rs =
     nxt r (set_header ''Content-Security-Policy'' csp
       (set_header ''Referrer-Policy'' ''no-referrer''
         (set_header ''X-Frame-Options'' ''DENY''
           (set_header ''X-Content-Type-Options'' ''nosniff'' rs))))"

definition New_Router :: "env \<Rightarrow> chi \<Rightarrow> Dependencies \<Rightarrow> handler" where
  "New_Router E C D = securityHeaders (\<lambda>r. dispatch C (routes E C D) (rq_Path r) r)"

section \<open>What the router library promises\<close>

text \<open>
  The documented behaviour the program relies on, for the patterns it registers: a match names a
  registered pattern; a pattern without parameters matches its own text, a parameter matches a segment,
  and the mounted pattern matches every path below it; the library's own answers change no state, set no
  cookie and remove no header.
\<close>

definition chi_quiet :: "chi \<Rightarrow> bool" where
  "chi_quiet C \<longleftrightarrow>
     (\<forall>table meth path k params. chi_match C table meth path = Matched k params \<longrightarrow> k \<in> set table)
     \<and> (\<forall>r rs w k v. k \<noteq> ''Content-Type'' \<and> header rs k = Some v \<and> (k = ''X-Content-Type-Options'' \<longrightarrow> v = ''nosniff'')
          \<longrightarrow> header (fst (chi_NotFound C r rs w)) k = Some v \<and> header (fst (chi_NotAllowed C r rs w)) k = Some v)
     \<and> (\<forall>r rs w. snd (chi_NotFound C r rs w) = w \<and> snd (chi_NotAllowed C r rs w) = w)
     \<and> (\<forall>r rs w. rs_Cookies (fst (chi_NotFound C r rs w)) = rs_Cookies rs
          \<and> rs_Cookies (fst (chi_NotAllowed C r rs w)) = rs_Cookies rs)"

definition root_patterns :: "(string \<times> string) list" where
  "root_patterns = [(''GET'', ''/health/live''), (''GET'', ''/health/ready''), (''GET'', ''/auth/login''),
     (''GET'', ''/auth/callback''), (''POST'', ''/auth/logout''), (''*'', ''/api/v1/*'')]"

definition api_patterns :: "(string \<times> string) list" where
  "api_patterns = [(''GET'', ''/me''), (''POST'', ''/organizations''), (''GET'', ''/sites/{siteID}'')]"

definition chi_matches :: "chi \<Rightarrow> bool" where
  "chi_matches C \<longleftrightarrow>
     (\<forall>(m, p) \<in> set (butlast root_patterns). chi_match C root_patterns m p = Matched (m, p) [])
     \<and> (\<forall>meth \<in> {''GET'', ''POST''}. \<forall>rest. chi_match C root_patterns meth (''/api/v1/'' @ rest)
          = Matched (''*'', ''/api/v1/*'') [(''*'', rest)])
     \<and> (\<forall>(m, p) \<in> set (butlast api_patterns). chi_match C api_patterns m p = Matched (m, p) [])
     \<and> (\<forall>seg. seg \<noteq> [] \<and> CHR ''/'' \<notin> set seg \<longrightarrow> chi_match C api_patterns ''GET'' (''/sites/'' @ seg)
          = Matched (''GET'', ''/sites/{siteID}'') [(''siteID'', seg)])"

lemma patterns: "map fst (routes E C D) = root_patterns" "map fst (api_routes D) = api_patterns"
  by (simp_all add: routes_def root_patterns_def api_routes_def api_patterns_def)

text \<open>A router that keeps these promises.\<close>

definition match_path :: "(string \<times> string) \<Rightarrow> string \<Rightarrow> (string \<times> string) list option" where
  "match_path k path =
     (let p = snd k in
      if p = ''/api/v1/*'' \<and> prefix ''/api/v1/'' path then Some [(''*'', drop 8 path)]
      else if p = ''/sites/{siteID}'' \<and> prefix ''/sites/'' path \<and> drop 7 path \<noteq> [] \<and> CHR ''/'' \<notin> set (drop 7 path)
        then Some [(''siteID'', drop 7 path)]
      else if p = path then Some []
      else None)"

definition sample_chi :: chi where
  "sample_chi = \<lparr>chi_match = (\<lambda>table meth path.
       case find (\<lambda>k. match_path k path \<noteq> None) table of
         None \<Rightarrow> NoRoute
       | Some k \<Rightarrow>
           if fst k = meth \<or> fst k = ''*'' then Matched k (case match_path k path of Some ps \<Rightarrow> ps | None \<Rightarrow> [])
           else NoMethod),
     chi_NotFound = (\<lambda>r rs w. (http_Error ''404 page not found'' 404 rs, w)),
     chi_NotAllowed = (\<lambda>r rs w. (rs\<lparr>rs_Status := 405\<rparr>, w))\<rparr>"

lemma sample_chi_quiet: "chi_quiet sample_chi"
proof -
  have "k \<in> set table" if "chi_match sample_chi table meth path = Matched k params" for table meth path k params
    using that find_SomeD by (fastforce simp: sample_chi_def split: option.splits if_splits)
  then show ?thesis by (auto simp: chi_quiet_def sample_chi_def http_Error_def)
qed

lemma sample_chi_matches: "chi_matches sample_chi"
  by (simp add: chi_matches_def root_patterns_def api_patterns_def sample_chi_def match_path_def Let_def)

lemma chi_quietD:
  assumes "chi_quiet C"
  shows "chi_match C table meth path = Matched k params \<Longrightarrow> k \<in> set table"
    and "k' \<noteq> ''Content-Type'' \<Longrightarrow> header rs k' = Some v \<Longrightarrow> k' = ''X-Content-Type-Options'' \<longrightarrow> v = ''nosniff''
      \<Longrightarrow> header (fst (chi_NotFound C r rs w)) k' = Some v \<and> header (fst (chi_NotAllowed C r rs w)) k' = Some v"
    and "snd (chi_NotFound C r rs w) = w \<and> snd (chi_NotAllowed C r rs w) = w"
    and "rs_Cookies (fst (chi_NotFound C r rs w)) = rs_Cookies rs
      \<and> rs_Cookies (fst (chi_NotAllowed C r rs w)) = rs_Cookies rs"
proof -
  note q = assms [unfolded chi_quiet_def]
  show "chi_match C table meth path = Matched k params \<Longrightarrow> k \<in> set table"
    using q [THEN conjunct1] by blast
  show "k' \<noteq> ''Content-Type'' \<Longrightarrow> header rs k' = Some v \<Longrightarrow> k' = ''X-Content-Type-Options'' \<longrightarrow> v = ''nosniff''
      \<Longrightarrow> header (fst (chi_NotFound C r rs w)) k' = Some v \<and> header (fst (chi_NotAllowed C r rs w)) k' = Some v"
    using q [THEN conjunct2, THEN conjunct1] by blast
  show "snd (chi_NotFound C r rs w) = w \<and> snd (chi_NotAllowed C r rs w) = w"
    using q [THEN conjunct2, THEN conjunct2, THEN conjunct1] by blast
  show "rs_Cookies (fst (chi_NotFound C r rs w)) = rs_Cookies rs
      \<and> rs_Cookies (fst (chi_NotAllowed C r rs w)) = rs_Cookies rs"
    using q [THEN conjunct2, THEN conjunct2, THEN conjunct2] by blast
qed

lemma dispatch_cases:
  assumes "chi_quiet C"
  shows "(\<exists>k h params. (k, h) \<in> set table \<and> dispatch C table path r = h params r)
    \<or> dispatch C table path r = chi_NotFound C r \<or> dispatch C table path r = chi_NotAllowed C r"
proof (cases "chi_match C (map fst table) (rq_Method r) path")
  case (Matched k params)
  then have "k \<in> set (map fst table)" by (rule chi_quietD(1) [OF assms])
  then obtain h where h: "map_of table k = Some h"
    by (metis list.set_map map_of_eq_None_iff option.exhaust)
  then have "(k, h) \<in> set table" by (rule map_of_SomeD)
  moreover have "dispatch C table path r = h params r" using h Matched by (simp add: dispatch_def)
  ultimately show ?thesis by blast
qed (simp_all add: dispatch_def)

section \<open>Responses\<close>

lemma writeProblem_simps [simp]:
  "rs_Status (writeProblem n t d rs) = n" "rs_Cookies (writeProblem n t d rs) = rs_Cookies rs"
  "header (writeProblem n t d rs) k = (if k = ''Content-Type'' then Some ''application/problem+json'' else header rs k)"
  by (simp_all add: writeProblem_def)

lemma writeJSON_simps [simp]:
  "rs_Status (writeJSON n v rs) = n" "rs_Body (writeJSON n v rs) = Json v"
  "rs_Cookies (writeJSON n v rs) = rs_Cookies rs"
  "header (writeJSON n v rs) k = (if k = ''Content-Type'' then Some ''application/json'' else header rs k)"
  by (simp_all add: writeJSON_def)

lemma create_status_code:
  "rs_Status (create_status x rs) =
     (case x of
        Inr (_, replay) \<Rightarrow> if replay then 200 else 201
      | Inl err \<Rightarrow>
          if errors_Is err ErrPermissionDenied then 403
          else if errors_Is err ErrIdempotencyKey \<or> errors_Is err ErrInvalidOrganization then 400
          else if errors_Is err ErrKeyConflict then 409 else 500)"
  by (simp add: create_status_def split: sum.split prod.split)

lemma create_status_ok:
  "rs_Status (create_status x rs) = 201 \<longleftrightarrow> (\<exists>r. x = Inr (r, False))"
  "rs_Status (create_status x rs) = 200 \<longleftrightarrow> (\<exists>r. x = Inr (r, True))"
  by (auto simp: create_status_code split: sum.splits prod.splits if_splits)

lemma num_end_ws:
  assumes "skip_ws ws = []"
  shows "num_end ws"
proof (cases ws)
  case (Cons c cs)
  then have "is_ws c" using assms by (simp add: skip_ws_def split: if_splits)
  then have "c \<in> {CHR '' '', CHR 0x09, CHR 0x0A, CHR 0x0D}" by (auto simp: is_ws_def)
  then show ?thesis unfolding Cons by (elim insertE) (simp_all add: num_end_def is_digit_def)
qed (simp add: num_end_def)

text \<open>The four headers of \<open>securityHeaders\<close>, and the handlers that leave them in place.\<close>

definition protected_response :: "response \<Rightarrow> bool" where
  "protected_response rs \<longleftrightarrow>
     header rs ''X-Content-Type-Options'' = Some ''nosniff'' \<and> header rs ''X-Frame-Options'' = Some ''DENY''
     \<and> header rs ''Referrer-Policy'' = Some ''no-referrer'' \<and> header rs ''Content-Security-Policy'' = Some csp"

definition header_safe :: "handler \<Rightarrow> bool" where
  "header_safe h \<longleftrightarrow> (\<forall>r rs w. protected_response rs \<longrightarrow> protected_response (fst (h r rs w)))"

lemma protected_simps [simp]:
  "protected_response rs \<Longrightarrow> protected_response (writeProblem n t d rs)"
  "protected_response rs \<Longrightarrow> protected_response (writeJSON n v rs)"
  "protected_response rs \<Longrightarrow> protected_response (http_Error m n rs)"
  "protected_response rs \<Longrightarrow> protected_response (Redirect m n rs)"
  "protected_response (SetCookie c rs) = protected_response rs"
  "protected_response (rs\<lparr>rs_Status := n\<rparr>) = protected_response rs"
  "protected_response (rs\<lparr>rs_Body := b\<rparr>) = protected_response rs"
  "protected_response rs \<Longrightarrow> protected_response (set_header ''Idempotent-Replayed'' x rs)"
  "protected_response rs \<Longrightarrow> protected_response (set_header ''Content-Type'' x rs)"
  by (simp_all add: protected_response_def http_Error_def Redirect_def)

lemma header_safeI: "(\<And>r rs w. protected_response rs \<Longrightarrow> protected_response (fst (h r rs w))) \<Longrightarrow> header_safe h"
  by (simp add: header_safe_def)

lemma header_safeD: "header_safe h \<Longrightarrow> protected_response rs \<Longrightarrow> protected_response (fst (h r rs w))"
  by (simp add: header_safe_def)

lemma tryE_protected:
  "(\<And>x w. protected_response (fst (k x w))) \<Longrightarrow> protected_response (fst (tryE m k w))"
  by (cases "m w") (simp add: tryE_def)

lemma header_safe_chi:
  assumes "chi_quiet C"
  shows "header_safe (chi_NotFound C)" and "header_safe (chi_NotAllowed C)"
  using chi_quietD(2) [OF assms] by (simp_all add: header_safe_def protected_response_def)

lemma create_status_protected: "protected_response rs \<Longrightarrow> protected_response (create_status x rs)"
  by (simp add: create_status_def split: sum.split prod.split)

lemma header_safe_handlers:
  "header_safe live" "header_safe (readiness E pool)" "header_safe currentPrincipal"
  "header_safe (getSite parse reader siteID)" "header_safe (createOrganization store)"
  by (auto intro!: header_safeI tryE_protected create_status_protected
      simp: live_def readiness_def Let_def currentPrincipal_def getSite_def createOrganization_def
      split: prod.split sum.split)

lemma header_safe_dispatch:
  assumes "chi_quiet C" and "\<And>k h params. (k, h) \<in> set table \<Longrightarrow> header_safe (h params)"
  shows "header_safe (dispatch C table path)"
proof (rule header_safeI)
  fix r rs w assume p: "protected_response rs"
  from dispatch_cases [OF assms(1), of table path r] show "protected_response (fst (dispatch C table path r rs w))"
    using assms(2) header_safe_chi [OF assms(1)] header_safeD [OF _ p] by fastforce
qed

section \<open>The interface of the authenticator\<close>

text \<open>
  What the router relies on: the middleware answers 401 without running the handler, or runs the
  handler with an authenticated principal in the context; no handler of the authenticator removes a
  security header. Then every response carries these headers and no API handler runs without an
  authenticated principal.
\<close>

locale polite_authenticator =
  fixes mw :: "handler \<Rightarrow> handler"
    and login logincallback logout :: handler
  assumes mw_safe: "header_safe h \<Longrightarrow> header_safe (mw h)"
    and login_safe: "header_safe login" "header_safe logincallback" "header_safe logout"
begin

lemma router_protected:
  assumes "chi_quiet C" and "dp_Middleware D = mw" and "dp_Begin D = login" and "dp_Callback D = logincallback"
    and "dp_Logout D = logout"
  shows "protected_response (fst (New_Router E C D r rs w))"
proof -
  have "header_safe (dispatch C (api_routes D) path)" for path
    by (rule header_safe_dispatch [OF assms(1)]) (auto simp: api_routes_def header_safe_handlers)
  then have "header_safe (api_router C D params)" for params
    by (simp add: api_router_def assms(2) mw_safe)
  then have "header_safe (dispatch C (routes E C D) (rq_Path r))"
    using assms(3-5) login_safe
    by (intro header_safe_dispatch [OF assms(1)]) (auto simp: routes_def header_safe_handlers)
  moreover have "protected_response (set_header ''Content-Security-Policy'' csp
       (set_header ''Referrer-Policy'' ''no-referrer''
         (set_header ''X-Frame-Options'' ''DENY''
           (set_header ''X-Content-Type-Options'' ''nosniff'' rs))))"
    by (simp add: protected_response_def)
  ultimately show ?thesis by (simp add: New_Router_def securityHeaders_def header_safeD)
qed

end

locale authenticator = polite_authenticator +
  fixes ok :: "world \<Rightarrow> bool"
    and authentic :: "request \<Rightarrow> world \<Rightarrow> Principal \<Rightarrow> bool"
  assumes mw_guards: "ok w \<Longrightarrow> rs_Status (fst (mw nxt r rs w)) = 401
      \<or> (\<exists>p w1. authentic r w p \<and> mw nxt r rs w = nxt (r\<lparr>rq_Context := Some p\<rparr>) rs w1)"
begin

lemma api_guarded:
  assumes "dp_Middleware D = mw" and "ok w"
    and "rs_Status (fst (api_router C D params r rs w)) \<noteq> 401"
  shows "\<exists>p w1. authentic r w p \<and> api_router C D params r rs w
    = dispatch C (api_routes D) (''/'' @ get_first params ''*'') (r\<lparr>rq_Context := Some p\<rparr>) rs w1"
  using mw_guards [OF assms(2), of "dispatch C (api_routes D) (''/'' @ get_first params ''*'')" r rs] assms(1,3)
  by (auto simp: api_router_def)

end

section \<open>Properties\<close>

text \<open>
  C28. The body of a create request: the text of a command, with any white space after it, decodes to
  that command exactly when it stays within 64 KiB.
\<close>

theorem create_body_round_trip:
  assumes "valid_utf8 (cmd_Name c)" and "skip_ws ws = []"
  shows "decode_body (json_text (command_json c) @ ws) = Inr c
     \<longleftrightarrow> length (json_text (command_json c) @ ws) \<le> max_body"
proof -
  let ?t = "json_text (command_json c)"
  have "num_end ws" using assms(2) by (rule num_end_ws)
  then have n: "json_next (?t @ ws) = Some (command_json c, ws)"
    using json_next_text wf_command_json [OF assms(1)] by blast
  have d: "decode_command (command_json c) = Some c"
    by (simp add: decode_command_def command_json_def command_member_def key_matches_table set_string_def)
  have "length body \<le> max_body" if "decode_body body = Inr c" for body
    using that by (simp add: decode_body_def split: option.splits prod.splits if_splits)
  moreover have "decode_body (?t @ ws) = Inr c" if "length (?t @ ws) \<le> max_body"
  proof -
    have "take max_body (?t @ ws) = ?t @ ws" using that by (rule take_all)
    then show ?thesis using n d assms(2) that unfolding decode_body_def by simp
  qed
  ultimately show ?thesis by blast
qed

theorem create_body_round_trip_witness:
  "decode_body (json_text (command_json \<lparr>cmd_Name = ''Acme''\<rparr>) @ [CHR 0x0A]) = Inr \<lparr>cmd_Name = ''Acme''\<rparr>
   \<longleftrightarrow> length (json_text (command_json \<lparr>cmd_Name = ''Acme''\<rparr>) @ [CHR 0x0A]) \<le> max_body"
  by (rule create_body_round_trip) (simp_all add: ascii_valid_utf8 skip_ws_def is_ws_def)

text \<open>
  Permission comes first: a request of an authenticated principal without the permission to create
  organizations is answered 403, whatever its key and however its well-formed body, and the store is
  never called: the state is untouched.
\<close>

lemma create_permission_gate:
  assumes "rq_Context r = Some p" and "prin_ID p \<noteq> []" and "\<not> Has p PermissionOrganizationCreate"
    and "decode_body (rq_Body r) = Inr c"
  shows "rs_Status (fst (createOrganization store r rs w)) = 403 \<and> snd (createOrganization store r rs w) = w"
  using assms
  by (simp add: createOrganization_def PrincipalFromContext_def Let_def tryE_def OrganizationService_Create_def
      create_status_code)

lemma sample_body: "decode_body (json_text (command_json \<lparr>cmd_Name = ''Acme''\<rparr>)) = Inr \<lparr>cmd_Name = ''Acme''\<rparr>"
proof -
  have v: "valid_utf8 ''Acme''" by (simp add: ascii_valid_utf8)
  have n: "json_next (json_text (command_json \<lparr>cmd_Name = ''Acme''\<rparr>) @ []) = Some (command_json \<lparr>cmd_Name = ''Acme''\<rparr>, [])"
    by (rule json_next_text) (simp_all add: wf_command_json v num_end_def)
  have "length (json_text (command_json \<lparr>cmd_Name = ''Acme''\<rparr>)) \<le> max_body"
    by (simp add: command_json_def max_body_def quote_def escape_ascii_def quote_mark_def backslash_def)
  then show ?thesis using n
    by (simp add: decode_body_def skip_ws_def decode_command_def command_json_def command_member_def
        key_matches_table set_string_def)
qed

end
