(* ===== verification/Auth_Repository.thy ===== *)
theory Auth_Repository
  imports Database "HOL-Library.Multiset"
begin

text \<open>
  \<open>internal/platform/auth/repository.go\<close>: login flows, principals with their memberships, and web
  sessions. A secret (state, session token) is stored as its digest. None of these operations runs in
  a transaction: each statement commits by itself.
\<close>

record Flow =
  fl_Nonce :: string
  fl_PKCEVerifier :: string
  fl_ReturnTo :: string
  fl_ExpiresAt :: gotime

record IdentityClaims =
  cl_Subject :: string
  cl_DisplayName :: string
  cl_Email :: string

section \<open>Login flows\<close>

definition insert_flow :: "env \<Rightarrow> string \<Rightarrow> Flow \<Rightarrow> gotime \<Rightarrow> unit sql" where
  "insert_flow E hash flow now = (\<lambda>d.
     bindS (check_text E [fl_Nonce flow, fl_PKCEVerifier flow, fl_ReturnTo flow]) (\<lambda>_.
     bindS (check (\<not> list_ex (\<lambda>r. f_state_hash r = hash) (auth_flows d)) (PgError ''23505'')) (\<lambda>_.
       Inr ((), d\<lparr>auth_flows := auth_flows d @
         [\<lparr>f_state_hash = hash, f_nonce = fl_Nonce flow, f_pkce_verifier = fl_PKCEVerifier flow,
           f_return_to = fl_ReturnTo flow, f_expires_at = env_ts E (fl_ExpiresAt flow),
           f_created_at = env_ts E now\<rparr>]\<rparr>))))"

definition SaveFlow :: "env \<Rightarrow> string \<Rightarrow> Flow \<Rightarrow> unit prog" where
  "SaveFlow E state flow =
     (let hash = env_sha256 E state in
      bindE (Now E) (\<lambda>now. wrapE ''save OIDC flow'' (call E (insert_flow E hash flow now))))"

definition flow_of_row :: "flow_row \<Rightarrow> Flow" where
  "flow_of_row r = \<lparr>fl_Nonce = f_nonce r, fl_PKCEVerifier = f_pkce_verifier r,
     fl_ReturnTo = f_return_to r, fl_ExpiresAt = f_expires_at r\<rparr>"

text \<open>\<open>DELETE FROM auth_flows .. RETURNING\<close>: the row is gone once the statement has run.\<close>

definition delete_flow :: "string \<Rightarrow> Flow sql" where
  "delete_flow hash = (\<lambda>d.
     case find (\<lambda>r. f_state_hash r = hash) (auth_flows d) of
       None \<Rightarrow> Inl ErrNoRows
     | Some r \<Rightarrow> Inr (flow_of_row r, d\<lparr>auth_flows := filter (\<lambda>r. f_state_hash r \<noteq> hash) (auth_flows d)\<rparr>))"

definition ConsumeFlow :: "env \<Rightarrow> string \<Rightarrow> Flow prog" where
  "ConsumeFlow E state =
     (let hash = env_sha256 E state in
      bindE (wrapE ''consume OIDC flow'' (call E (delete_flow hash))) (\<lambda>flow.
      bindE (Now E) (\<lambda>now.
        if \<not> Before now (fl_ExpiresAt flow) then failE (Errorf ''OIDC flow expired'') else retE flow)))"

section \<open>Principals\<close>

definition addRolePermissions :: "Permission set \<Rightarrow> string \<Rightarrow> Permission set" where
  "addRolePermissions target role =
     (if role = ''Administrator'' then
        target \<union> {PermissionOrganizationCreate, PermissionWorkflowReview, PermissionWorkflowPublish,
                   PermissionReportApprove}
      else if role = ''Maintenance Supervisor'' then
        target \<union> {PermissionWorkflowReview, PermissionReportApprove}
      else if role = ''Senior Technician'' then target \<union> {PermissionWorkflowReview}
      else target)"

text \<open>
  \<open>INSERT INTO principals .. ON CONFLICT (external_subject) DO UPDATE .. RETURNING id\<close>. A subject that
  is there keeps its row and its identifier; a new subject whose identifier is taken violates the
  primary key.
\<close>

definition touch_principal :: "env \<Rightarrow> IdentityClaims \<Rightarrow> gotime \<Rightarrow> principal_row \<Rightarrow> principal_row" where
  "touch_principal E claims now r =
     (if p_external_subject r = cl_Subject claims
      then r\<lparr>p_display_name := cl_DisplayName claims, p_email := nullif_empty (cl_Email claims),
             p_updated_at := env_ts E now\<rparr>
      else r)"

definition new_principal_row :: "env \<Rightarrow> string \<Rightarrow> IdentityClaims \<Rightarrow> gotime \<Rightarrow> principal_row" where
  "new_principal_row E pid claims now =
     \<lparr>p_id = pid, p_external_subject = cl_Subject claims, p_display_name = cl_DisplayName claims,
      p_email = nullif_empty (cl_Email claims), p_status = ''ACTIVE'',
      p_created_at = env_ts E now, p_updated_at = env_ts E now\<rparr>"

definition upsert_principal :: "env \<Rightarrow> string \<Rightarrow> IdentityClaims \<Rightarrow> gotime \<Rightarrow> string sql" where
  "upsert_principal E ident claims now = (\<lambda>d.
     bindS (cast_uuid E ident) (\<lambda>pid.
     bindS (check_text E [cl_Subject claims, cl_DisplayName claims, cl_Email claims]) (\<lambda>_.
       case find (\<lambda>r. p_external_subject r = cl_Subject claims) (principals d) of
         Some old \<Rightarrow> Inr (p_id old, d\<lparr>principals := map (touch_principal E claims now) (principals d)\<rparr>)
       | None \<Rightarrow>
           bindS (check (\<not> list_ex (\<lambda>r. p_id r = pid) (principals d)) (PgError ''23505'')) (\<lambda>_.
             Inr (pid, d\<lparr>principals := principals d @ [new_principal_row E pid claims now]\<rparr>)))))"

text \<open>\<open>SELECT .. FROM memberships .. ORDER BY created_at\<close>: the order of rows with equal times is the
  server's.\<close>

definition select_memberships :: "env \<Rightarrow> string \<Rightarrow> (string \<times> string \<times> string) list sql" where
  "select_memberships E principalID = (\<lambda>d.
     bindS (cast_uuid E principalID) (\<lambda>pid.
       Inr (map (\<lambda>r. (m_organization_id r, coalesce_empty (m_site_id r), m_role r))
              (env_order E (filter (\<lambda>r. m_principal_id r = pid) (memberships d))), d)))"

text \<open>The loop over the rows: the organization so far, the set of sites, the permissions.\<close>

fun membership_loop ::
  "string \<Rightarrow> string set \<Rightarrow> Permission set \<Rightarrow> (string \<times> string \<times> string) list
    \<Rightarrow> string \<times> string set \<times> Permission set" where
  "membership_loop orga siteSet permissions [] = (orga, siteSet, permissions)"
| "membership_loop orga siteSet permissions ((organizationID, siteID, role) # rows) =
     membership_loop (if orga = [] then organizationID else orga)
       (if siteID \<noteq> [] then insert siteID siteSet else siteSet)
       (addRolePermissions permissions role) rows"

text \<open>The rows arrive after the query was accepted, so reading them to the end may fail by itself
  (\<open>rows.Err\<close>).\<close>

definition rows_end :: "unit sql" where
  "rows_end = (\<lambda>d. Inr ((), d))"

definition assemble_principal ::
  "IdentityClaims \<Rightarrow> string set \<Rightarrow> string \<Rightarrow> (string \<times> string \<times> string) list \<Rightarrow> Principal" where
  "assemble_principal claims bootstrapSubjects principalID rows =
     (case membership_loop [] {} {} rows of
        (organizationID, siteSet, permissions) \<Rightarrow>
          \<lparr>prin_ID = principalID, prin_ExternalSubject = cl_Subject claims,
           prin_DisplayName = cl_DisplayName claims, prin_OrganizationID = organizationID,
           prin_SiteIDs = sorted_list_of_set siteSet,
           prin_Permissions = (if cl_Subject claims \<in> bootstrapSubjects
             then insert PermissionOrganizationCreate permissions else permissions)\<rparr>)"

definition ResolvePrincipal :: "env \<Rightarrow> IdentityClaims \<Rightarrow> string set \<Rightarrow> Principal prog" where
  "ResolvePrincipal E claims bootstrapSubjects =
     (if cl_Subject claims = [] then failE (Errorf ''OIDC subject is required'')
      else
        bindE (Now E) (\<lambda>now.
        bindE (New E) (\<lambda>newID.
        bindE (wrapE ''resolve principal'' (call E (upsert_principal E newID claims now))) (\<lambda>principalID.
        bindE (wrapE ''load principal memberships'' (call E (select_memberships E principalID))) (\<lambda>rows.
        bindE (wrapE ''iterate principal memberships'' (call E rows_end)) (\<lambda>_.
          retE (assemble_principal claims bootstrapSubjects principalID rows)))))))"

section \<open>Sessions\<close>

definition insert_session :: "env \<Rightarrow> string \<Rightarrow> string \<Rightarrow> gotime \<Rightarrow> gotime \<Rightarrow> unit sql" where
  "insert_session E hash principalID expiresAt now = (\<lambda>d.
     bindS (cast_uuid E principalID) (\<lambda>pid.
     bindS (check (\<not> list_ex (\<lambda>r. w_token_hash r = hash) (web_sessions d)) (PgError ''23505'')) (\<lambda>_.
     bindS (check (list_ex (\<lambda>r. p_id r = pid) (principals d)) (PgError ''23503'')) (\<lambda>_.
       Inr ((), d\<lparr>web_sessions := web_sessions d @
         [\<lparr>w_token_hash = hash, w_principal_id = pid, w_expires_at = env_ts E expiresAt,
           w_created_at = env_ts E now, w_last_seen_at = env_ts E now, w_revoked_at = None\<rparr>]\<rparr>)))))"

definition CreateSession :: "env \<Rightarrow> string \<Rightarrow> string \<Rightarrow> gotime \<Rightarrow> unit prog" where
  "CreateSession E token principalID expiresAt =
     (let hash = env_sha256 E token in
      bindE (Now E) (\<lambda>now.
        wrapE ''create web session'' (call E (insert_session E hash principalID expiresAt now))))"

definition session_live :: "string \<Rightarrow> gotime \<Rightarrow> session_row \<Rightarrow> bool" where
  "session_live hash now s \<longleftrightarrow> w_token_hash s = hash \<and> w_revoked_at s = None \<and> w_expires_at s > now"

text \<open>The join of a live session with its active principal; \<open>QueryRow\<close> takes the first row.\<close>

definition session_rows :: "string \<Rightarrow> gotime \<Rightarrow> tables \<Rightarrow> principal_row list" where
  "session_rows hash now d =
     concat (map (\<lambda>s. if session_live hash now s
                      then filter (\<lambda>p. p_id p = w_principal_id s \<and> p_status p = ''ACTIVE'') (principals d)
                      else []) (web_sessions d))"

definition select_session :: "env \<Rightarrow> string \<Rightarrow> gotime \<Rightarrow> IdentityClaims sql" where
  "select_session E hash now = (\<lambda>d.
     case session_rows hash (env_ts E now) d of
       [] \<Rightarrow> Inl ErrNoRows
     | p # _ \<Rightarrow> Inr (\<lparr>cl_Subject = p_external_subject p, cl_DisplayName = p_display_name p,
                      cl_Email = coalesce_empty (p_email p)\<rparr>, d))"

definition PrincipalForSession :: "env \<Rightarrow> string \<Rightarrow> string set \<Rightarrow> Principal prog" where
  "PrincipalForSession E token bootstrapSubjects =
     (let hash = env_sha256 E token in
      bindE (Now E) (\<lambda>now.
      bindE (wrapE ''load web session'' (call E (select_session E hash now))) (\<lambda>claims.
        ResolvePrincipal E claims bootstrapSubjects)))"

definition revoke_row :: "env \<Rightarrow> string \<Rightarrow> gotime \<Rightarrow> session_row \<Rightarrow> session_row" where
  "revoke_row E hash now s =
     (if w_token_hash s = hash \<and> w_revoked_at s = None then s\<lparr>w_revoked_at := Some (env_ts E now)\<rparr> else s)"

definition revoke_session :: "env \<Rightarrow> string \<Rightarrow> gotime \<Rightarrow> unit sql" where
  "revoke_session E hash now = (\<lambda>d.
     Inr ((), d\<lparr>web_sessions := map (revoke_row E hash now) (web_sessions d)\<rparr>))"

definition RevokeSession :: "env \<Rightarrow> string \<Rightarrow> unit prog" where
  "RevokeSession E token =
     (let hash = env_sha256 E token in
      bindE (Now E) (\<lambda>now. wrapE ''revoke web session'' (call E (revoke_session E hash now))))"

lemmas auth_sql_defs [sql_defs] = insert_flow_def delete_flow_def upsert_principal_def
  select_memberships_def rows_end_def insert_session_def select_session_def revoke_session_def

section \<open>Relations kept by the repository\<close>

locale auth_relation = table_relation +
  fixes E :: env
  assumes R_insert_flow: "insert_flow E h f t d = Inr (u, d') \<Longrightarrow> R d d'"
    and R_delete_flow: "delete_flow h d = Inr (f, d') \<Longrightarrow> R d d'"
    and R_upsert: "upsert_principal E i c t d = Inr (p, d') \<Longrightarrow> R d d'"
    and R_insert_session: "insert_session E h p x t d = Inr (u, d') \<Longrightarrow> R d d'"
    and R_revoke: "revoke_session E h t d = Inr (u, d') \<Longrightarrow> R d d'"
begin

lemma keep_SaveFlow: "keeps (on_db R) (SaveFlow E st f)"
  unfolding SaveFlow_def Let_def by (intro keep_rules keep_call) (erule R_insert_flow)

lemma keep_ConsumeFlow: "keeps (on_db R) (ConsumeFlow E st)"
  unfolding ConsumeFlow_def Let_def by (intro keep_rules keep_call) (erule R_delete_flow)

lemma keep_ResolvePrincipal: "keeps (on_db R) (ResolvePrincipal E c bs)"
  unfolding ResolvePrincipal_def
  by (intro keep_rules keep_call)
     (auto simp: select_memberships_def rows_end_def bindS_Inr_iff R_refl dest: R_upsert
       intro!: keep_rules split: prod.split)

lemma keep_CreateSession: "keeps (on_db R) (CreateSession E tok p x)"
  unfolding CreateSession_def Let_def by (intro keep_rules keep_call) (erule R_insert_session)

lemma keep_PrincipalForSession: "keeps (on_db R) (PrincipalForSession E tok bs)"
  unfolding PrincipalForSession_def Let_def
  by (intro keep_rules keep_call keep_ResolvePrincipal)
     (auto simp: select_session_def R_refl split: list.splits)

lemma keep_RevokeSession: "keeps (on_db R) (RevokeSession E tok)"
  unfolding RevokeSession_def Let_def by (intro keep_rules keep_call) (erule R_revoke)

lemmas keep_auth = keep_SaveFlow keep_ConsumeFlow keep_ResolvePrincipal keep_CreateSession
  keep_PrincipalForSession keep_RevokeSession

end


section \<open>Behaviour of the statements\<close>

lemma upsert_principal_Inr:
  assumes "upsert_principal E i c t d = Inr (p, d')"
  obtains (old) r where "find (\<lambda>r. p_external_subject r = cl_Subject c) (principals d) = Some r" "p = p_id r"
      "d' = d\<lparr>principals := map (touch_principal E c t) (principals d)\<rparr>"
    | (new) "find (\<lambda>r. p_external_subject r = cl_Subject c) (principals d) = None" "env_uuid E i = Some p"
      "\<not> list_ex (\<lambda>r. p_id r = p) (principals d)"
      "d' = d\<lparr>principals := principals d @ [new_principal_row E p c t]\<rparr>"
  using assms by (auto simp: upsert_principal_def bindS_Inr_iff split: option.splits)

lemma touch_principal_simps [simp]:
  "p_id (touch_principal E c t r) = p_id r"
  "p_external_subject (touch_principal E c t r) = p_external_subject r"
  "p_status (touch_principal E c t r) = p_status r"
  by (simp_all add: touch_principal_def)

lemma new_principal_row_simps [simp]:
  "p_id (new_principal_row E p c t) = p"
  "p_external_subject (new_principal_row E p c t) = cl_Subject c"
  "p_status (new_principal_row E p c t) = ''ACTIVE''"
  by (simp_all add: new_principal_row_def)

lemma insert_flow_Inr:
  "insert_flow E h f t d = Inr (u, d') \<Longrightarrow>
     \<not> list_ex (\<lambda>r. f_state_hash r = h) (auth_flows d) \<and>
     d' = d\<lparr>auth_flows := auth_flows d @ [\<lparr>f_state_hash = h, f_nonce = fl_Nonce f,
        f_pkce_verifier = fl_PKCEVerifier f, f_return_to = fl_ReturnTo f,
        f_expires_at = env_ts E (fl_ExpiresAt f), f_created_at = env_ts E t\<rparr>]\<rparr>"
  by (auto simp: insert_flow_def bindS_Inr_iff)

lemma delete_flow_Inr:
  "delete_flow h d = Inr (f, d') \<Longrightarrow>
     (\<exists>r \<in> set (auth_flows d). f_state_hash r = h \<and> f = flow_of_row r) \<and>
     d' = d\<lparr>auth_flows := filter (\<lambda>r. f_state_hash r \<noteq> h) (auth_flows d)\<rparr>"
  by (auto simp: delete_flow_def split: option.splits dest!: find_SomeD)

lemma insert_session_Inr:
  "insert_session E h p x t d = Inr (u, d') \<Longrightarrow>
     \<exists>pid. env_uuid E p = Some pid \<and> \<not> list_ex (\<lambda>r. w_token_hash r = h) (web_sessions d)
       \<and> list_ex (\<lambda>r. p_id r = pid) (principals d)
       \<and> d' = d\<lparr>web_sessions := web_sessions d @ [\<lparr>w_token_hash = h, w_principal_id = pid,
            w_expires_at = env_ts E x, w_created_at = env_ts E t, w_last_seen_at = env_ts E t,
            w_revoked_at = None\<rparr>]\<rparr>"
  by (auto simp: insert_session_def bindS_Inr_iff)

lemma revoke_row_simps [simp]:
  "w_token_hash (revoke_row E h t s) = w_token_hash s"
  "w_principal_id (revoke_row E h t s) = w_principal_id s"
  "w_revoked_at (revoke_row E h t s) = None \<longleftrightarrow> w_revoked_at s = None \<and> w_token_hash s \<noteq> h"
  "(\<exists>y. w_revoked_at (revoke_row E h t s) = Some y) \<longleftrightarrow> (\<exists>y. w_revoked_at s = Some y) \<or> w_token_hash s = h"
  by (auto simp: revoke_row_def)

lemma session_rows_iff:
  "p \<in> set (session_rows h t d) \<longleftrightarrow>
     p \<in> set (principals d) \<and> p_status p = ''ACTIVE'' \<and>
     (\<exists>s \<in> set (web_sessions d). session_live h t s \<and> w_principal_id s = p_id p)"
  by (auto simp: session_rows_def split: if_splits) (metis IntI mem_Collect_eq)

section \<open>Invariants of the tables\<close>

text \<open>The keys of the tables the repository writes, and that a session belongs to a principal.\<close>

definition principals_ok :: "tables \<Rightarrow> bool" where
  "principals_ok d \<longleftrightarrow> distinct (map p_id (principals d)) \<and> distinct (map p_external_subject (principals d))"

definition flows_ok :: "tables \<Rightarrow> bool" where
  "flows_ok d \<longleftrightarrow> distinct (map f_state_hash (auth_flows d))"

definition sessions_ok :: "tables \<Rightarrow> bool" where
  "sessions_ok d \<longleftrightarrow> distinct (map w_token_hash (web_sessions d))
     \<and> (\<forall>s \<in> set (web_sessions d). w_principal_id s \<in> p_id ` set (principals d))"

definition auth_ok :: "tables \<Rightarrow> bool" where
  "auth_ok d \<longleftrightarrow> principals_ok d \<and> flows_ok d \<and> sessions_ok d"

lemma upsert_auth_ok:
  assumes "upsert_principal E i c t d = Inr (p, d')" and "auth_ok d"
  shows "auth_ok d'"
  using assms(1)
proof (cases rule: upsert_principal_Inr)
  case (old r)
  then show ?thesis
    using assms(2) by (auto simp: auth_ok_def principals_ok_def flows_ok_def sessions_ok_def comp_def image_image)
next
  case new
  then show ?thesis
    using assms(2)
    by (auto simp: auth_ok_def principals_ok_def flows_ok_def sessions_ok_def list_ex_iff find_None_iff)
qed

interpretation auth_ok: auth_relation "\<lambda>d d'. auth_ok d \<longrightarrow> auth_ok d'" E for E
proof (unfold_locales, goal_cases)
  case (3 h f t d u d')
  then show ?case
    by (auto simp: auth_ok_def principals_ok_def flows_ok_def sessions_ok_def list_ex_iff dest!: insert_flow_Inr)
next
  case (4 h d f d')
  then show ?case
    by (auto simp: auth_ok_def principals_ok_def flows_ok_def sessions_ok_def distinct_map_filter
        dest!: delete_flow_Inr)
next
  case (5 i c t d p d')
  then show ?case using upsert_auth_ok by blast
next
  case (6 h p x t d u d')
  then show ?case
    by (auto simp: auth_ok_def principals_ok_def flows_ok_def sessions_ok_def list_ex_iff
        dest!: insert_session_Inr)
next
  case (7 h t d u d')
  then show ?case
    by (auto simp: auth_ok_def principals_ok_def flows_ok_def sessions_ok_def revoke_session_def comp_def)
qed auto

text \<open>A subject that has a row keeps it, with its identifier and its status.\<close>

definition subjects_kept :: "tables \<Rightarrow> tables \<Rightarrow> bool" where
  "subjects_kept d d' \<longleftrightarrow> (\<forall>r \<in> set (principals d). \<exists>r' \<in> set (principals d').
     p_external_subject r' = p_external_subject r \<and> p_id r' = p_id r \<and> p_status r' = p_status r)"

interpretation subjects_kept: auth_relation subjects_kept E for E
proof (unfold_locales, goal_cases)
  case (1 d)
  then show ?case by (auto simp: subjects_kept_def)
next
  case (2 d1 d2 d3)
  then show ?case unfolding subjects_kept_def by metis
next
  case (5 i c t d p d')
  then show ?case
    by (cases rule: upsert_principal_Inr) (force simp: subjects_kept_def)+
qed (auto simp: subjects_kept_def revoke_session_def dest!: insert_flow_Inr delete_flow_Inr insert_session_Inr)

text \<open>A session that is revoked stays revoked.\<close>

definition session_revoked :: "string \<Rightarrow> tables \<Rightarrow> bool" where
  "session_revoked h d \<longleftrightarrow> (\<exists>s \<in> set (web_sessions d). w_token_hash s = h)
     \<and> (\<forall>s \<in> set (web_sessions d). w_token_hash s = h \<longrightarrow> w_revoked_at s \<noteq> None)"

interpretation revoked_kept: auth_relation "\<lambda>d d'. session_revoked h d \<longrightarrow> session_revoked h d'" E for h E
proof (unfold_locales, goal_cases)
  case (5 i c t d p d')
  then show ?case
    by (cases rule: upsert_principal_Inr) (simp_all add: session_revoked_def)
next
  case (6 h' p x t d u d')
  then show ?case
    by (fastforce simp: session_revoked_def list_ex_iff dest!: insert_session_Inr)
next
  case (7 h' t d u d')
  then show ?case
    by (auto simp: session_revoked_def revoke_session_def)
next
  case (3 h' f t d u d')
  then show ?case by (auto simp: session_revoked_def dest!: insert_flow_Inr)
next
  case (4 h' d f d')
  then show ?case by (auto simp: session_revoked_def dest!: delete_flow_Inr)
qed auto


section \<open>Results of the operations\<close>

lemma ConsumeFlow_Inr:
  assumes "ConsumeFlow E state w = (Inr f, w')"
  shows "(\<exists>r \<in> set (auth_flows (db w)). f_state_hash r = env_sha256 E state \<and> f = flow_of_row r)
     \<and> env_now E (ticks w) < fl_ExpiresAt f
     \<and> db w' = (db w)\<lparr>auth_flows := filter (\<lambda>r. f_state_hash r \<noteq> env_sha256 E state) (auth_flows (db w))\<rparr>"
  using assms
  by (auto simp: ConsumeFlow_def Let_def bindE_Inr_iff call_Inr_iff Before_def split: if_splits
      dest!: delete_flow_Inr)

definition role_permissions :: "string \<Rightarrow> Permission set" where
  "role_permissions role = addRolePermissions {} role"

lemma addRolePermissions_Un: "addRolePermissions S role = S \<union> role_permissions role"
  by (auto simp: role_permissions_def addRolePermissions_def)

lemma membership_loop_spec:
  "membership_loop orga S P rows =
     (if orga = [] then (case find (\<lambda>r. fst r \<noteq> []) rows of None \<Rightarrow> [] | Some r \<Rightarrow> fst r) else orga,
      S \<union> {sid. sid \<noteq> [] \<and> (\<exists>oid role. (oid, sid, role) \<in> set rows)},
      P \<union> (\<Union>(oid, sid, role) \<in> set rows. role_permissions role))"
proof (induction rows arbitrary: orga S P)
  case (Cons r rows)
  then show ?case
    by (cases r) (auto simp: addRolePermissions_Un split: option.split)
qed simp

text \<open>The memberships of a principal in the order the query returns them.\<close>

definition memberships_of :: "env \<Rightarrow> string \<Rightarrow> tables \<Rightarrow> membership_row list" where
  "memberships_of E pid d = env_order E (filter (\<lambda>r. m_principal_id r = pid) (memberships d))"

definition order_ok :: "env \<Rightarrow> bool" where
  "order_ok E \<longleftrightarrow> (\<forall>rows. mset (env_order E rows) = mset rows \<and> sorted (map m_created_at (env_order E rows)))"

lemma set_memberships_of:
  "order_ok E \<Longrightarrow> set (memberships_of E pid d) = {r \<in> set (memberships d). m_principal_id r = pid}"
  unfolding order_ok_def memberships_of_def by (metis set_filter set_mset_mset)

lemma assemble_principal_ID: "prin_ID (assemble_principal c bs p rows) = p"
  by (simp add: assemble_principal_def split: prod.split)

lemma ResolvePrincipal_Inr:
  assumes "ResolvePrincipal E claims bs w = (Inr p, w')"
  obtains u where "env_uuid E (prin_ID p) = Some u"
    "upsert_principal E (env_id E (ids w)) claims (env_now E (ticks w)) (db w) = Inr (prin_ID p, db w')"
    "prin_ExternalSubject p = cl_Subject claims" "prin_DisplayName p = cl_DisplayName claims"
    "cl_Subject claims \<noteq> []"
    "prin_OrganizationID p = (case find (\<lambda>r. m_organization_id r \<noteq> []) (memberships_of E u (db w)) of
        None \<Rightarrow> [] | Some r \<Rightarrow> m_organization_id r)"
    "prin_SiteIDs p = sorted_list_of_set {sid. sid \<noteq> [] \<and> Some sid \<in> m_site_id ` set (memberships_of E u (db w))}"
    "prin_Permissions p = (if cl_Subject claims \<in> bs then {PermissionOrganizationCreate} else {})
        \<union> (\<Union>r \<in> set (memberships_of E u (db w)). role_permissions (m_role r))"
proof -
  from assms obtain w1 w2 w3 rows where ne: "cl_Subject claims \<noteq> []"
    and 1: "call E (upsert_principal E (env_id E (ids w)) claims (env_now E (ticks w)))
        (w\<lparr>ticks := Suc (ticks w), ids := Suc (ids w)\<rparr>) = (Inr (prin_ID p), w1)"
    and 2: "call E (select_memberships E (prin_ID p)) w1 = (Inr rows, w2)"
    and 3: "call E rows_end w2 = (Inr (), w')"
    and p: "assemble_principal claims bs (prin_ID p) rows = p"
    unfolding ResolvePrincipal_def
    by (auto simp: bindE_Inr_iff assemble_principal_ID split: if_splits)
  from 2 obtain u where u: "env_uuid E (prin_ID p) = Some u" "db w2 = db w1"
    "rows = map (\<lambda>r. (m_organization_id r, coalesce_empty (m_site_id r), m_role r)) (memberships_of E u (db w1))"
    by (auto simp: call_Inr_iff select_memberships_def memberships_of_def bindS_Inr_iff)
  have d1: "upsert_principal E (env_id E (ids w)) claims (env_now E (ticks w)) (db w) = Inr (prin_ID p, db w1)"
    using 1 by (auto simp: call_Inr_iff)
  then have m: "memberships (db w1) = memberships (db w)" by (auto elim: upsert_principal_Inr)
  have w': "db w' = db w1" using 3 u(2) by (auto simp: call_Inr_iff rows_end_def)
  let ?ms = "memberships_of E u (db w)"
  have ms: "memberships_of E u (db w1) = ?ms" by (simp add: memberships_of_def m)
  have f: "(case find (\<lambda>r. fst r \<noteq> []) rows of None \<Rightarrow> [] | Some r \<Rightarrow> fst r)
      = (case find (\<lambda>r. m_organization_id r \<noteq> []) ?ms of None \<Rightarrow> [] | Some r \<Rightarrow> m_organization_id r)"
  proof -
    have "(case find (\<lambda>r. fst r \<noteq> []) (map (\<lambda>r. (m_organization_id r, coalesce_empty (m_site_id r), m_role r)) rs)
        of None \<Rightarrow> [] | Some r \<Rightarrow> fst r)
      = (case find (\<lambda>r. m_organization_id r \<noteq> []) rs of None \<Rightarrow> [] | Some r \<Rightarrow> m_organization_id r)" for rs
      by (induction rs) auto
    then show ?thesis unfolding u(3) ms .
  qed
  have s: "{sid. sid \<noteq> [] \<and> (\<exists>oid role. (oid, sid, role) \<in> set rows)}
      = {sid. sid \<noteq> [] \<and> Some sid \<in> m_site_id ` set ?ms}"
  proof (rule Collect_cong)
    fix sid
    have "(\<exists>oid role. (oid, sid, role) \<in> set rows) \<longleftrightarrow> (\<exists>r \<in> set ?ms. coalesce_empty (m_site_id r) = sid)"
      unfolding u(3) ms by auto
    moreover have "coalesce_empty v = sid \<longleftrightarrow> v = Some sid" if "sid \<noteq> []" for v
      using that by (auto simp: coalesce_empty_def split: option.splits)
    ultimately show "(sid \<noteq> [] \<and> (\<exists>oid role. (oid, sid, role) \<in> set rows))
        \<longleftrightarrow> (sid \<noteq> [] \<and> Some sid \<in> m_site_id ` set ?ms)"
      by (auto simp: image_iff) metis+
  qed
  have r: "(\<Union>(oid, sid, role) \<in> set rows. role_permissions role) = (\<Union>r \<in> set ?ms. role_permissions (m_role r))"
    unfolding u(3) ms by auto
  define q where "q = assemble_principal claims bs (prin_ID p) rows"
  have "prin_ExternalSubject q = cl_Subject claims" "prin_DisplayName q = cl_DisplayName claims"
    "prin_OrganizationID q = (case find (\<lambda>r. m_organization_id r \<noteq> []) ?ms of
        None \<Rightarrow> [] | Some r \<Rightarrow> m_organization_id r)"
    "prin_SiteIDs q = sorted_list_of_set {sid. sid \<noteq> [] \<and> Some sid \<in> m_site_id ` set ?ms}"
    "prin_Permissions q = (if cl_Subject claims \<in> bs then {PermissionOrganizationCreate} else {})
        \<union> (\<Union>r \<in> set ?ms. role_permissions (m_role r))"
    using f s r by (simp_all add: q_def assemble_principal_def membership_loop_spec)
  moreover have "q = p" using p q_def by simp
  ultimately show thesis using that [OF u(1)] d1 w' ne by simp
qed

lemma ConsumeFlow_gone:
  assumes "\<forall>r \<in> set (auth_flows (db w)). f_state_hash r \<noteq> env_sha256 E state"
  shows "fst (ConsumeFlow E state w) \<noteq> Inr f"
proof -
  have "find (\<lambda>r. f_state_hash r = env_sha256 E state) (auth_flows (db w)) = None"
    using assms by (simp add: find_None_iff)
  then show ?thesis
    by (simp add: ConsumeFlow_def delete_flow_def call_def apply_sql_def Let_def bindE_def mapErr_def
        split: fault.split)
qed

lemma PrincipalForSession_Inr:
  assumes "PrincipalForSession E token bs w = (Inr p, w')" and "auth_ok (db w)"
  shows "\<exists>s \<in> set (web_sessions (db w)). w_token_hash s = env_sha256 E token \<and> w_revoked_at s = None
     \<and> env_ts E (env_now E (ticks w)) < w_expires_at s \<and> w_principal_id s = prin_ID p
     \<and> (\<exists>r \<in> set (principals (db w)). p_id r = prin_ID p \<and> p_status r = ''ACTIVE''
           \<and> p_external_subject r = prin_ExternalSubject p)"
proof -
  obtain claims w1 where c: "call E (select_session E (env_sha256 E token) (env_now E (ticks w)))
      (w\<lparr>ticks := Suc (ticks w)\<rparr>) = (Inr claims, w1)"
    and r: "ResolvePrincipal E claims bs w1 = (Inr p, w')"
    using assms(1) by (auto simp: PrincipalForSession_def Let_def bindE_Inr_iff)
  from c obtain row rest where row: "session_rows (env_sha256 E token) (env_ts E (env_now E (ticks w))) (db w) = row # rest"
    "cl_Subject claims = p_external_subject row" and w1: "db w1 = db w"
    by (auto simp: call_Inr_iff select_session_def split: list.splits)
  have in_rows: "row \<in> set (principals (db w))" "p_status row = ''ACTIVE''"
    "\<exists>s \<in> set (web_sessions (db w)). session_live (env_sha256 E token) (env_ts E (env_now E (ticks w))) s
       \<and> w_principal_id s = p_id row"
    using row(1) session_rows_iff [of row "env_sha256 E token" "env_ts E (env_now E (ticks w))" "db w"]
    by auto
  have f: "find (\<lambda>r. p_external_subject r = cl_Subject claims) (principals (db w)) = Some row"
    using in_rows(1) row(2) assms(2)
    by (intro find_eq_if_distinct_key) (auto simp: auth_ok_def principals_ok_def)
  have "prin_ID p = p_id row \<and> prin_ExternalSubject p = p_external_subject row"
    using r
  proof (cases rule: ResolvePrincipal_Inr)
    case (1 u)
    from 1(2) show ?thesis
      by (cases rule: upsert_principal_Inr) (use f w1 1 row(2) in auto)
  qed
  then show ?thesis using in_rows by (auto simp: session_live_def)
qed

lemma session_revoked_no_principal:
  assumes "session_revoked (env_sha256 E token) (db w)"
  shows "fst (PrincipalForSession E token bs w) \<noteq> Inr p"
proof
  assume "fst (PrincipalForSession E token bs w) = Inr p"
  then obtain w' where "PrincipalForSession E token bs w = (Inr p, w')" by (metis prod.collapse)
  then obtain claims w1 where "call E (select_session E (env_sha256 E token) (env_now E (ticks w)))
      (w\<lparr>ticks := Suc (ticks w)\<rparr>) = (Inr claims, w1)"
    by (auto simp: PrincipalForSession_def Let_def bindE_Inr_iff)
  then obtain row where "row \<in> set (session_rows (env_sha256 E token) (env_ts E (env_now E (ticks w))) (db w))"
    by (auto simp: call_Inr_iff select_session_def split: list.splits)
  then show False
    using assms by (auto simp: session_rows_iff session_live_def session_revoked_def)
qed

lemma RevokeSession_revokes:
  assumes "RevokeSession E token w = (Inr (), w')"
    and "\<exists>s \<in> set (web_sessions (db w)). w_token_hash s = env_sha256 E token"
  shows "session_revoked (env_sha256 E token) (db w')"
  using assms
  by (auto simp: RevokeSession_def Let_def bindE_Inr_iff call_Inr_iff revoke_session_def session_revoked_def)

lemma ResolvePrincipal_row:
  assumes "ResolvePrincipal E c bs w = (Inr p, w')"
  shows "\<exists>r \<in> set (principals (db w')). p_external_subject r = cl_Subject c \<and> p_id r = prin_ID p"
  using assms
proof (cases rule: ResolvePrincipal_Inr)
  case (1 u)
  from 1(2) show ?thesis
    by (cases rule: upsert_principal_Inr) (auto dest!: find_SomeD)
qed

lemma ResolvePrincipal_known:
  assumes "ResolvePrincipal E c bs w = (Inr p, w')" and "principals_ok (db w)"
    and "r \<in> set (principals (db w))" and "p_external_subject r = cl_Subject c"
  shows "prin_ID p = p_id r"
proof -
  have f: "find (\<lambda>r. p_external_subject r = cl_Subject c) (principals (db w)) = Some r"
    using assms by (intro find_eq_if_distinct_key) (auto simp: principals_ok_def)
  from assms(1) show ?thesis
  proof (cases rule: ResolvePrincipal_Inr)
    case (1 u)
    from 1(2) show ?thesis by (cases rule: upsert_principal_Inr) (use f in auto)
  qed
qed

end
