(* ===== verification/Go_Url.thy ===== *)
theory Go_Url
  imports Go_Strings
begin

text \<open>
  The part of \<open>net/url\<close> that the login code uses: \<open>Parse\<close>, \<open>IsAbs\<close> and \<open>RequestURI\<close>, with the percent
  encoding of paths. Parsing a host and checking user information depend on the release of the library
  and are arguments of \<open>url_parse\<close>: \<open>ph\<close> returns the host of an authority, or None for an error, and
  \<open>ui\<close> says whether the user information is accepted.
\<close>

section \<open>Percent encoding of paths\<close>

definition is_alnum :: "char \<Rightarrow> bool" where
  "is_alnum c \<longleftrightarrow> (let b = byte c in
     (48 \<le> b \<and> b \<le> 57) \<or> (65 \<le> b \<and> b \<le> 90) \<or> (97 \<le> b \<and> b \<le> 122))"

definition unhex :: "char \<Rightarrow> nat option" where
  "unhex c = (let b = byte c in
     if 48 \<le> b \<and> b \<le> 57 then Some (b - 48)
     else if 97 \<le> b \<and> b \<le> 102 then Some (b - 87)
     else if 65 \<le> b \<and> b \<le> 70 then Some (b - 55)
     else None)"

definition upper_hex :: "nat \<Rightarrow> char" where
  "upper_hex n = ''0123456789ABCDEF'' ! n"

text \<open>\<open>shouldEscape(c, encodePath)\<close>.\<close>

definition should_escape :: "char \<Rightarrow> bool" where
  "should_escape c \<longleftrightarrow> \<not> (is_alnum c \<or> c \<in> set ''-_.~$&+,/:;=@'')"

fun escape_path :: "string \<Rightarrow> string" where
  "escape_path [] = []"
| "escape_path (c # cs) =
     (if should_escape c
      then CHR ''%'' # upper_hex (byte c div 16) # upper_hex (byte c mod 16) # escape_path cs
      else c # escape_path cs)"

text \<open>\<open>unescape\<close> in the modes for paths and fragments; None is the error of a malformed escape.\<close>

fun unescape :: "string \<Rightarrow> string option" where
  "unescape [] = Some []"
| "unescape (c # cs) =
     (if c = CHR ''%'' then
        (case cs of
           h # l # rest \<Rightarrow>
             (case (unhex h, unhex l) of
                (Some x, Some y) \<Rightarrow> map_option (\<lambda>r. char_of (16 * x + y) # r) (unescape rest)
              | _ \<Rightarrow> None)
         | _ \<Rightarrow> None)
      else map_option (\<lambda>r. c # r) (unescape cs))"

definition valid_encoded :: "string \<Rightarrow> bool" where
  "valid_encoded s \<longleftrightarrow> list_all (\<lambda>c. c \<in> set ''!$&()*+,;=:@[]%'' \<or> c = CHR 0x27 \<or> \<not> should_escape c) s"

section \<open>Parsing\<close>

record URL =
  u_Scheme :: string
  u_Opaque :: string
  u_Host :: string
  u_Path :: string
  u_RawPath :: string
  u_ForceQuery :: bool
  u_RawQuery :: string

definition zero_URL :: URL where
  "zero_URL = \<lparr>u_Scheme = [], u_Opaque = [], u_Host = [], u_Path = [], u_RawPath = [],
     u_ForceQuery = False, u_RawQuery = []\<rparr>"

text \<open>\<open>strings.Cut(s, sep)\<close> for a separator of one byte: before, after, found.\<close>

definition cut :: "char \<Rightarrow> string \<Rightarrow> string \<times> string \<times> bool" where
  "cut c s = (takeWhile (\<lambda>x. x \<noteq> c) s, drop 1 (dropWhile (\<lambda>x. x \<noteq> c) s), c \<in> set s)"

definition has_ctl :: "string \<Rightarrow> bool" where
  "has_ctl s \<longleftrightarrow> list_ex (\<lambda>c. byte c < 0x20 \<or> byte c = 0x7F) s"

definition is_letter :: "char \<Rightarrow> bool" where
  "is_letter c \<longleftrightarrow> (let b = byte c in (65 \<le> b \<and> b \<le> 90) \<or> (97 \<le> b \<and> b \<le> 122))"

text \<open>\<open>getScheme\<close>: the loop has read \<open>pre\<close> (in reverse order) and \<open>raw\<close> is the whole text.\<close>

fun get_scheme_loop :: "string \<Rightarrow> string \<Rightarrow> string \<Rightarrow> (string \<times> string) option" where
  "get_scheme_loop raw pre [] = Some ([], raw)"
| "get_scheme_loop raw pre (c # cs) =
     (if is_letter c then get_scheme_loop raw (c # pre) cs
      else if c \<in> set ''0123456789+-.'' then
        (if pre = [] then Some ([], raw) else get_scheme_loop raw (c # pre) cs)
      else if c = CHR '':'' then (if pre = [] then None else Some (rev pre, cs))
      else Some ([], raw))"

definition get_scheme :: "string \<Rightarrow> (string \<times> string) option" where
  "get_scheme raw = get_scheme_loop raw [] raw"

definition to_lower :: "char \<Rightarrow> char" where
  "to_lower c = (if 65 \<le> byte c \<and> byte c \<le> 90 then char_of (byte c + 32) else c)"

definition split_query :: "string \<Rightarrow> string \<times> bool \<times> string" where
  "split_query rest =
     (if rest \<noteq> [] \<and> last rest = CHR ''?'' \<and> length (filter (\<lambda>c. c = CHR ''?'') rest) = 1
      then (butlast rest, True, [])
      else case cut CHR ''?'' rest of (p, q, _) \<Rightarrow> (p, False, q))"

text \<open>The host part of an authority is what follows its last at sign.\<close>

definition parse_authority ::
  "(string \<Rightarrow> string option) \<Rightarrow> (string \<Rightarrow> bool) \<Rightarrow> string \<Rightarrow> string option" where
  "parse_authority ph ui authority =
     (if CHR ''@'' \<notin> set authority then ph authority
      else
        (case ph (rev (takeWhile (\<lambda>c. c \<noteq> CHR ''@'') (rev authority))) of
           None \<Rightarrow> None
         | Some host \<Rightarrow>
             if ui (rev (drop 1 (dropWhile (\<lambda>c. c \<noteq> CHR ''@'') (rev authority)))) then Some host else None))"

definition set_path :: "string \<Rightarrow> URL \<Rightarrow> URL option" where
  "set_path p u =
     (case unescape p of
        None \<Rightarrow> None
      | Some path \<Rightarrow> Some (u\<lparr>u_Path := path, u_RawPath := (if p = escape_path path then [] else p)\<rparr>))"

definition parse_url ::
  "(string \<Rightarrow> string option) \<Rightarrow> (string \<Rightarrow> bool) \<Rightarrow> string \<Rightarrow> URL option" where
  "parse_url ph ui raw =
     (if has_ctl raw then None
      else if raw = ''*'' then Some (zero_URL\<lparr>u_Path := ''*''\<rparr>)
      else case get_scheme raw of
        None \<Rightarrow> None
      | Some (scheme0, rest0) \<Rightarrow>
          let scheme = map to_lower scheme0 in
          (case split_query rest0 of (rest, force, query) \<Rightarrow>
             let u = zero_URL\<lparr>u_Scheme := scheme, u_ForceQuery := force, u_RawQuery := query\<rparr> in
             if \<not> prefix ''/'' rest \<and> scheme \<noteq> [] then Some (u\<lparr>u_Opaque := rest\<rparr>)
             else if \<not> prefix ''/'' rest \<and> CHR '':'' \<in> set (fst (cut CHR ''/'' rest)) then None
             else if (scheme \<noteq> [] \<or> \<not> prefix ''///'' rest) \<and> prefix ''//'' rest then
               let body = drop 2 rest;
                   authority = takeWhile (\<lambda>c. c \<noteq> CHR ''/'') body;
                   path = dropWhile (\<lambda>c. c \<noteq> CHR ''/'') body in
               (case parse_authority ph ui authority of
                  None \<Rightarrow> None
                | Some host \<Rightarrow> set_path path (u\<lparr>u_Host := host\<rparr>))
             else set_path rest u))"

text \<open>\<open>Parse\<close>: the fragment must decode and is not used further.\<close>

definition url_parse ::
  "(string \<Rightarrow> string option) \<Rightarrow> (string \<Rightarrow> bool) \<Rightarrow> string \<Rightarrow> URL option" where
  "url_parse ph ui raw =
     (case cut CHR ''#'' raw of (u, frag, _) \<Rightarrow>
        (case parse_url ph ui u of
           None \<Rightarrow> None
         | Some url \<Rightarrow> if frag = [] then Some url else if unescape frag = None then None else Some url))"

definition IsAbs :: "URL \<Rightarrow> bool" where
  "IsAbs u \<longleftrightarrow> u_Scheme u \<noteq> []"

definition EscapedPath :: "URL \<Rightarrow> string" where
  "EscapedPath u =
     (if u_RawPath u \<noteq> [] \<and> valid_encoded (u_RawPath u) \<and> unescape (u_RawPath u) = Some (u_Path u)
      then u_RawPath u
      else if u_Path u = ''*'' then ''*'' else escape_path (u_Path u))"

definition RequestURI :: "URL \<Rightarrow> string" where
  "RequestURI u =
     (let result =
        (if u_Opaque u = [] then (let p = EscapedPath u in if p = [] then ''/'' else p)
         else if prefix ''//'' (u_Opaque u) then u_Scheme u @ '':'' @ u_Opaque u else u_Opaque u)
      in if u_ForceQuery u \<or> u_RawQuery u \<noteq> [] then result @ ''?'' @ u_RawQuery u else result)"

section \<open>Escaping and unescaping\<close>

lemma hex_value_upper_hex: "n < 16 \<Longrightarrow> unhex (upper_hex n) = Some n"
proof -
  have "list_all (\<lambda>n. unhex (upper_hex n) = Some n) [0..<16]" by code_simp
  then show "n < 16 \<Longrightarrow> unhex (upper_hex n) = Some n" by (simp add: list_all_iff)
qed

lemma should_escape_percent: "should_escape CHR ''%''"
  by (simp add: should_escape_def is_alnum_def Let_def)

text \<open>Decoding undoes encoding.\<close>

lemma unescape_escape_path: "unescape (escape_path s) = Some s"
proof (induction s)
  case (Cons c cs)
  have "byte c div 16 < 16" using nat_of_char_less_256 [of c] by (simp add: less_mult_imp_div_less)
  then have "unhex (upper_hex (byte c div 16)) = Some (byte c div 16)"
    "unhex (upper_hex (byte c mod 16)) = Some (byte c mod 16)"
    by (simp_all add: hex_value_upper_hex)
  moreover have "char_of (16 * (byte c div 16) + byte c mod 16) = c" by simp
  moreover have "c \<noteq> CHR ''%''" if "\<not> should_escape c" using that should_escape_percent by blast
  ultimately show ?case using Cons by auto
qed simp


section \<open>Paths that stay on the site\<close>

text \<open>
  A reference that a browser resolves on the same site: it does not start with two slashes, nor with a
  slash and a backslash, which browsers read alike, and its first byte cannot start a scheme.
\<close>

definition local_reference :: "string \<Rightarrow> bool" where
  "local_reference r \<longleftrightarrow> r \<noteq> [] \<and> hd r \<in> {CHR ''/'', CHR ''%''}
     \<and> \<not> prefix ''//'' r \<and> \<not> prefix [CHR ''/'', CHR 0x5C] r"

lemma should_escape_backslash: "should_escape CHR 0x5C"
  by (simp add: should_escape_def is_alnum_def Let_def)

lemma valid_encoded_backslash: "valid_encoded s \<Longrightarrow> CHR 0x5C \<notin> set s"
proof
  assume "valid_encoded s" and "CHR 0x5C \<in> set s"
  then have "CHR 0x5C \<in> set ''!$&()*+,;=:@[]%'' \<or> CHR 0x5C = CHR 0x27 \<or> \<not> should_escape CHR 0x5C"
    unfolding valid_encoded_def list_all_iff by blast
  then show False using should_escape_backslash by simp
qed

lemma escape_path_hd: "escape_path (c # cs) = c # escape_path cs \<or> hd (escape_path (c # cs)) = CHR ''%''"
  by simp

lemma escape_path_local:
  assumes "prefix ''/'' p" and "\<not> prefix ''//'' p"
  shows "local_reference (escape_path p)"
proof -
  have ns: "\<not> should_escape CHR ''/''" by (simp add: should_escape_def)
  obtain cs where p: "p = CHR ''/'' # cs" using assms(1) by (cases p) auto
  have "cs = [] \<or> (hd (escape_path cs) \<noteq> CHR ''/'' \<and> hd (escape_path cs) \<noteq> CHR 0x5C)"
    using assms(2) p should_escape_backslash by (cases cs) auto
  then show ?thesis using p ns by (cases cs) (auto simp: local_reference_def)
qed

lemma raw_path_local:
  assumes "unescape r = Some p" and "valid_encoded r" and "prefix ''/'' p" and "\<not> prefix ''//'' p"
  shows "local_reference r"
proof (cases r)
  case Nil
  then show ?thesis using assms(1,3) by auto
next
  case (Cons c cs)
  have nb: "CHR 0x5C \<notin> set r" using valid_encoded_backslash [OF assms(2)] .
  show ?thesis
  proof (cases "c = CHR ''%''")
    case True
    then show ?thesis using Cons by (auto simp: local_reference_def)
  next
    case False
    then obtain q where q: "unescape cs = Some q" "p = c # q" using Cons assms(1) by auto
    then have c: "c = CHR ''/''" using assms(3) by simp
    have "\<not> prefix ''/'' cs"
      using q c assms(4) by (cases cs) (auto split: if_splits)
    then show ?thesis using Cons c nb by (cases cs) (auto simp: local_reference_def)
  qed
qed

lemma local_reference_append: "local_reference r \<Longrightarrow> local_reference (r @ ''?'' @ q)"
  by (cases r; cases "tl r") (auto simp: local_reference_def)

lemma EscapedPath_local:
  assumes "prefix ''/'' (u_Path u)" and "\<not> prefix ''//'' (u_Path u)"
  shows "local_reference (EscapedPath u)"
  using assms raw_path_local [of "u_RawPath u" "u_Path u"] escape_path_local [of "u_Path u"]
  by (auto simp: EscapedPath_def)

lemma parse_url_opaque: "parse_url ph ui raw = Some u \<Longrightarrow> u_Scheme u = [] \<Longrightarrow> u_Opaque u = []"
  by (auto simp: parse_url_def zero_URL_def set_path_def Let_def split: if_splits option.splits prod.splits)

lemma RequestURI_local:
  assumes "u_Opaque u = []" and "prefix ''/'' (u_Path u)" and "\<not> prefix ''//'' (u_Path u)"
  shows "local_reference (RequestURI u)"
proof -
  have "local_reference (EscapedPath u)" "EscapedPath u \<noteq> []"
    using EscapedPath_local [OF assms(2,3)] by (auto simp: local_reference_def)
  then show ?thesis
    using assms(1) local_reference_append by (auto simp: RequestURI_def Let_def)
qed

end
