(* ===== verification/App_Config.thy ===== *)
theory App_Config
  imports Go_Url "HOL-Library.Word"
begin

text \<open>
  \<open>internal/platform/config/config.go\<close>: the configuration of the processes, read from environment
  variables and validated. The pool sizes are 32-bit integers, as in the code, and their sum wraps
  around as it does there. The process environment is an argument: its variables, and
  \<open>time.ParseDuration\<close>, whose fractions are computed in floating point; a duration is an integer number
  of nanoseconds.
\<close>

section \<open>Types\<close>

type_synonym Role = string

definition RoleAPI :: Role where "RoleAPI = ''api''"
definition RoleWorker :: Role where "RoleWorker = ''worker''"

record HTTPConfig =
  h_Address :: string

record DatabaseConfig =
  d_URL :: string
  d_APIMaxConns :: "32 word"
  d_WorkerMaxConns :: "32 word"
  d_MaxBudget :: "32 word"
  d_StatementTimeout :: int
  d_LockTimeout :: int

record AuthConfig =
  a_IssuerURL :: string
  a_ClientID :: string
  a_ClientSecret :: string
  a_Audience :: string
  a_RedirectURL :: string
  a_CookieName :: string
  a_CookieSecure :: bool
  a_SessionTTL :: int
  a_BootstrapSubjects :: "string list"

record JobsConfig =
  j_EmbeddingConcurrency :: int
  j_ReportConcurrency :: int
  j_VisionConcurrency :: int
  j_TranscriptionConcurrency :: int

record Config =
  c_Environment :: string
  c_Role :: Role
  c_HTTP :: HTTPConfig
  c_Database :: DatabaseConfig
  c_Auth :: AuthConfig
  c_Jobs :: JobsConfig

text \<open>The process environment: \<open>os.LookupEnv\<close>, \<open>time.ParseDuration\<close> and the library's reading of the
  authority of a URL.\<close>

record process_env =
  pe_var :: "string \<Rightarrow> string option"
  pe_duration :: "string \<Rightarrow> int option"
  pe_host :: "string \<Rightarrow> string option"
  pe_userinfo :: "string \<Rightarrow> bool"

section \<open>Reading variables\<close>

definition ParseBool :: "string \<Rightarrow> bool option" where
  "ParseBool s =
     (if s \<in> {''1'', ''t'', ''T'', ''true'', ''TRUE'', ''True''} then Some True
      else if s \<in> {''0'', ''f'', ''F'', ''false'', ''FALSE'', ''False''} then Some False
      else None)"

definition env_value :: "process_env \<Rightarrow> string \<Rightarrow> string \<Rightarrow> string" where
  "env_value P name fallback = (case pe_var P name of Some value \<Rightarrow> value | None \<Rightarrow> fallback)"

definition envInt :: "process_env \<Rightarrow> string \<Rightarrow> int \<Rightarrow> int" where
  "envInt P name fallback =
     (case pe_var P name of
        None \<Rightarrow> fallback
      | Some raw \<Rightarrow> (case Atoi raw of None \<Rightarrow> fallback | Some value \<Rightarrow> value))"

definition envBool :: "process_env \<Rightarrow> string \<Rightarrow> bool \<Rightarrow> bool" where
  "envBool P name fallback =
     (case pe_var P name of
        None \<Rightarrow> fallback
      | Some raw \<Rightarrow> (case ParseBool raw of None \<Rightarrow> fallback | Some value \<Rightarrow> value))"

definition envDuration :: "process_env \<Rightarrow> string \<Rightarrow> int \<Rightarrow> int" where
  "envDuration P name fallback =
     (case pe_var P name of
        None \<Rightarrow> fallback
      | Some raw \<Rightarrow> (case pe_duration P raw of None \<Rightarrow> fallback | Some value \<Rightarrow> value))"

definition envCSV :: "process_env \<Rightarrow> string \<Rightarrow> string list" where
  "envCSV P name =
     (let raw = TrimSpace (case pe_var P name of None \<Rightarrow> [] | Some v \<Rightarrow> v) in
      if raw = [] then []
      else filter (\<lambda>value. value \<noteq> []) (map TrimSpace (split_on CHR '','' raw)))"

definition second :: int where "second = 1000000000"

definition load_config :: "process_env \<Rightarrow> Role \<Rightarrow> Config" where
  "load_config P role =
     \<lparr>c_Environment = env_value P ''APP_ENV'' ''development'',
      c_Role = role,
      c_HTTP = \<lparr>h_Address = env_value P ''HTTP_ADDRESS'' '':8080''\<rparr>,
      c_Database =
        \<lparr>d_URL = env_value P ''DATABASE_URL'' [],
         d_APIMaxConns = word_of_int (envInt P ''DATABASE_API_MAX_CONNS'' 10),
         d_WorkerMaxConns = word_of_int (envInt P ''DATABASE_WORKER_MAX_CONNS'' 10),
         d_MaxBudget = word_of_int (envInt P ''DATABASE_MAX_CONNECTION_BUDGET'' 25),
         d_StatementTimeout = envDuration P ''DATABASE_STATEMENT_TIMEOUT'' (15 * second),
         d_LockTimeout = envDuration P ''DATABASE_LOCK_TIMEOUT'' (3 * second)\<rparr>,
      c_Auth =
        \<lparr>a_IssuerURL = env_value P ''OIDC_ISSUER_URL'' [],
         a_ClientID = env_value P ''OIDC_CLIENT_ID'' [],
         a_ClientSecret = env_value P ''OIDC_CLIENT_SECRET'' [],
         a_Audience = env_value P ''OIDC_AUDIENCE'' ''skawld-api'',
         a_RedirectURL = env_value P ''OIDC_REDIRECT_URL'' ''http://localhost:8080/auth/callback'',
         a_CookieName = env_value P ''SESSION_COOKIE_NAME'' ''skawld_session'',
         a_CookieSecure = envBool P ''SESSION_COOKIE_SECURE'' True,
         a_SessionTTL = envDuration P ''SESSION_TTL'' (8 * 3600 * second),
         a_BootstrapSubjects = envCSV P ''BOOTSTRAP_OIDC_SUBJECTS''\<rparr>,
      c_Jobs =
        \<lparr>j_EmbeddingConcurrency = envInt P ''JOB_CONCURRENCY_EMBEDDING'' 5,
         j_ReportConcurrency = envInt P ''JOB_CONCURRENCY_REPORT'' 10,
         j_VisionConcurrency = envInt P ''JOB_CONCURRENCY_VISION'' 3,
         j_TranscriptionConcurrency = envInt P ''JOB_CONCURRENCY_TRANSCRIPTION'' 3\<rparr>\<rparr>"

section \<open>Validation\<close>

definition err_if :: "bool \<Rightarrow> string \<Rightarrow> goerr option" where
  "err_if b m = (if b then Some (Errorf m) else None)"

lemma err_if_None [simp]: "err_if b m = None \<longleftrightarrow> \<not> b"
  by (simp add: err_if_def)

text \<open>\<open>Validate\<close> collects every error; the order in which the four job sizes are visited is that of a
  Go map, and is fixed here.\<close>

definition validate_database :: "DatabaseConfig \<Rightarrow> goerr option list" where
  "validate_database d =
     [err_if (TrimSpace (d_URL d) = []) ''DATABASE_URL is required'',
      err_if (sint (d_APIMaxConns d) \<le> 0 \<or> sint (d_WorkerMaxConns d) \<le> 0)
        ''database pool sizes must be positive'',
      err_if (sint (d_MaxBudget d) \<le> 0) ''database connection budget must be positive'',
      err_if (d_StatementTimeout d \<le> 0 \<or> d_LockTimeout d \<le> 0)
        ''database statement and lock timeouts must be positive'',
      err_if (sint (d_APIMaxConns d + d_WorkerMaxConns d) > sint (d_MaxBudget d))
        ''API and worker pools exceed DATABASE_MAX_CONNECTION_BUDGET'']"

definition validate_api :: "process_env \<Rightarrow> Config \<Rightarrow> goerr option list" where
  "validate_api P c =
     (let a = c_Auth c in
      [err_if (TrimSpace (a_IssuerURL a) = []) ''OIDC_ISSUER_URL is required for API role'',
       err_if (TrimSpace (a_ClientID a) = []) ''OIDC_CLIENT_ID is required for API role'',
       err_if (TrimSpace (a_ClientSecret a) = []) ''OIDC_CLIENT_SECRET is required for API role'',
       err_if (TrimSpace (a_Audience a) = []) ''OIDC_AUDIENCE is required for API role'',
       err_if (case url_parse (pe_host P) (pe_userinfo P) (a_RedirectURL a) of
                 None \<Rightarrow> True
               | Some redirect \<Rightarrow> u_Scheme redirect = [] \<or> u_Host redirect = [])
         ''OIDC_REDIRECT_URL must be an absolute URL'',
       err_if (TrimSpace (a_CookieName a) = []) ''SESSION_COOKIE_NAME is required'',
       err_if (c_Environment c \<noteq> ''development'' \<and> c_Environment c \<noteq> ''test'' \<and> \<not> a_CookieSecure a)
         ''SESSION_COOKIE_SECURE must be true outside development/test''])"

definition Validate :: "process_env \<Rightarrow> Config \<Rightarrow> goerr option" where
  "Validate P c = errors_Join
     ([err_if (c_Role c \<noteq> RoleAPI \<and> c_Role c \<noteq> RoleWorker) ''unsupported process role'']
      @ validate_database (c_Database c)
      @ (if c_Role c = RoleAPI then validate_api P c else [])
      @ [err_if (a_SessionTTL (c_Auth c) \<le> 0) ''SESSION_TTL must be positive'',
         err_if (j_EmbeddingConcurrency (c_Jobs c) \<le> 0) ''embedding job concurrency must be positive'',
         err_if (j_ReportConcurrency (c_Jobs c) \<le> 0) ''report job concurrency must be positive'',
         err_if (j_VisionConcurrency (c_Jobs c) \<le> 0) ''vision job concurrency must be positive'',
         err_if (j_TranscriptionConcurrency (c_Jobs c) \<le> 0)
           ''transcription job concurrency must be positive''])"

definition int_names :: "string list" where
  "int_names = [''DATABASE_API_MAX_CONNS'', ''DATABASE_WORKER_MAX_CONNS'',
     ''DATABASE_MAX_CONNECTION_BUDGET'', ''JOB_CONCURRENCY_EMBEDDING'', ''JOB_CONCURRENCY_REPORT'',
     ''JOB_CONCURRENCY_VISION'', ''JOB_CONCURRENCY_TRANSCRIPTION'']"

definition duration_names :: "string list" where
  "duration_names = [''DATABASE_STATEMENT_TIMEOUT'', ''DATABASE_LOCK_TIMEOUT'', ''SESSION_TTL'']"

definition check_var :: "process_env \<Rightarrow> (string \<Rightarrow> bool) \<Rightarrow> string \<Rightarrow> string \<Rightarrow> goerr option" where
  "check_var P good what name =
     (case pe_var P name of
        None \<Rightarrow> None
      | Some raw \<Rightarrow> err_if (\<not> good raw) (name @ '' must be '' @ what))"

definition validateEnvironmentValues :: "process_env \<Rightarrow> goerr option" where
  "validateEnvironmentValues P = errors_Join
     (map (check_var P (\<lambda>raw. Atoi raw \<noteq> None) ''an integer'') int_names
      @ map (check_var P (\<lambda>raw. pe_duration P raw \<noteq> None) ''a duration'') duration_names
      @ [check_var P (\<lambda>raw. ParseBool raw \<noteq> None) ''a boolean'' ''SESSION_COOKIE_SECURE''])"

text \<open>\<open>Load\<close> returns the configuration together with the error; nil is None.\<close>

definition Load :: "process_env \<Rightarrow> Role \<Rightarrow> Config \<times> goerr option" where
  "Load P role =
     (let cfg = load_config P role in
      (cfg, errors_Join [Validate P cfg, validateEnvironmentValues P]))"


section \<open>Laws\<close>

lemma Validate_None:
  "Validate P c = None \<longleftrightarrow>
     (c_Role c = RoleAPI \<or> c_Role c = RoleWorker)
     \<and> (\<forall>e \<in> set (validate_database (c_Database c)). e = None)
     \<and> (c_Role c = RoleAPI \<longrightarrow> (\<forall>e \<in> set (validate_api P c). e = None))
     \<and> 0 < a_SessionTTL (c_Auth c)
     \<and> 0 < j_EmbeddingConcurrency (c_Jobs c) \<and> 0 < j_ReportConcurrency (c_Jobs c)
     \<and> 0 < j_VisionConcurrency (c_Jobs c) \<and> 0 < j_TranscriptionConcurrency (c_Jobs c)"
  unfolding Validate_def errors_Join_None by (simp add: ball_Un) (auto simp: not_le)

lemma validate_database_None:
  "(\<forall>e \<in> set (validate_database d). e = None) \<longleftrightarrow>
     TrimSpace (d_URL d) \<noteq> [] \<and> 0 < sint (d_APIMaxConns d) \<and> 0 < sint (d_WorkerMaxConns d)
     \<and> 0 < sint (d_MaxBudget d) \<and> 0 < d_StatementTimeout d \<and> 0 < d_LockTimeout d
     \<and> sint (d_APIMaxConns d + d_WorkerMaxConns d) \<le> sint (d_MaxBudget d)"
  by (auto simp: validate_database_def not_le)

text \<open>The sum of two positive 32-bit numbers is their sum, or it is negative.\<close>

lemma sint_add_positive:
  fixes a b :: "32 word"
  assumes "0 < sint a" and "0 < sint b"
  shows "sint (a + b) = (if sint a + sint b < 2 ^ 31 then sint a + sint b else sint a + sint b - 2 ^ 32)"
proof -
  let ?s = "sint a + sint b"
  have b: "sint a < 2 ^ 31" "sint b < 2 ^ 31"
    using sint_lt [of a] sint_lt [of b] by simp_all
  have wrap: "(?s + 2147483648) mod 4294967296 = ?s - 2147483648" if "\<not> ?s < 2147483648"
  proof -
    have "(?s + 2147483648) mod 4294967296 = ((?s - 2147483648) + 4294967296) mod 4294967296"
      by (simp add: add_ac)
    also have "\<dots> = ?s - 2147483648"
      unfolding mod_add_self2 using that b by (intro mod_pos_pos_trivial) auto
    finally show ?thesis .
  qed
  show ?thesis
    using assms b wrap unfolding sint_word_ariths
    by (auto simp: signed_take_bit_eq_take_bit_shift take_bit_eq_mod)
qed

lemma sint_word_of_int_in_range:
  "- (2 ^ 31) \<le> i \<Longrightarrow> i < 2 ^ 31 \<Longrightarrow> sint (word_of_int i :: 32 word) = i"
  by (simp add: sint_sbintrunc' signed_take_bit_int_eq_self)

lemma Load_ok:
  "snd (Load P role) = None \<longleftrightarrow> Validate P (load_config P role) = None \<and> validateEnvironmentValues P = None"
  by (auto simp: Load_def Let_def errors_Join_None)

lemma validateEnvironmentValues_None:
  "validateEnvironmentValues P = None \<longleftrightarrow>
     (\<forall>name \<in> set int_names. \<forall>raw. pe_var P name = Some raw \<longrightarrow> Atoi raw \<noteq> None)
     \<and> (\<forall>name \<in> set duration_names. \<forall>raw. pe_var P name = Some raw \<longrightarrow> pe_duration P raw \<noteq> None)
     \<and> (\<forall>raw. pe_var P ''SESSION_COOKIE_SECURE'' = Some raw \<longrightarrow> ParseBool raw \<noteq> None)"
proof -
  have c: "check_var P good what name = None \<longleftrightarrow> (\<forall>raw. pe_var P name = Some raw \<longrightarrow> good raw)" for good what name
    by (simp add: check_var_def split: option.split)
  show ?thesis
    unfolding validateEnvironmentValues_def errors_Join_None by (simp add: ball_Un c conj_ac)
qed


section \<open>Properties\<close>

text \<open>An environment with the variables an API process needs.\<close>

definition sample_process :: process_env where
  "sample_process = \<lparr>pe_var = map_of [(''DATABASE_URL'', ''postgres://db''), (''OIDC_ISSUER_URL'', ''https://id''),
       (''OIDC_CLIENT_ID'', ''c''), (''OIDC_CLIENT_SECRET'', ''s''), (''DATABASE_API_MAX_CONNS'', ''20''),
       (''DATABASE_MAX_CONNECTION_BUDGET'', ''30''), (''BOOTSTRAP_OIDC_SUBJECTS'', ''a,b'')],
     pe_duration = (\<lambda>_. None), pe_host = (\<lambda>h. Some h), pe_userinfo = (\<lambda>_. True)\<rparr>"

text \<open>
  C27. Accepted pool sizes: a configuration that validates has positive pools and a positive budget, and
  either the two pools together fit the budget or their sum, as a number, exceeds what the 32-bit
  addition can represent.
\<close>

theorem validate_pool_budget:
  assumes "Validate P c = None"
  shows "0 < sint (d_APIMaxConns (c_Database c)) \<and> 0 < sint (d_WorkerMaxConns (c_Database c))
     \<and> 0 < sint (d_MaxBudget (c_Database c))
     \<and> (sint (d_APIMaxConns (c_Database c)) + sint (d_WorkerMaxConns (c_Database c))
          \<le> sint (d_MaxBudget (c_Database c))
        \<or> 2 ^ 31 \<le> sint (d_APIMaxConns (c_Database c)) + sint (d_WorkerMaxConns (c_Database c)))"
proof -
  have d: "0 < sint (d_APIMaxConns (c_Database c))" "0 < sint (d_WorkerMaxConns (c_Database c))"
    "0 < sint (d_MaxBudget (c_Database c))"
    "sint (d_APIMaxConns (c_Database c) + d_WorkerMaxConns (c_Database c)) \<le> sint (d_MaxBudget (c_Database c))"
    using assms unfolding Validate_None validate_database_None by auto
  then show ?thesis using sint_add_positive [OF d(1,2)] by (auto split: if_splits)
qed

text \<open>The addition wraps: two pools of 1073741824 connections pass a budget of 1.\<close>

definition overflow_config :: Config where
  "overflow_config = \<lparr>c_Environment = ''test'', c_Role = RoleWorker, c_HTTP = \<lparr>h_Address = []\<rparr>,
     c_Database = \<lparr>d_URL = ''db'', d_APIMaxConns = 1073741824, d_WorkerMaxConns = 1073741824,
       d_MaxBudget = 1, d_StatementTimeout = 1, d_LockTimeout = 1\<rparr>,
     c_Auth = \<lparr>a_IssuerURL = [], a_ClientID = [], a_ClientSecret = [], a_Audience = [],
       a_RedirectURL = [], a_CookieName = [], a_CookieSecure = False, a_SessionTTL = 1,
       a_BootstrapSubjects = []\<rparr>,
     c_Jobs = \<lparr>j_EmbeddingConcurrency = 1, j_ReportConcurrency = 1, j_VisionConcurrency = 1,
       j_TranscriptionConcurrency = 1\<rparr>\<rparr>"

lemma TrimSpace_db: "TrimSpace ''db'' = ''db''"
  by (simp add: TrimSpace_id_iff space_runes_def suffix_to_prefix)

lemma validate_pool_overflow: "Validate P overflow_config = None"
  unfolding Validate_None validate_database_None
  by (simp add: overflow_config_def RoleWorker_def RoleAPI_def TrimSpace_db)

theorem validate_pool_budget_witness:
  "0 < sint (d_APIMaxConns (c_Database overflow_config))
   \<and> 2 ^ 31 \<le> sint (d_APIMaxConns (c_Database overflow_config)) + sint (d_WorkerMaxConns (c_Database overflow_config))"
  using validate_pool_budget [OF validate_pool_overflow [of sample_process]] by (simp add: overflow_config_def)



lemma sample_config_trim: "TrimSpace ''postgres://db'' = ''postgres://db''" "TrimSpace ''https://id'' = ''https://id''"
  "TrimSpace ''c'' = ''c''" "TrimSpace ''s'' = ''s''" "TrimSpace ''skawld-api'' = ''skawld-api''"
  "TrimSpace ''skawld_session'' = ''skawld_session''"
  by (simp_all add: TrimSpace_id_iff space_runes_def suffix_to_prefix)

lemma sample_Atoi: "Atoi ''20'' = Some 20" "Atoi ''30'' = Some 30"
  by (simp_all add: Atoi_def decimal_def is_digit_def int64_range_def)

lemma sample_redirect:
  "\<exists>u. url_parse (\<lambda>h. Some h) (\<lambda>_. True) ''http://localhost:8080/auth/callback'' = Some u
     \<and> u_Scheme u = ''http'' \<and> u_Host u = ''localhost:8080''"
  by (simp add: url_parse_def cut_def parse_url_def has_ctl_def get_scheme_def is_letter_def Let_def
        to_lower_def split_query_def parse_authority_def set_path_def zero_URL_def)

lemma sample_load: "snd (Load sample_process RoleAPI) = None"
proof -
  obtain u where u: "url_parse (\<lambda>h. Some h) (\<lambda>_. True) ''http://localhost:8080/auth/callback'' = Some u"
    "u_Scheme u = ''http''" "u_Host u = ''localhost:8080''" using sample_redirect by blast
  have "Validate sample_process (load_config sample_process RoleAPI) = None"
    unfolding Validate_None validate_database_None
    by (simp add: load_config_def sample_process_def validate_api_def Let_def u env_value_def envInt_def
          envDuration_def envBool_def second_def sample_config_trim sample_Atoi)
  moreover have "validateEnvironmentValues sample_process = None"
    unfolding validateEnvironmentValues_None
    by (simp add: sample_process_def int_names_def duration_names_def sample_Atoi)
  ultimately show ?thesis by (simp add: Load_ok)
qed


text \<open>
  Bootstrap subjects are clean: each entry of a comma-separated variable is trimmed, not empty and
  free of commas, so that a blank entry never grants a permission to a blank subject.
\<close>

lemma envCSV_clean:
  assumes "x \<in> set (envCSV P name)"
  shows "x \<noteq> [] \<and> TrimSpace x = x \<and> CHR '','' \<notin> set x"
proof -
  obtain y raw where y: "y \<in> set (split_on CHR '','' raw)" "x = TrimSpace y" "x \<noteq> []"
    using assms by (auto simp: envCSV_def Let_def split: if_splits)
  have "set (TrimSpace y) \<subseteq> set y" using TrimSpace_sublist [of y] by (meson set_mono_sublist)
  then show ?thesis using y split_on_no_sep [OF y(1)] by auto
qed

text \<open>Sizes beyond 32 bits are cut: a pool of 4294967306 connections is read as 10.\<close>

lemma load_truncates:
  "sint (d_APIMaxConns (c_Database (load_config
     (sample_process\<lparr>pe_var := [''DATABASE_API_MAX_CONNS'' \<mapsto> ''4294967306'']\<rparr>) RoleAPI))) = 10"
proof -
  have "Atoi ''4294967306'' = Some 4294967306"
    by (simp add: Atoi_def decimal_def is_digit_def int64_range_def)
  then show ?thesis by (simp add: load_config_def envInt_def)
qed

end
