(* ===== verification/Go_Base64.thy ===== *)
theory Go_Base64
  imports Go_Strings
begin

text \<open>
  \<open>base64.RawURLEncoding\<close> of \<open>encoding/base64\<close>: groups of three bytes become four characters of the
  URL-safe alphabet, a rest of one or two bytes becomes two or three, without padding.
\<close>

definition b64_alphabet :: string where
  "b64_alphabet = ''ABCDEFGHIJKLMNOPQRSTUVWXYZabcdefghijklmnopqrstuvwxyz0123456789-_''"

fun sextets :: "nat list \<Rightarrow> nat list" where
  "sextets [] = []"
| "sextets [a] = [a div 4, a mod 4 * 16]"
| "sextets [a, b] = [a div 4, a mod 4 * 16 + b div 16, b mod 16 * 4]"
| "sextets (a # b # c # rest) =
     a div 4 # (a mod 4 * 16 + b div 16) # (b mod 16 * 4 + c div 64) # (c mod 64) # sextets rest"

definition EncodeToString :: "string \<Rightarrow> string" where
  "EncodeToString s = map (\<lambda>n. b64_alphabet ! n) (sextets (map byte s))"

section \<open>The encoding is injective and safe in cookies\<close>

fun unsextets :: "nat list \<Rightarrow> nat list" where
  "unsextets (p # q # r # s # rest) =
     (p * 4 + q div 16) # (q mod 16 * 16 + r div 4) # (r mod 4 * 64 + s) # unsextets rest"
| "unsextets [p, q, r] = [p * 4 + q div 16, q mod 16 * 16 + r div 4]"
| "unsextets [p, q] = [p * 4 + q div 16]"
| "unsextets _ = []"

lemma byte_parts:
  fixes a b c :: nat
  assumes "b < 256" "c < 256"
  shows "a div 4 * 4 + (a mod 4 * 16 + b div 16) div 16 = a"
    "(a mod 4 * 16 + b div 16) mod 16 * 16 + (b mod 16 * 4 + c div 64) div 4 = b"
    "(b mod 16 * 4 + c div 64) mod 4 * 64 + c mod 64 = c"
proof -
  have b: "b div 16 < 16" and c: "c div 64 < 4"
    using assms by (simp_all add: less_mult_imp_div_less)
  show "a div 4 * 4 + (a mod 4 * 16 + b div 16) div 16 = a" using b by simp
  have "(b mod 16 * 4 + c div 64) div 4 = b mod 16" using c by simp
  moreover have "(a mod 4 * 16 + b div 16) mod 16 = b div 16" using b by simp
  ultimately show "(a mod 4 * 16 + b div 16) mod 16 * 16 + (b mod 16 * 4 + c div 64) div 4 = b" by simp
  have "(b mod 16 * 4 + c div 64) mod 4 = c div 64" using c by simp
  then show "(b mod 16 * 4 + c div 64) mod 4 * 64 + c mod 64 = c" by simp
qed

lemma unsextets_sextets: "\<forall>x \<in> set xs. x < 256 \<Longrightarrow> unsextets (sextets xs) = xs"
proof (induction xs rule: sextets.induct)
  case (2 a)
  then show ?case by simp
next
  case (3 a b)
  then show ?case using byte_parts(1,2) [of b 0 a] by simp
next
  case (4 a b c rest)
  then show ?case using byte_parts(1,2) [of b c a] byte_parts(3) [of b c] by simp
qed simp

lemma sextets_bound: "\<forall>x \<in> set xs. x < 256 \<Longrightarrow> y \<in> set (sextets xs) \<Longrightarrow> y < 64"
proof (induction xs rule: sextets.induct)
  case (4 a b c rest)
  have "a div 4 < 64" "b div 16 < 16" "c div 64 < 4"
    using 4 by (simp_all add: less_mult_imp_div_less)
  moreover have "a mod 4 < 4" "b mod 16 < 16" by simp_all
  ultimately show ?case using 4 by (auto simp del: mod_less_divisor)
next
  case (3 a b)
  have "a div 4 < 64" "b div 16 < 16" using 3 by (simp_all add: less_mult_imp_div_less)
  moreover have "a mod 4 < 4" "b mod 16 < 16" by simp_all
  ultimately show ?case using 3 by (auto simp del: mod_less_divisor)
next
  case (2 a)
  have "a div 4 < 64" using 2 by (simp add: less_mult_imp_div_less)
  moreover have "a mod 4 < 4" by simp
  ultimately show ?case using 2 by (auto simp del: mod_less_divisor)
qed simp

lemma b64_alphabet_bytes: "map byte b64_alphabet = [65..<91] @ [97..<123] @ [48..<58] @ [45, 95]"
  by (simp add: b64_alphabet_def upt_rec_numeral)

lemma b64_alphabet_facts: "distinct b64_alphabet" "length b64_alphabet = 64"
proof -
  have "distinct (map byte b64_alphabet)" unfolding b64_alphabet_bytes distinct_append by simp
  then show "distinct b64_alphabet" unfolding distinct_map by blast
  have "length (map byte b64_alphabet) = 64" unfolding b64_alphabet_bytes by simp
  then show "length b64_alphabet = 64" unfolding length_map .
qed

lemma unsextets_map_byte: "unsextets (sextets (map byte s)) = map byte s"
  by (rule unsextets_sextets) simp

lemma EncodeToString_inj: "EncodeToString s = EncodeToString t \<Longrightarrow> s = t"
proof -
  assume eq: "EncodeToString s = EncodeToString t"
  have in_range: "\<forall>n \<in> set (sextets (map byte u)). n < 64" for u
    using sextets_bound [of "map byte u"] by auto
  have "inj_on (\<lambda>n. b64_alphabet ! n) {..<64}"
    using b64_alphabet_facts by (simp add: inj_on_def nth_eq_iff_index_eq)
  then have "inj_on (\<lambda>n. b64_alphabet ! n) (set (sextets (map byte s)) \<union> set (sextets (map byte t)))"
    by (rule inj_on_subset) (use in_range in blast)
  then have "sextets (map byte s) = sextets (map byte t)"
    by (rule map_inj_on [OF eq [unfolded EncodeToString_def]])
  then have "unsextets (sextets (map byte s)) = unsextets (sextets (map byte t))" by (rule arg_cong)
  then have "map byte s = map byte t" by (simp only: unsextets_map_byte)
  then show "s = t" by (rule map_injective) (simp add: inj_def)
qed

lemma EncodeToString_alphabet: "set (EncodeToString s) \<subseteq> set b64_alphabet"
  using sextets_bound [of "map byte s"] b64_alphabet_facts(2)
  by (auto simp: EncodeToString_def)

lemma length_sextets: "length (sextets xs) = (length xs * 4 + 2) div 3"
  by (induction xs rule: sextets.induct) auto

end
