(* ===== verification/Oidc.thy ===== *)
theory Oidc
  imports Http Auth_Repository App_Config Go_Base64
begin

text \<open>
  \<open>internal/platform/auth/oidc.go\<close>: login with an OpenID Connect provider, the session cookie and the
  authentication of API requests. What lies outside the repository is the record \<open>provider\<close>: building
  the authorization URL, exchanging a code, verifying a token for an audience (which yields the JSON
  payload of the token), and the generator of PKCE verifiers; its answers may depend on when they are
  asked, which is the number of calls made over the database connection so far.
\<close>

section \<open>Service\<close>

record OAuth2Config =
  oa_ClientID :: string
  oa_ClientSecret :: string
  oa_RedirectURL :: string
  oa_Scopes :: "string list"

record provider =
  pr_auth_url :: "OAuth2Config \<Rightarrow> string \<Rightarrow> string \<Rightarrow> string \<Rightarrow> string"
  pr_exchange :: "OAuth2Config \<Rightarrow> nat \<Rightarrow> string \<Rightarrow> string \<Rightarrow> goerr + string option"
  pr_verify :: "string \<Rightarrow> nat \<Rightarrow> string \<Rightarrow> goerr + string"
  pr_verifier :: "nat \<Rightarrow> string"

record Service =
  sv_config :: AuthConfig
  sv_oauth :: OAuth2Config
  sv_provider :: provider
  sv_webAudience :: string
  sv_bearerAudience :: string
  sv_bootstrapSubjects :: "string set"

text \<open>\<open>New\<close>, given the result of discovering the provider under the issuer's URL.\<close>

definition New_Service :: "(string \<Rightarrow> goerr + provider) \<Rightarrow> AuthConfig \<Rightarrow> goerr + Service" where
  "New_Service discover cfg =
     (case discover (a_IssuerURL cfg) of
        Inl err \<Rightarrow> Inl (Wrap ''discover OIDC provider'' err)
      | Inr prov \<Rightarrow>
          let audience = (if a_Audience cfg = [] then a_ClientID cfg else a_Audience cfg) in
          Inr \<lparr>sv_config = cfg,
               sv_oauth = \<lparr>oa_ClientID = a_ClientID cfg, oa_ClientSecret = a_ClientSecret cfg,
                  oa_RedirectURL = a_RedirectURL cfg, oa_Scopes = [''openid'', ''profile'', ''email'']\<rparr>,
               sv_provider = prov, sv_webAudience = a_ClientID cfg, sv_bearerAudience = audience,
               sv_bootstrapSubjects = set (a_BootstrapSubjects cfg)\<rparr>)"

section \<open>Tokens and return paths\<close>

definition randomToken :: "env \<Rightarrow> string prog" where
  "randomToken E = (\<lambda>w. let w1 = w\<lparr>rands := Suc (rands w)\<rparr> in
     case env_rand E (rands w) of
       None \<Rightarrow> (Inl (Errorf ''random source''), w1)
     | Some buffer \<Rightarrow> (Inr (EncodeToString buffer), w1))"

definition safeReturnTo :: "process_env \<Rightarrow> string \<Rightarrow> string" where
  "safeReturnTo P raw =
     (if raw = [] then ''/''
      else case url_parse (pe_host P) (pe_userinfo P) raw of
        None \<Rightarrow> ''/''
      | Some parsed \<Rightarrow>
          if IsAbs parsed \<or> u_Host parsed \<noteq> [] \<or> \<not> prefix ''/'' (u_Path parsed) \<or> prefix ''//'' (u_Path parsed)
          then ''/''
          else RequestURI parsed)"

record raw_claims =
  rc_Subject :: string
  rc_Name :: string
  rc_PreferredUsername :: string
  rc_Email :: string
  rc_Nonce :: string

record tokenClaims =
  tc_Identity :: IdentityClaims
  tc_Nonce :: string

definition claims_member :: "string \<times> json \<Rightarrow> raw_claims option \<Rightarrow> raw_claims option" where
  "claims_member m acc =
     (case acc of
        None \<Rightarrow> None
      | Some c \<Rightarrow>
          if key_matches ''sub'' (fst m) then set_string (snd m) (\<lambda>s. rc_Subject_update (\<lambda>_. s)) c
          else if key_matches ''name'' (fst m) then set_string (snd m) (\<lambda>s. rc_Name_update (\<lambda>_. s)) c
          else if key_matches ''preferred_username'' (fst m)
            then set_string (snd m) (\<lambda>s. rc_PreferredUsername_update (\<lambda>_. s)) c
          else if key_matches ''email'' (fst m) then set_string (snd m) (\<lambda>s. rc_Email_update (\<lambda>_. s)) c
          else if key_matches ''nonce'' (fst m) then set_string (snd m) (\<lambda>s. rc_Nonce_update (\<lambda>_. s)) c
          else Some c)"

definition zero_claims :: raw_claims where
  "zero_claims = \<lparr>rc_Subject = [], rc_Name = [], rc_PreferredUsername = [], rc_Email = [], rc_Nonce = []\<rparr>"

text \<open>\<open>token.Claims(&raw)\<close>: the payload of the token unmarshalled into the struct.\<close>

definition decode_claims :: "string \<Rightarrow> raw_claims option" where
  "decode_claims payload =
     (case json_parse payload of
        Some (JObj ms) \<Rightarrow> fold claims_member ms (Some zero_claims)
      | Some JNull \<Rightarrow> Some zero_claims
      | _ \<Rightarrow> None)"

definition claimsFromToken :: "string \<Rightarrow> goerr + tokenClaims" where
  "claimsFromToken payload =
     (case decode_claims payload of
        None \<Rightarrow> Inl (Wrap ''decode identity claims'' (Errorf ''json''))
      | Some raw \<Rightarrow>
          let name0 = TrimSpace (rc_Name raw);
              name = (if name0 = [] then TrimSpace (rc_PreferredUsername raw) else name0) in
          if rc_Subject raw = [] \<or> name = [] then Inl (Errorf ''required identity claims missing'')
          else Inr \<lparr>tc_Identity = \<lparr>cl_Subject = rc_Subject raw, cl_DisplayName = name, cl_Email = rc_Email raw\<rparr>,
                    tc_Nonce = rc_Nonce raw\<rparr>)"

section \<open>Login\<close>

definition state_cookie_name :: "Service \<Rightarrow> string" where
  "state_cookie_name s = a_CookieName (sv_config s) @ ''_oidc_state''"

definition state_cookie :: "Service \<Rightarrow> string \<Rightarrow> int \<Rightarrow> cookie" where
  "state_cookie s value maxAge =
     \<lparr>ck_Name = state_cookie_name s, ck_Value = value, ck_Path = ''/auth/callback'', ck_HttpOnly = True,
      ck_Secure = a_CookieSecure (sv_config s), ck_SameSite = SameSiteLaxMode, ck_Expires = None,
      ck_MaxAge = maxAge\<rparr>"

definition minute :: int where "minute = 60 * second"

text \<open>The part of \<open>Begin\<close> that can fail: both tokens and the flow that is saved.\<close>

definition start_flow :: "env \<Rightarrow> process_env \<Rightarrow> Service \<Rightarrow> request \<Rightarrow> (string \<times> string \<times> string) prog" where
  "start_flow E P s r =
     bindE (randomToken E) (\<lambda>state.
     bindE (randomToken E) (\<lambda>nonce.
     (\<lambda>w. let verifier = pr_verifier (sv_provider s) (rands w);
              returnTo = safeReturnTo P (get_first (rq_Query r) ''return_to'') in
       bindE (Now E) (\<lambda>now.
       bindE (SaveFlow E state \<lparr>fl_Nonce = nonce, fl_PKCEVerifier = verifier, fl_ReturnTo = returnTo,
                                fl_ExpiresAt = now + 10 * minute\<rparr>) (\<lambda>_.
       retE (state, nonce, verifier))) w)))"

definition Begin_login :: "env \<Rightarrow> process_env \<Rightarrow> Service \<Rightarrow> handler" where
  "Begin_login E P s r rs = tryE (start_flow E P s r) (\<lambda>x w.
     case x of
       Inl err \<Rightarrow> (http_Error ''cannot start authentication'' 500 rs, w)
     | Inr (state, nonce, verifier) \<Rightarrow>
         (Redirect (pr_auth_url (sv_provider s) (sv_oauth s) state nonce verifier) 302
            (SetCookie (state_cookie s state 600) rs), w))"

section \<open>Callback\<close>

definition session_cookie :: "Service \<Rightarrow> string \<Rightarrow> gotime option \<Rightarrow> int \<Rightarrow> cookie" where
  "session_cookie s value expires maxAge =
     \<lparr>ck_Name = a_CookieName (sv_config s), ck_Value = value, ck_Path = ''/'', ck_HttpOnly = True,
      ck_Secure = a_CookieSecure (sv_config s), ck_SameSite = SameSiteLaxMode, ck_Expires = expires,
      ck_MaxAge = maxAge\<rparr>"

text \<open>\<open>int(d.Seconds())\<close> of a duration: whole seconds, rounded towards zero.\<close>

definition seconds_of :: "int \<Rightarrow> int" where
  "seconds_of d = (if d < 0 then - ((- d) div second) else d div second)"

text \<open>From the consumed flow to the claims of the identity token: the answer to an error is a message,
  always with status 401.\<close>

definition token_claims :: "Service \<Rightarrow> nat \<Rightarrow> string \<Rightarrow> Flow \<Rightarrow> string + tokenClaims" where
  "token_claims s at code flow =
     (case pr_exchange (sv_provider s) (sv_oauth s) at code (fl_PKCEVerifier flow) of
        Inl err \<Rightarrow> Inl ''authentication failed''
      | Inr None \<Rightarrow> Inl ''identity token missing''
      | Inr (Some rawIDToken) \<Rightarrow>
          (case pr_verify (sv_provider s) (sv_webAudience s) at rawIDToken of
             Inl err \<Rightarrow> Inl ''identity token invalid''
           | Inr idToken \<Rightarrow>
               (case claimsFromToken idToken of
                  Inl err \<Rightarrow> Inl ''identity token claims invalid''
                | Inr claims \<Rightarrow>
                    if tc_Nonce claims \<noteq> fl_Nonce flow then Inl ''identity token claims invalid''
                    else Inr claims)))"

text \<open>From the claims to the session: the principal, its token and its expiry; every error here is
  answered with status 500.\<close>

definition open_session :: "env \<Rightarrow> Service \<Rightarrow> tokenClaims \<Rightarrow> (string \<times> gotime) prog" where
  "open_session E s claims =
     bindE (ResolvePrincipal E (tc_Identity claims) (sv_bootstrapSubjects s)) (\<lambda>prin.
     bindE (randomToken E) (\<lambda>sessionToken.
     bindE (Now E) (\<lambda>now.
       let expiresAt = now + a_SessionTTL (sv_config s) in
       bindE (CreateSession E sessionToken (prin_ID prin) expiresAt) (\<lambda>_.
       retE (sessionToken, expiresAt)))))"

definition Callback :: "env \<Rightarrow> Service \<Rightarrow> handler" where
  "Callback E s r rs w =
     (if get_first (rq_Query r) ''error'' \<noteq> []
      then (http_Error ''identity provider rejected authentication'' 401 rs, w)
      else
        let state = get_first (rq_Query r) ''state'' in
        if get_cookie r (state_cookie_name s) \<noteq> Some state
        then (http_Error ''invalid authentication browser state'' 401 rs, w)
        else
          let rs1 = SetCookie (state_cookie s [] (- 1)) rs in
          tryE (ConsumeFlow E state) (\<lambda>x w1. case x of
            Inl err \<Rightarrow> (http_Error ''invalid or expired authentication flow'' 401 rs1, w1)
          | Inr flow \<Rightarrow>
              (case token_claims s (calls w1) (get_first (rq_Query r) ''code'') flow of
                 Inl msg \<Rightarrow> (http_Error msg 401 rs1, w1)
               | Inr claims \<Rightarrow>
                   tryE (open_session E s claims) (\<lambda>y w2. case y of
                     Inl err \<Rightarrow> (http_Error ''authentication failed'' 500 rs1, w2)
                   | Inr (sessionToken, expiresAt) \<Rightarrow>
                       (Redirect (fl_ReturnTo flow) 303
                          (SetCookie (session_cookie s sessionToken (Some expiresAt)
                             (seconds_of (expiresAt - env_now E (ticks w2)))) rs1),
                        w2\<lparr>ticks := Suc (ticks w2)\<rparr>)) w1)) w)"

section \<open>Logout and authentication\<close>

definition Logout :: "env \<Rightarrow> Service \<Rightarrow> handler" where
  "Logout E s r rs w =
     (let w' = (case get_cookie r (a_CookieName (sv_config s)) of
                  None \<Rightarrow> w
                | Some v \<Rightarrow> snd (RevokeSession E v w)) in
      ((SetCookie (session_cookie s [] None (- 1)) rs)\<lparr>rs_Status := 204\<rparr>, w'))"

definition bearerPrefix :: string where
  "bearerPrefix = ''Bearer ''"

definition authenticate :: "env \<Rightarrow> Service \<Rightarrow> request \<Rightarrow> Principal prog" where
  "authenticate E s r =
     (case get_cookie r (a_CookieName (sv_config s)) of
        Some (c # cs) \<Rightarrow> PrincipalForSession E (c # cs) (sv_bootstrapSubjects s)
      | _ \<Rightarrow>
          let authorization = get_first (rq_Header r) ''Authorization'' in
          if \<not> prefix bearerPrefix authorization then failE (Errorf ''authentication required'')
          else
            let rawToken = TrimSpace (drop (length bearerPrefix) authorization) in
            (\<lambda>w. (case pr_verify (sv_provider s) (sv_bearerAudience s) (calls w) rawToken of
                    Inl err \<Rightarrow> failE (Wrap ''verify bearer token'' err)
                  | Inr token \<Rightarrow>
                      (case claimsFromToken token of
                         Inl err \<Rightarrow> failE err
                       | Inr claims \<Rightarrow> ResolvePrincipal E (tc_Identity claims) (sv_bootstrapSubjects s))) w))"

text \<open>The literal body of the answer to a request that is not authenticated.\<close>

definition unauthorized_json :: json where
  "unauthorized_json = JObj [(''type'', JStr ''about:blank''), (''title'', JStr ''Unauthorized''),
     (''status'', JNum ''401'')]"

definition Middleware :: "env \<Rightarrow> Service \<Rightarrow> handler \<Rightarrow> handler" where
  "Middleware E s nxt r rs =
     tryE (authenticate E s r) (\<lambda>x w. case x of
       Inl err \<Rightarrow>
         ((set_header ''Content-Type'' ''application/problem+json'' rs)
            \<lparr>rs_Status := 401, rs_Body := Text (json_text unauthorized_json)\<rparr>, w)
     | Inr prin \<Rightarrow> nxt (r\<lparr>rq_Context := WithPrincipal (rq_Context r) prin\<rparr>) rs w)"

end
