(* ===== verification/Auth_Correct.thy ===== *)
theory Auth_Correct
  imports Auth_Repository
begin

text \<open>
  The correctness of login flows, sessions and the resolution of principals, on top of the results of
  the operations in \<open>Auth_Repository\<close>.
\<close>

section \<open>Samples\<close>

text \<open>The sample tables: one principal with one membership, a login flow and a session.\<close>

definition bob :: principal_row where
  "bob = \<lparr>p_id = ''bob'', p_external_subject = ''sub-2'', p_display_name = ''Bob'', p_email = None,
     p_status = ''ACTIVE'', p_created_at = 0, p_updated_at = 0\<rparr>"

definition auth_tables :: tables where
  "auth_tables = empty_tables\<lparr>principals := [bob],
     memberships := [\<lparr>m_id = ''m1'', m_principal_id = ''bob'', m_organization_id = ''o1'',
        m_site_id = Some ''p1'', m_role = ''Senior Technician'', m_created_at = 0\<rparr>],
     auth_flows := [\<lparr>f_state_hash = ''state'', f_nonce = ''n'', f_pkce_verifier = ''v'',
        f_return_to = ''/'', f_expires_at = 10, f_created_at = 0\<rparr>],
     web_sessions := [\<lparr>w_token_hash = ''token'', w_principal_id = ''bob'', w_expires_at = 10,
        w_created_at = 0, w_last_seen_at = 0, w_revoked_at = None\<rparr>]\<rparr>"

lemma auth_ok_sample: "auth_ok auth_tables"
  by (simp add: auth_ok_def principals_ok_def flows_ok_def sessions_ok_def auth_tables_def empty_tables_def bob_def)

lemma auth_sample_text: "valid_utf8 ''bob''" "valid_utf8 ''sub-2''" "valid_utf8 ''Bob''" "valid_utf8 ''i''"
  "valid_utf8 ''n''" "valid_utf8 ''v''" "valid_utf8 ''/''" "valid_utf8 []"
  by (simp_all add: ascii_valid_utf8)

lemmas auth_run_defs = bindE_def mapErr_def call_NoFault Let_def auth_tables_def empty_tables_def bob_def
  auth_sample_text cast_uuid_def check_text_def

lemma order_ok_sample: "order_ok sample_env"
  by (simp add: order_ok_def)

lemma sample_session_run:
  "\<exists>w'. PrincipalForSession sample_env ''token'' {} (world_of auth_tables)
     = (Inr \<lparr>prin_ID = ''bob'', prin_ExternalSubject = ''sub-2'', prin_DisplayName = ''Bob'',
             prin_OrganizationID = ''o1'', prin_SiteIDs = [''p1''],
             prin_Permissions = {PermissionWorkflowReview}\<rparr>, w')"
  by (simp add: PrincipalForSession_def select_session_def session_rows_def session_live_def
        ResolvePrincipal_def upsert_principal_def coalesce_empty_def select_memberships_def rows_end_def
        assemble_principal_def addRolePermissions_def auth_run_defs)

section \<open>Properties\<close>

text \<open>
  A login state is good for one attempt: once the statement that consumes it has reached the
  server, whether the attempt then succeeded, was too late or lost its answer, no flow is left for that
  state and consuming it again fails; an attempt that succeeded was made before the flow expired.
\<close>

lemma flow_single_use:
  assumes "ConsumeFlow E state w = (x, w')" and "env_fault E (calls w) \<noteq> FailBefore"
  shows "(\<forall>r \<in> set (auth_flows (db w')). f_state_hash r \<noteq> env_sha256 E state)
     \<and> fst (ConsumeFlow E state w') \<noteq> Inr f
     \<and> (\<forall>g. x = Inr g \<longrightarrow> env_now E (ticks w) < fl_ExpiresAt g)"
proof -
  have gone: "\<forall>r \<in> set (auth_flows (db w')). f_state_hash r \<noteq> env_sha256 E state"
    using assms
    by (auto simp: ConsumeFlow_def delete_flow_def call_def apply_sql_def Let_def bindE_def mapErr_def
          find_None_iff split: fault.splits option.splits if_splits)
  then show ?thesis using ConsumeFlow_gone [OF gone] ConsumeFlow_Inr assms(1) by auto
qed

lemma SaveFlow_consumed:
  assumes "SaveFlow E state f w = (Inr (), w1)" and "db w2 = db w1"
    and "env_fault E (calls w2) = NoFault" and "env_now E (ticks w2) < env_ts E (fl_ExpiresAt f)"
  shows "fst (ConsumeFlow E state w2) = Inr (f\<lparr>fl_ExpiresAt := env_ts E (fl_ExpiresAt f)\<rparr>)"
proof -
  let ?h = "env_sha256 E state"
  obtain t where "insert_flow E ?h f t (db w) = Inr ((), db w1)"
    using assms(1) by (auto simp: SaveFlow_def Let_def bindE_Inr_iff call_Inr_iff)
  note i = insert_flow_Inr [OF this]
  then have "find (\<lambda>r. f_state_hash r = ?h) (auth_flows (db w)) = None"
    by (simp add: find_None_list_ex)
  then have "find (\<lambda>r. f_state_hash r = ?h) (auth_flows (db w2)) = Some \<lparr>f_state_hash = ?h,
        f_nonce = fl_Nonce f, f_pkce_verifier = fl_PKCEVerifier f, f_return_to = fl_ReturnTo f,
        f_expires_at = env_ts E (fl_ExpiresAt f), f_created_at = env_ts E t\<rparr>"
    using i assms(2) by (simp add: find_append)
  then show ?thesis
    using assms(3,4)
    by (simp add: ConsumeFlow_def delete_flow_def flow_of_row_def Before_def call_NoFault bindE_def mapErr_def Let_def)
qed

text \<open>
  C23. A saved flow comes back as it was saved, up to the resolution of the server's timestamps, when it
  is consumed before it expires.
\<close>

theorem flow_round_trip:
  assumes "SaveFlow E state f w = (Inr (), w1)" and "db w2 = db w1"
    and "env_fault E (calls w2) = NoFault" and "env_now E (ticks w2) < env_ts E (fl_ExpiresAt f)"
  shows "fst (ConsumeFlow E state w2) = Inr (f\<lparr>fl_ExpiresAt := env_ts E (fl_ExpiresAt f)\<rparr>)"
  using SaveFlow_consumed [OF assms] .

theorem flow_round_trip_witness:
  "\<exists>w'. SaveFlow sample_env ''s2'' \<lparr>fl_Nonce = ''n'', fl_PKCEVerifier = ''v'', fl_ReturnTo = ''/'', fl_ExpiresAt = 9\<rparr>
       (world_of auth_tables) = (Inr (), w')
     \<and> fst (ConsumeFlow sample_env ''s2'' w')
       = Inr \<lparr>fl_Nonce = ''n'', fl_PKCEVerifier = ''v'', fl_ReturnTo = ''/'', fl_ExpiresAt = 9\<rparr>"
proof -
  obtain w' where w': "SaveFlow sample_env ''s2'' \<lparr>fl_Nonce = ''n'', fl_PKCEVerifier = ''v'', fl_ReturnTo = ''/'',
      fl_ExpiresAt = 9\<rparr> (world_of auth_tables) = (Inr (), w')" "ticks w' = 1"
    by (simp add: SaveFlow_def insert_flow_def auth_run_defs)
  then show ?thesis using flow_round_trip [OF w'(1) refl] by simp
qed



text \<open>
  C25. Permissions come from roles: a resolved principal has a permission exactly if one of its
  memberships has a role that grants it, or the permission is to create organizations and its subject
  is a bootstrap subject. The hypothesis on the order of rows is what ORDER BY promises.
\<close>

theorem resolve_permissions:
  assumes "order_ok E" and "ResolvePrincipal E claims bs w = (Inr p, w')"
  shows "\<exists>u. env_uuid E (prin_ID p) = Some u \<and> (\<forall>perm. Has p perm \<longleftrightarrow>
      (cl_Subject claims \<in> bs \<and> perm = PermissionOrganizationCreate)
      \<or> (\<exists>r \<in> set (memberships (db w)). m_principal_id r = u \<and> perm \<in> role_permissions (m_role r)))"
  using assms(2)
proof (cases rule: ResolvePrincipal_Inr)
  case (1 u)
  then show ?thesis by (auto simp: Has_def set_memberships_of [OF assms(1)])
qed

theorem resolve_permissions_witness:
  "\<exists>p w'. ResolvePrincipal sample_env \<lparr>cl_Subject = ''sub-2'', cl_DisplayName = ''Bob'', cl_Email = []\<rparr> {}
       (world_of auth_tables) = (Inr p, w')
     \<and> (\<exists>u. env_uuid sample_env (prin_ID p) = Some u \<and> (Has p PermissionWorkflowReview \<longleftrightarrow>
          (\<exists>r \<in> set (memberships auth_tables). m_principal_id r = u
             \<and> PermissionWorkflowReview \<in> role_permissions (m_role r))))"
proof -
  obtain p w' where w': "ResolvePrincipal sample_env \<lparr>cl_Subject = ''sub-2'', cl_DisplayName = ''Bob'', cl_Email = []\<rparr> {}
       (world_of auth_tables) = (Inr p, w')"
    by (simp add: ResolvePrincipal_def upsert_principal_def coalesce_empty_def select_memberships_def
          rows_end_def auth_run_defs)
  then show ?thesis using resolve_permissions [OF order_ok_sample w'] by (auto split: if_splits)
qed


text \<open>
  The scope of a resolved principal: its organization is that of its earliest membership (none if
  it has no membership), and its sites are exactly those of its memberships, sorted and without
  duplicates. Organization identifiers are never empty.
\<close>

lemma resolve_scope:
  assumes "order_ok E" and "ResolvePrincipal E claims bs w = (Inr p, w')"
    and "\<forall>r \<in> set (memberships (db w)). m_organization_id r \<noteq> []"
  shows "\<exists>u. env_uuid E (prin_ID p) = Some u
     \<and> prin_OrganizationID p = (case memberships_of E u (db w) of [] \<Rightarrow> [] | r # _ \<Rightarrow> m_organization_id r)
     \<and> sorted (map m_created_at (memberships_of E u (db w)))
     \<and> set (memberships_of E u (db w)) = {r \<in> set (memberships (db w)). m_principal_id r = u}
     \<and> sorted (prin_SiteIDs p) \<and> distinct (prin_SiteIDs p)
     \<and> (\<forall>sid. sid \<in> set (prin_SiteIDs p) \<longleftrightarrow> sid \<noteq> [] \<and>
          (\<exists>r \<in> set (memberships (db w)). m_principal_id r = u \<and> m_site_id r = Some sid))"
  using assms(2)
proof (cases rule: ResolvePrincipal_Inr)
  case (1 u)
  let ?ms = "memberships_of E u (db w)"
  have set: "set ?ms = {r \<in> set (memberships (db w)). m_principal_id r = u}"
    by (rule set_memberships_of [OF assms(1)])
  have fin: "finite {sid. sid \<noteq> [] \<and> Some sid \<in> m_site_id ` set ?ms}"
    by (rule finite_subset [of _ "the ` m_site_id ` set ?ms"]) (auto, metis image_eqI option.sel)
  have "prin_OrganizationID p = (case ?ms of [] \<Rightarrow> [] | r # _ \<Rightarrow> m_organization_id r)"
    using 1 assms(3) set by (cases ?ms) auto
  moreover have "sid \<in> set (prin_SiteIDs p) \<longleftrightarrow> sid \<noteq> [] \<and>
      (\<exists>r \<in> set (memberships (db w)). m_principal_id r = u \<and> m_site_id r = Some sid)" for sid
    using 1 fin set by (auto simp: image_iff)
  moreover have "sorted (prin_SiteIDs p)" "distinct (prin_SiteIDs p)" using 1 by simp_all
  moreover have "sorted (map m_created_at ?ms)"
    using assms(1) by (simp add: order_ok_def memberships_of_def)
  ultimately show ?thesis using 1(1) set by blast
qed

section \<open>Observations\<close>

text \<open>Permissions of all memberships are merged although the principal carries one organization: an
  administrator of a second organization acts as administrator in the first.\<close>

lemma resolve_merges_organizations:
  "\<exists>p w'. ResolvePrincipal sample_env \<lparr>cl_Subject = ''sub-2'', cl_DisplayName = ''Bob'', cl_Email = []\<rparr> {}
       (world_of (auth_tables\<lparr>memberships := memberships auth_tables @
          [\<lparr>m_id = ''m2'', m_principal_id = ''bob'', m_organization_id = ''o2'', m_site_id = None,
            m_role = ''Administrator'', m_created_at = 1\<rparr>]\<rparr>)) = (Inr p, w')
     \<and> prin_OrganizationID p = ''o1'' \<and> Has p PermissionWorkflowPublish"
  by (simp add: ResolvePrincipal_def upsert_principal_def coalesce_empty_def select_memberships_def
        rows_end_def auth_run_defs assemble_principal_def addRolePermissions_def Has_def)

text \<open>Resolving does not look at the status of the principal; only the session query does.\<close>

lemma resolve_ignores_status:
  "\<exists>p w'. ResolvePrincipal sample_env \<lparr>cl_Subject = ''sub-2'', cl_DisplayName = ''Bob'', cl_Email = []\<rparr> {}
       (world_of (auth_tables\<lparr>principals := [bob\<lparr>p_status := ''DISABLED''\<rparr>]\<rparr>)) = (Inr p, w')
     \<and> prin_ID p = ''bob'' \<and> Has p PermissionWorkflowReview"
  by (simp add: ResolvePrincipal_def upsert_principal_def coalesce_empty_def select_memberships_def
        rows_end_def auth_run_defs assemble_principal_def addRolePermissions_def Has_def)

end
