(* ===== verification/Oidc_Correct.thy ===== *)
theory Oidc_Correct
  imports Oidc Auth_Correct
begin

text \<open>
  The correctness of login, logout and authentication: a session exists only after a complete login, a
  callback works once, redirects stay on the site, cookies are protected, and a request reaches the API
  only with the principal of a live session or of a verified token.
\<close>

section \<open>Relations kept by the handlers\<close>

context table_relation
begin

lemma keep_randomToken: "keeps (on_db R) (randomToken E)"
  by (simp add: keeps_def on_db_def randomToken_def Let_def R_refl split: option.split)

lemma on_db_self: "on_db R w w" "on_db R w (w\<lparr>ticks := n\<rparr>)"
  by (simp_all add: on_db_def R_refl)

end

context auth_relation
begin

lemma keep_start_flow: "keeps (on_db R) (start_flow E P s r)"
proof -
  have dep: "keeps (on_db R) (\<lambda>w. m (rands w) w)" if "\<And>n. keeps (on_db R) (m n)"
    for m :: "nat \<Rightarrow> (string \<times> string \<times> string) prog"
    using that by (simp add: keeps_def)
  show ?thesis
    unfolding start_flow_def Let_def
    by (intro keep_rules keep_randomToken
        dep [where m = "\<lambda>n. bindE (Now E) (\<lambda>now. bindE (SaveFlow E st (f n now)) (\<lambda>_. retE (g n)))" for st f g]
        keep_SaveFlow)
qed

lemma keep_open_session: "keeps (on_db R) (open_session E s c)"
  unfolding open_session_def Let_def
  by (intro keep_rules keep_randomToken keep_ResolvePrincipal keep_CreateSession)

lemma keep_authenticate: "keeps (on_db R) (authenticate E s r)"
proof -
  have "keeps (on_db R) (\<lambda>w. m (calls w) w)" if "\<And>n. keeps (on_db R) (m n)" for m :: "nat \<Rightarrow> Principal prog"
    using that by (simp add: keeps_def)
  note dep = this
  show ?thesis
    unfolding authenticate_def Let_def
    by (auto split: option.split list.split sum.split
        intro!: keep_rules keep_PrincipalForSession keep_ResolvePrincipal
          dep [where m = "\<lambda>n. case pr_verify p a n t of Inl e \<Rightarrow> f e | Inr x \<Rightarrow> g x" for p a t f g])
qed

lemma keep_Begin_login: "handler_keeps (on_db R) (Begin_login E P s)"
  unfolding handler_keeps_def Begin_login_def
  by (auto intro!: tryE_keeps [OF on_db_trans keep_start_flow] on_db_self split: sum.split)

lemma keep_Callback: "handler_keeps (on_db R) (Callback E s)"
proof -
  have open_s: "on_db R w (snd (tryE (open_session E s c) k w))"
    if "\<And>x w. on_db R w (snd (k x w))" for k :: "goerr + string \<times> gotime \<Rightarrow> world \<Rightarrow> response \<times> world" and c w
    using that by (intro tryE_keeps [OF on_db_trans keep_open_session])
  have consume: "on_db R w (snd (tryE (ConsumeFlow E st) k w))"
    if "\<And>x w. on_db R w (snd (k x w))" for k :: "goerr + Flow \<Rightarrow> world \<Rightarrow> response \<times> world" and st w
    using that by (intro tryE_keeps [OF on_db_trans keep_ConsumeFlow])
  show ?thesis
    unfolding handler_keeps_def Callback_def Let_def
    by (auto intro!: open_s consume on_db_self split: sum.split)
qed

lemma keep_Logout: "handler_keeps (on_db R) (Logout E s)"
  using keep_RevokeSession
  by (auto simp: handler_keeps_def Logout_def Let_def keeps_def on_db_def R_refl split: option.split)

lemma keep_Middleware:
  "handler_keeps (on_db R) nxt \<Longrightarrow> handler_keeps (on_db R) (Middleware E s nxt)"
  unfolding handler_keeps_def Middleware_def
  by (auto intro!: tryE_keeps [OF on_db_trans keep_authenticate] on_db_self split: sum.split)

lemmas keep_handlers = keep_Begin_login keep_Callback keep_Logout keep_Middleware

end


section \<open>Login flows and sessions\<close>

lemma open_session_Inr:
  assumes "open_session E s claims w = (Inr (tok, expires), w')"
  shows "\<exists>p w1. ResolvePrincipal E (tc_Identity claims) (sv_bootstrapSubjects s) w = (Inr p, w1)
     \<and> (\<exists>pid row. env_uuid E (prin_ID p) = Some pid \<and> w_token_hash row = env_sha256 E tok
          \<and> w_principal_id row = pid \<and> w_expires_at row = env_ts E expires \<and> w_revoked_at row = None
          \<and> db w' = (db w1)\<lparr>web_sessions := web_sessions (db w1) @ [row]\<rparr>)
     \<and> (\<exists>n. expires = env_now E n + a_SessionTTL (sv_config s))
     \<and> (\<exists>b. env_rand E (rands w1) = Some b \<and> tok = EncodeToString b)"
proof -
  obtain p w1 where p: "ResolvePrincipal E (tc_Identity claims) (sv_bootstrapSubjects s) w = (Inr p, w1)"
    and rest: "bindE (randomToken E) (\<lambda>sessionToken. bindE (Now E) (\<lambda>now.
       let expiresAt = now + a_SessionTTL (sv_config s) in
       bindE (CreateSession E sessionToken (prin_ID p) expiresAt) (\<lambda>_.
       retE (sessionToken, expiresAt)))) w1 = (Inr (tok, expires), w')"
    using assms unfolding open_session_def by (rule bindE_InrE)
  define t where "t = env_now E (Suc (ticks w1))"
  from rest obtain b where b: "env_rand E (rands w1) = Some b" "tok = EncodeToString b"
    and e: "expires = env_now E (ticks w1) + a_SessionTTL (sv_config s)"
    and i: "insert_session E (env_sha256 E tok) (prin_ID p) expires t (db w1) = Inr ((), db w')"
    unfolding t_def
    by (auto simp: bindE_Inr_iff randomToken_def CreateSession_def Let_def call_Inr_iff split: option.splits)
  define row where "row pid = \<lparr>w_token_hash = env_sha256 E tok, w_principal_id = pid,
    w_expires_at = env_ts E expires, w_created_at = env_ts E t, w_last_seen_at = env_ts E t,
    w_revoked_at = None\<rparr>" for pid
  from insert_session_Inr [OF i] obtain pid where pid: "env_uuid E (prin_ID p) = Some pid"
    "db w' = (db w1)\<lparr>web_sessions := web_sessions (db w1) @ [row pid]\<rparr>"
    by (auto simp: row_def)
  have "w_token_hash (row pid) = env_sha256 E tok" "w_principal_id (row pid) = pid"
    "w_expires_at (row pid) = env_ts E expires" "w_revoked_at (row pid) = None"
    by (simp_all add: row_def)
  then show ?thesis using p b e pid by blast
qed

text \<open>Where a callback got to: it stopped before the flow, at the flow, at the token, or opened a session.\<close>

lemma Callback_cases:
  assumes "Callback E s r rs w = (rs', w')"
  obtains (refused) "rs_Status rs' = 401" "w' = w" "rs_Cookies rs' = rs_Cookies rs"
    | (flow_failed) err where "ConsumeFlow E (get_first (rq_Query r) ''state'') w = (Inl err, w')"
        "rs_Status rs' = 401" "rs_Cookies rs' = rs_Cookies rs @ [state_cookie s [] (- 1)]"
        "get_cookie r (state_cookie_name s) = Some (get_first (rq_Query r) ''state'')"
    | (token_failed) flow msg where "ConsumeFlow E (get_first (rq_Query r) ''state'') w = (Inr flow, w')"
        "rs_Status rs' = 401" "rs_Cookies rs' = rs_Cookies rs @ [state_cookie s [] (- 1)]"
        "token_claims s (calls w') (get_first (rq_Query r) ''code'') flow = Inl msg"
        "get_cookie r (state_cookie_name s) = Some (get_first (rq_Query r) ''state'')"
    | (session_failed) flow w1 claims err where
        "ConsumeFlow E (get_first (rq_Query r) ''state'') w = (Inr flow, w1)"
        "token_claims s (calls w1) (get_first (rq_Query r) ''code'') flow = Inr claims"
        "open_session E s claims w1 = (Inl err, w')"
        "rs_Status rs' = 500" "rs_Cookies rs' = rs_Cookies rs @ [state_cookie s [] (- 1)]"
        "get_cookie r (state_cookie_name s) = Some (get_first (rq_Query r) ''state'')"
    | (session) flow w1 claims tok expires w2 where
        "ConsumeFlow E (get_first (rq_Query r) ''state'') w = (Inr flow, w1)"
        "token_claims s (calls w1) (get_first (rq_Query r) ''code'') flow = Inr claims"
        "open_session E s claims w1 = (Inr (tok, expires), w2)" "db w' = db w2"
        "rs' = Redirect (fl_ReturnTo flow) 303 (SetCookie (session_cookie s tok (Some expires)
           (seconds_of (expires - env_now E (ticks w2)))) (SetCookie (state_cookie s [] (- 1)) rs))"
        "get_cookie r (state_cookie_name s) = Some (get_first (rq_Query r) ''state'')"
proof (cases "get_first (rq_Query r) ''error'' \<noteq> []
    \<or> get_cookie r (state_cookie_name s) \<noteq> Some (get_first (rq_Query r) ''state'')")
  case True
  then show thesis using assms refused by (auto simp: Callback_def Let_def split: if_splits)
next
  case False
  obtain x w1 where c: "ConsumeFlow E (get_first (rq_Query r) ''state'') w = (x, w1)" by fastforce
  show thesis
  proof (cases x)
    case (Inl err)
    then show thesis using assms False c flow_failed by (auto simp: Callback_def Let_def tryE_def)
  next
    case (Inr flow)
    show thesis
    proof (cases "token_claims s (calls w1) (get_first (rq_Query r) ''code'') flow")
      case (Inl msg)
      then show thesis using assms False c \<open>x = Inr flow\<close> token_failed
        by (auto simp: Callback_def Let_def tryE_def)
    next
      case (Inr claims)
      obtain y w2 where o: "open_session E s claims w1 = (y, w2)" by fastforce
      show thesis
      proof (cases y)
        case (Inl err)
        then show thesis
          using assms False c \<open>x = Inr flow\<close> Inr o session_failed
          by (auto simp: Callback_def Let_def tryE_def)
      next
        case y: (Inr te)
        obtain tok expires where te: "te = (tok, expires)" by (cases te)
        from assms False c \<open>x = Inr flow\<close> Inr o y te
        have "rs' = Redirect (fl_ReturnTo flow) 303 (SetCookie (session_cookie s tok (Some expires)
           (seconds_of (expires - env_now E (ticks w2)))) (SetCookie (state_cookie s [] (- 1)) rs))"
          "w' = w2\<lparr>ticks := Suc (ticks w2)\<rparr>"
          by (auto simp: Callback_def Let_def tryE_def)
        then show thesis using session [of flow w1 claims tok expires w2] False c \<open>x = Inr flow\<close> Inr o y te
          by simp
      qed
    qed
  qed
qed

section \<open>A sample login\<close>

definition sample_payload :: json where
  "sample_payload = JObj [(''sub'', JStr ''sub-2''), (''name'', JStr ''Bob''), (''nonce'', JStr ''n'')]"

definition sample_service :: Service where
  "sample_service =
     \<lparr>sv_config = \<lparr>a_IssuerURL = ''https://id'', a_ClientID = ''c'', a_ClientSecret = ''s'', a_Audience = ''api'',
        a_RedirectURL = ''https://app/auth/callback'', a_CookieName = ''sid'', a_CookieSecure = True,
        a_SessionTTL = 3600 * second, a_BootstrapSubjects = []\<rparr>,
      sv_oauth = \<lparr>oa_ClientID = ''c'', oa_ClientSecret = ''s'', oa_RedirectURL = ''https://app/auth/callback'',
        oa_Scopes = [''openid'', ''profile'', ''email'']\<rparr>,
      sv_provider = \<lparr>pr_auth_url = (\<lambda>_ st _ _. ''https://id/auth?state='' @ st),
        pr_exchange = (\<lambda>_ _ code _. if code = ''good'' then Inr (Some ''jwt'') else Inl (Errorf ''exchange'')),
        pr_verify = (\<lambda>_ _ raw. if raw = ''jwt'' then Inr (json_text sample_payload) else Inl (Errorf ''verify'')),
        pr_verifier = (\<lambda>_. ''v'')\<rparr>,
      sv_webAudience = ''c'', sv_bearerAudience = ''api'', sv_bootstrapSubjects = {}\<rparr>"

definition sample_request :: request where
  "sample_request = \<lparr>rq_Method = ''GET'', rq_Path = ''/'', rq_Query = [], rq_Cookies = [], rq_Header = [],
     rq_Body = [], rq_Context = None\<rparr>"

definition callback_request :: request where
  "callback_request = sample_request\<lparr>rq_Query := [(''state'', ''state''), (''code'', ''good'')],
     rq_Cookies := [(''sid_oidc_state'', ''state'')]\<rparr>"

lemma claims_keys:
  "key_matches ''sub'' ''sub''" "\<not> key_matches ''sub'' ''name''" "\<not> key_matches ''sub'' ''nonce''"
  "key_matches ''name'' ''name''" "\<not> key_matches ''name'' ''nonce''"
  "\<not> key_matches ''preferred_username'' ''nonce''" "\<not> key_matches ''email'' ''nonce''"
  "key_matches ''nonce'' ''nonce''"
  by (simp_all add: key_matches_def EqualFold_def fold_rune_def runes_ascii del: runes.simps)

lemma payload_claims:
  assumes "valid_utf8 n"
  shows "claimsFromToken (json_text (JObj [(''sub'', JStr ''sub-2''), (''name'', JStr ''Bob''), (''nonce'', JStr n)])) =
     Inr \<lparr>tc_Identity = \<lparr>cl_Subject = ''sub-2'', cl_DisplayName = ''Bob'', cl_Email = []\<rparr>, tc_Nonce = n\<rparr>"
proof -
  let ?p = "JObj [(''sub'', JStr ''sub-2''), (''name'', JStr ''Bob''), (''nonce'', JStr n)]"
  have "wf_json ?p" using assms by (simp add: ascii_valid_utf8)
  then have "json_parse (json_text ?p) = Some ?p" by (rule json_parse_text)
  then have "decode_claims (json_text ?p) = Some \<lparr>rc_Subject = ''sub-2'', rc_Name = ''Bob'',
      rc_PreferredUsername = [], rc_Email = [], rc_Nonce = n\<rparr>"
    by (simp add: decode_claims_def claims_member_def claims_keys set_string_def zero_claims_def)
  moreover have "TrimSpace ''Bob'' = ''Bob''"
    by (simp add: TrimSpace_id_iff space_runes_def suffix_to_prefix)
  ultimately show ?thesis by (simp add: claimsFromToken_def Let_def)
qed

lemma sample_claims:
  "claimsFromToken (json_text sample_payload) =
     Inr \<lparr>tc_Identity = \<lparr>cl_Subject = ''sub-2'', cl_DisplayName = ''Bob'', cl_Email = []\<rparr>, tc_Nonce = ''n''\<rparr>"
  unfolding sample_payload_def by (rule payload_claims) (rule auth_sample_text)

lemma sample_token_fresh: "length b = 32 \<Longrightarrow> ''token'' \<noteq> EncodeToString b"
proof
  assume "length b = 32" and "''token'' = EncodeToString b"
  then have "length (EncodeToString b) = length ''token''" by simp
  with \<open>length b = 32\<close> show False by (simp add: EncodeToString_def length_sextets)
qed

definition after_flow :: world where
  "after_flow = (world_of (auth_tables\<lparr>auth_flows := []\<rparr>))\<lparr>ticks := 1, calls := 1\<rparr>"

lemma sample_resolve:
  assumes "db w = auth_tables\<lparr>auth_flows := []\<rparr>" and "ids w = 0"
  shows "\<exists>p w1. ResolvePrincipal sample_env \<lparr>cl_Subject = ''sub-2'', cl_DisplayName = ''Bob'', cl_Email = []\<rparr> {} w
     = (Inr p, w1) \<and> prin_ID p = ''bob'' \<and> web_sessions (db w1) = web_sessions auth_tables
     \<and> list_ex (\<lambda>r. p_id r = ''bob'') (principals (db w1))"
  using assms
  by (simp add: ResolvePrincipal_def upsert_principal_def coalesce_empty_def select_memberships_def
        rows_end_def assemble_principal_ID auth_run_defs)

lemma open_session_sample:
  assumes "db w = auth_tables\<lparr>auth_flows := []\<rparr>" and "ids w = 0" and "sv_bootstrapSubjects s = {}"
  shows "\<exists>te w'. open_session sample_env s \<lparr>tc_Identity = \<lparr>cl_Subject = ''sub-2'',
      cl_DisplayName = ''Bob'', cl_Email = []\<rparr>, tc_Nonce = n\<rparr> w = (Inr te, w')"
proof -
  obtain p w1 where p: "ResolvePrincipal sample_env \<lparr>cl_Subject = ''sub-2'', cl_DisplayName = ''Bob'', cl_Email = []\<rparr> {}
      w = (Inr p, w1)" "prin_ID p = ''bob''" "web_sessions (db w1) = web_sessions auth_tables"
    "list_ex (\<lambda>r. p_id r = ''bob'') (principals (db w1))"
    using sample_resolve [OF assms(1,2)] by blast
  define b where "b = replicate 32 (char_of (rands w1 + 1))"
  have "\<not> list_ex (\<lambda>r. w_token_hash r = EncodeToString b) (web_sessions (db w1))"
    using p(3) sample_token_fresh [of b] by (simp add: auth_tables_def b_def)
  moreover have "env_rand sample_env (rands w1) = Some b" by (simp add: b_def)
  ultimately show ?thesis
    using p(1,2,4) assms(3)
    by (simp add: open_session_def bindE_def mapErr_def randomToken_def CreateSession_def
        insert_session_def call_NoFault cast_uuid_def auth_sample_text Let_def del: sample_env_simps(3))
qed

lemma sample_callback_run:
  "\<exists>rs' w'. Callback sample_env sample_service callback_request empty_response (world_of auth_tables) = (rs', w')
     \<and> rs_Status rs' = 303"
proof -
  have st: "get_first (rq_Query callback_request) ''state'' = ''state''" "get_first (rq_Query callback_request) ''error'' = []"
    "get_first (rq_Query callback_request) ''code'' = ''good''"
    "get_cookie callback_request (state_cookie_name sample_service) = Some ''state''"
    by (simp_all add: callback_request_def sample_request_def get_first_def get_cookie_def state_cookie_name_def
        sample_service_def)
  obtain f where f: "ConsumeFlow sample_env ''state'' (world_of auth_tables) = (Inr f, after_flow)" "fl_Nonce f = ''n''"
    by (simp add: ConsumeFlow_def delete_flow_def Before_def flow_of_row_def after_flow_def world_of_def auth_run_defs)
  have tc: "token_claims sample_service n ''good'' f =
     Inr \<lparr>tc_Identity = \<lparr>cl_Subject = ''sub-2'', cl_DisplayName = ''Bob'', cl_Email = []\<rparr>, tc_Nonce = ''n''\<rparr>" for n
    using f(2) sample_claims by (simp add: token_claims_def sample_service_def)
  obtain te w2 where "open_session sample_env sample_service \<lparr>tc_Identity = \<lparr>cl_Subject = ''sub-2'',
      cl_DisplayName = ''Bob'', cl_Email = []\<rparr>, tc_Nonce = ''n''\<rparr> after_flow = (Inr te, w2)"
    using open_session_sample [of after_flow sample_service "''n''"]
    by (auto simp: after_flow_def sample_service_def)
  then show ?thesis
    using f(1) st tc by (cases te) (simp add: Callback_def Let_def tryE_def)
qed


section \<open>Properties\<close>

text \<open>
  C22. No open redirect: whatever the query asks for, the return path is a reference that a browser
  resolves on this site.
\<close>

theorem safe_return_to_local: "local_reference (safeReturnTo P raw)"
proof -
  have "local_reference ''/''" by (simp add: local_reference_def)
  moreover have "local_reference (RequestURI u)"
    if "url_parse (pe_host P) (pe_userinfo P) raw = Some u" "\<not> IsAbs u" "prefix ''/'' (u_Path u)"
      "\<not> prefix ''//'' (u_Path u)" for u
  proof -
    have "parse_url (pe_host P) (pe_userinfo P) (fst (cut CHR ''#'' raw)) = Some u"
      using that(1) by (auto simp: url_parse_def split: option.splits prod.splits if_splits)
    then have "u_Opaque u = []" using parse_url_opaque that(2) by (auto simp: IsAbs_def)
    then show ?thesis using RequestURI_local that by blast
  qed
  ultimately show ?thesis by (auto simp: safeReturnTo_def split: option.split)
qed

text \<open>The result may be a relative path when the leading slash is escaped: \<open>%2Fa\<close> is returned as it is.\<close>

lemma safe_return_to_relative: "safeReturnTo P ''%2Fa'' = ''%2Fa''"
proof -
  have "char_of (47 :: nat) = CHR ''/''" by (simp add: char_of_eq)
  then show ?thesis
  by (simp add: safeReturnTo_def url_parse_def cut_def parse_url_def has_ctl_def get_scheme_def is_letter_def
      Let_def split_query_def set_path_def zero_URL_def unhex_def IsAbs_def should_escape_def is_alnum_def
      RequestURI_def EscapedPath_def valid_encoded_def)
qed



interpretation same_sessions: table_relation "\<lambda>d d'. web_sessions d' = web_sessions d"
  by unfold_locales auto

lemma ConsumeFlow_same_sessions: "keeps (on_db (\<lambda>d d'. web_sessions d' = web_sessions d)) (ConsumeFlow E st)"
  unfolding ConsumeFlow_def Let_def
  by (intro same_sessions.keep_rules same_sessions.keep_call) (auto dest!: delete_flow_Inr)

lemma ResolvePrincipal_same_sessions:
  "keeps (on_db (\<lambda>d d'. web_sessions d' = web_sessions d)) (ResolvePrincipal E c bs)"
  unfolding ResolvePrincipal_def
  by (intro same_sessions.keep_rules same_sessions.keep_call)
     (auto simp: select_memberships_def rows_end_def bindS_Inr_iff elim!: upsert_principal_Inr)

text \<open>
  Nothing else opens a session: if a callback changes the table of sessions at all, also when it
  reports an error, then it had consumed a flow for the state in the browser's cookie and had verified
  a token with the nonce of that flow.
\<close>

lemma callback_no_other_session:
  assumes "Callback E s r rs w = (rs', w')" and "web_sessions (db w') \<noteq> web_sessions (db w)"
  shows "\<exists>flow w1 claims. get_cookie r (state_cookie_name s) = Some (get_first (rq_Query r) ''state'')
     \<and> ConsumeFlow E (get_first (rq_Query r) ''state'') w = (Inr flow, w1)
     \<and> token_claims s (calls w1) (get_first (rq_Query r) ''code'') flow = Inr claims"
  using assms(1)
proof (cases rule: Callback_cases)
  case refused
  then show ?thesis using assms(2) by simp
next
  case flow_failed
  then show ?thesis using assms(2) keepsD [OF ConsumeFlow_same_sessions] by (fastforce simp: on_db_def)
next
  case token_failed
  then show ?thesis using assms(2) keepsD [OF ConsumeFlow_same_sessions] by (fastforce simp: on_db_def)
qed blast+

interpretation same_flows: table_relation "\<lambda>d d'. auth_flows d' = auth_flows d"
  by unfold_locales auto

lemma open_session_same_flows:
  "keeps (on_db (\<lambda>d d'. auth_flows d' = auth_flows d)) (open_session E s c)"
  unfolding open_session_def ResolvePrincipal_def CreateSession_def Let_def
  by (intro same_flows.keep_rules same_flows.keep_call same_flows.keep_randomToken)
     (auto simp: select_memberships_def rows_end_def bindS_Inr_iff elim!: upsert_principal_Inr dest!: insert_session_Inr)

text \<open>
  C18. A callback works once: after a callback has opened a session, the same request, sent again in the
  state it left, is answered with status 401 and opens no session.
\<close>

theorem callback_once:
  assumes "Callback E s r rs w = (rs1, w1)" and "rs_Status rs1 = 303"
  shows "rs_Status (fst (Callback E s r rs0 w1)) = 401
     \<and> web_sessions (db (snd (Callback E s r rs0 w1))) = web_sessions (db w1)"
proof -
  let ?st = "get_first (rq_Query r) ''state''"
  have gone: "\<forall>f \<in> set (auth_flows (db w1)). f_state_hash f \<noteq> env_sha256 E ?st"
    using assms(1)
  proof (cases rule: Callback_cases)
    case (session flow v claims tok expires w2)
    have "auth_flows (db w1) = auth_flows (db v)"
      using keepsD [OF open_session_same_flows session(3)] session(4) by (simp add: on_db_def)
    then show ?thesis using ConsumeFlow_Inr [OF session(1)] by auto
  qed (use assms(2) in simp_all)
  obtain rs2 w2 where c: "Callback E s r rs0 w1 = (rs2, w2)" by fastforce
  have no: "ConsumeFlow E ?st w1 \<noteq> (Inr flow, v)" for flow v
    using ConsumeFlow_gone [OF gone, of flow] by (metis fst_conv)
  from c show ?thesis
  proof (cases rule: Callback_cases)
    case flow_failed
    then show ?thesis using c keepsD [OF ConsumeFlow_same_sessions flow_failed(1)] by (simp add: on_db_def)
  qed (use c no in simp_all)
qed

theorem callback_once_witness:
  "\<exists>rs' w'. Callback sample_env sample_service callback_request empty_response (world_of auth_tables) = (rs', w')
     \<and> rs_Status (fst (Callback sample_env sample_service callback_request empty_response w')) = 401"
proof -
  obtain rs' w' where c: "Callback sample_env sample_service callback_request empty_response (world_of auth_tables) = (rs', w')"
    "rs_Status rs' = 303" using sample_callback_run by blast
  then show ?thesis using callback_once [OF c] by blast
qed


definition sample_nonce :: string where
  "sample_nonce = EncodeToString (replicate 32 (char_of (2 :: nat)))"

definition sample_state :: string where
  "sample_state = EncodeToString (replicate 32 (char_of (1 :: nat)))"

definition login_service :: Service where
  "login_service = sample_service\<lparr>sv_provider := (sv_provider sample_service)\<lparr>pr_verify := (\<lambda>_ _ _.
     Inr (json_text (JObj [(''sub'', JStr ''sub-2''), (''name'', JStr ''Bob''), (''nonce'', JStr sample_nonce)])))\<rparr>\<rparr>"

lemma valid_utf8_EncodeToString: "valid_utf8 (EncodeToString b)"
proof (rule ascii_valid_utf8, rule ballI)
  fix c
  assume "c \<in> set (EncodeToString b)"
  then have "byte c \<in> set (map byte b64_alphabet)" using EncodeToString_alphabet [of b] by auto
  then show "byte c < 0x80" unfolding b64_alphabet_bytes by auto
qed

lemma sample_start_flow:
  "\<exists>w1. start_flow sample_env sample_process login_service sample_request (world_of (auth_tables\<lparr>auth_flows := []\<rparr>))
     = (Inr (sample_state, sample_nonce, ''v''), w1) \<and> ticks w1 = 2 \<and> ids w1 = 0
     \<and> (\<exists>f. db w1 = auth_tables\<lparr>auth_flows := [f]\<rparr> \<and> f_state_hash f = sample_state)"
  by (simp add: start_flow_def randomToken_def SaveFlow_def insert_flow_def auth_run_defs sample_state_def sample_nonce_def
      login_service_def sample_service_def sample_request_def safeReturnTo_def get_first_def valid_utf8_EncodeToString
      numeral_2_eq_2)



text \<open>
  C20. Logout ends the session: when the cookie names a session that exists and the server can be
  reached, the session is revoked and its token authenticates nobody any more; the answer clears the
  cookie in every case.
\<close>

theorem logout_revokes:
  assumes "Logout E s r rs w = (rs', w')" and "get_cookie r (a_CookieName (sv_config s)) = Some tok"
    and "\<exists>row \<in> set (web_sessions (db w)). w_token_hash row = env_sha256 E tok"
    and "env_fault E (calls w) = NoFault"
  shows "session_revoked (env_sha256 E tok) (db w') \<and> fst (PrincipalForSession E tok bs w') \<noteq> Inr p
     \<and> rs_Status rs' = 204 \<and> last (rs_Cookies rs') = session_cookie s [] None (- 1)"
proof -
  have "RevokeSession E tok w = (Inr (), snd (RevokeSession E tok w))"
    using assms(4) by (simp add: RevokeSession_def Let_def bindE_def mapErr_def call_NoFault revoke_session_def)
  then have "session_revoked (env_sha256 E tok) (db (snd (RevokeSession E tok w)))"
    using RevokeSession_revokes assms(3) by blast
  moreover have "w' = snd (RevokeSession E tok w)" "rs' = (SetCookie (session_cookie s [] None (- 1)) rs)\<lparr>rs_Status := 204\<rparr>"
    using assms(1,2) by (auto simp: Logout_def Let_def)
  ultimately show ?thesis using session_revoked_no_principal by (simp add: SetCookie_def)
qed

theorem logout_revokes_witness:
  "\<exists>rs' w'. Logout sample_env sample_service (sample_request\<lparr>rq_Cookies := [(''sid'', ''token'')]\<rparr>) empty_response
       (world_of auth_tables) = (rs', w') \<and> session_revoked ''token'' (db w')"
proof -
  let ?r = "sample_request\<lparr>rq_Cookies := [(''sid'', ''token'')]\<rparr>"
  obtain rs' w' where l: "Logout sample_env sample_service ?r empty_response (world_of auth_tables) = (rs', w')"
    by fastforce
  have "get_cookie ?r (a_CookieName (sv_config sample_service)) = Some ''token''"
    by (simp add: get_cookie_def sample_service_def)
  then show ?thesis using logout_revokes [OF l] l by (auto simp: auth_tables_def)
qed

text \<open>Logout answers 204 even when the session could not be revoked.\<close>

lemma logout_hides_failure:
  assumes "env_fault E (calls w) = FailBefore" and "get_cookie r (a_CookieName (sv_config s)) = Some tok"
  shows "rs_Status (fst (Logout E s r rs w)) = 204 \<and> db (snd (Logout E s r rs w)) = db w"
  using assms
  by (simp add: Logout_def Let_def RevokeSession_def bindE_def mapErr_def call_def)

text \<open>What an authenticated request rests on: a live session of the principal, when a session cookie is
  sent, and otherwise a token that verifies for the API's audience and names the principal's subject.\<close>

definition authenticated_by :: "env \<Rightarrow> Service \<Rightarrow> request \<Rightarrow> world \<Rightarrow> Principal \<Rightarrow> bool" where
  "authenticated_by E s r w p \<longleftrightarrow>
     (case get_cookie r (a_CookieName (sv_config s)) of
        Some (c # cs) \<Rightarrow>
          (\<exists>row \<in> set (web_sessions (db w)). w_token_hash row = env_sha256 E (c # cs)
             \<and> w_revoked_at row = None \<and> env_ts E (env_now E (ticks w)) < w_expires_at row
             \<and> w_principal_id row = prin_ID p)
      | _ \<Rightarrow>
          (\<exists>payload claims. prefix bearerPrefix (get_first (rq_Header r) ''Authorization'')
             \<and> pr_verify (sv_provider s) (sv_bearerAudience s) (calls w)
                 (TrimSpace (drop (length bearerPrefix) (get_first (rq_Header r) ''Authorization''))) = Inr payload
             \<and> claimsFromToken payload = Inr claims
             \<and> prin_ExternalSubject p = cl_Subject (tc_Identity claims)))"

lemma authenticate_Inr:
  assumes "authenticate E s r w = (Inr p, w')" and "auth_ok (db w)"
  shows "authenticated_by E s r w p"
proof -
  have bearer: "\<exists>payload claims. prefix bearerPrefix (get_first (rq_Header r) ''Authorization'')
             \<and> pr_verify (sv_provider s) (sv_bearerAudience s) (calls w)
                 (TrimSpace (drop (length bearerPrefix) (get_first (rq_Header r) ''Authorization''))) = Inr payload
             \<and> claimsFromToken payload = Inr claims
             \<and> prin_ExternalSubject p = cl_Subject (tc_Identity claims)"
    if no: "\<not> (\<exists>c cs. get_cookie r (a_CookieName (sv_config s)) = Some (c # cs))"
  proof -
    obtain payload claims where "prefix bearerPrefix (get_first (rq_Header r) ''Authorization'')"
      "pr_verify (sv_provider s) (sv_bearerAudience s) (calls w)
         (TrimSpace (drop (length bearerPrefix) (get_first (rq_Header r) ''Authorization''))) = Inr payload"
      "claimsFromToken payload = Inr claims"
      and "ResolvePrincipal E (tc_Identity claims) (sv_bootstrapSubjects s) w = (Inr p, w')"
      using assms(1) no
      by (auto simp: authenticate_def Let_def split: option.splits list.splits if_splits sum.splits)
    then show ?thesis by (blast elim: ResolvePrincipal_Inr)
  qed
  have sess: "\<exists>row \<in> set (web_sessions (db w)). w_token_hash row = env_sha256 E (c # cs)
             \<and> w_revoked_at row = None \<and> env_ts E (env_now E (ticks w)) < w_expires_at row
             \<and> w_principal_id row = prin_ID p"
    if "get_cookie r (a_CookieName (sv_config s)) = Some (c # cs)" for c cs
  proof -
    have "PrincipalForSession E (c # cs) (sv_bootstrapSubjects s) w = (Inr p, w')"
      using assms(1) that by (simp add: authenticate_def)
    then show ?thesis using PrincipalForSession_Inr assms(2) by blast
  qed
  show ?thesis
    using bearer sess unfolding authenticated_by_def by (auto split: option.split list.split)
qed

text \<open>
  C21. The API is behind authentication: the middleware either answers 401 without running the handler,
  or runs it once with the principal in the request's context, and then that principal is authenticated
  by a live session or, when no session cookie was sent, by a token verified for the API's audience.
\<close>

theorem middleware_authenticates:
  assumes "auth_ok (db w)"
  shows "(\<exists>err w1. authenticate E s r w = (Inl err, w1) \<and> rs_Status (fst (Middleware E s nxt r rs w)) = 401
            \<and> snd (Middleware E s nxt r rs w) = w1)
     \<or> (\<exists>p w1. authenticate E s r w = (Inr p, w1) \<and> authenticated_by E s r w p
            \<and> Middleware E s nxt r rs w = nxt (r\<lparr>rq_Context := Some p\<rparr>) rs w1)"
proof -
  obtain x w1 where a: "authenticate E s r w = (x, w1)" by fastforce
  show ?thesis
  proof (cases x)
    case (Inl err)
    then show ?thesis using a by (simp add: Middleware_def tryE_def)
  next
    case (Inr p)
    then show ?thesis using a authenticate_Inr [of E s r w p w1] assms
      by (simp add: Middleware_def tryE_def WithPrincipal_def)
  qed
qed

theorem middleware_authenticates_witness:
  "(\<exists>err w1. authenticate sample_env sample_service sample_request (world_of auth_tables) = (Inl err, w1)
      \<and> rs_Status (fst (Middleware sample_env sample_service (\<lambda>r rs w. (rs, w)) sample_request empty_response
           (world_of auth_tables))) = 401)
   \<and> (\<exists>p. authenticated_by sample_env sample_service (sample_request\<lparr>rq_Cookies := [(''sid'', ''token'')]\<rparr>)
          (world_of auth_tables) p)"
proof -
  have none: "\<exists>err w1. authenticate sample_env sample_service sample_request (world_of auth_tables) = (Inl err, w1)"
    by (simp add: authenticate_def sample_request_def get_cookie_def get_first_def Let_def bearerPrefix_def)
  have some: "\<exists>p w1. authenticate sample_env sample_service (sample_request\<lparr>rq_Cookies := [(''sid'', ''token'')]\<rparr>)
      (world_of auth_tables) = (Inr p, w1)"
    using sample_session_run by (simp add: authenticate_def get_cookie_def sample_service_def) blast
  have ok: "auth_ok (db (world_of auth_tables))" using auth_ok_sample by simp
  show ?thesis
    using middleware_authenticates [OF ok, of sample_env sample_service sample_request "\<lambda>r rs w. (rs, w)" empty_response]
      middleware_authenticates [OF ok, of sample_env sample_service "sample_request\<lparr>rq_Cookies := [(''sid'', ''token'')]\<rparr>"
        "\<lambda>r rs w. (rs, w)" empty_response] none some
    by (metis (no_types, lifting) Inl_Inr_False fst_conv)
qed

text \<open>Every cookie that login, callback and logout set is invisible to scripts, is not sent on cross-site
  subrequests, and is marked secure exactly when the configuration says so.\<close>

definition protected_cookie :: "Service \<Rightarrow> cookie \<Rightarrow> bool" where
  "protected_cookie s c \<longleftrightarrow> ck_HttpOnly c \<and> ck_SameSite c = SameSiteLaxMode
     \<and> ck_Secure c = a_CookieSecure (sv_config s)"

lemma login_cookies:
  assumes "h = Begin_login E P s \<or> h = Callback E s \<or> h = Logout E s" and "h r rs w = (rs', w')"
  shows "\<exists>cs. rs_Cookies rs' = rs_Cookies rs @ cs \<and> list_all (protected_cookie s) cs"
proof -
  have p: "protected_cookie s (state_cookie s v n)" "protected_cookie s (session_cookie s v e n)" for v e n
    by (simp_all add: protected_cookie_def state_cookie_def session_cookie_def)
  consider "h = Begin_login E P s" | "h = Callback E s" | "h = Logout E s" using assms(1) by blast
  then show ?thesis
  proof cases
    case 1
    then show ?thesis using assms(2) p by (auto simp: Begin_login_def tryE_def split: prod.splits sum.splits)
  next
    case 2
    then have "Callback E s r rs w = (rs', w')" using assms(2) by simp
    then show ?thesis by (cases rule: Callback_cases) (use p in auto)
  next
    case 3
    then show ?thesis using assms(2) p by (auto simp: Logout_def Let_def SetCookie_def)
  qed
qed

text \<open>
  Tokens are as good as the randomness: the text of a token determines the random bytes it was made
  of, consists of characters that need no quoting in a cookie or a URL, and 32 bytes give 43 characters.
\<close>

lemma random_token_faithful:
  assumes "randomToken E w = (Inr t, w1)" and "randomToken E v = (Inr t', v1)"
  shows "(t = t' \<longleftrightarrow> env_rand E (rands w) = env_rand E (rands v))
     \<and> set t \<subseteq> set b64_alphabet
     \<and> (\<forall>b. env_rand E (rands w) = Some b \<longrightarrow> length b = 32 \<longrightarrow> length t = 43)"
proof -
  obtain b b' where b: "env_rand E (rands w) = Some b" "t = EncodeToString b"
      "env_rand E (rands v) = Some b'" "t' = EncodeToString b'"
    using assms by (auto simp: randomToken_def Let_def split: option.splits)
  then show ?thesis
    using EncodeToString_inj EncodeToString_alphabet by (auto simp: EncodeToString_def length_sextets)
qed

end
