(* ===== verification/Idempotency.thy ===== *)
theory Idempotency
  imports Database Go_Json "HOL-Library.Word"
begin

unbundle bit_operations_syntax

text \<open>
  \<open>internal/platform/idempotency/store.go\<close>: the table of idempotency keys. \<open>Begin\<close> claims a key inside
  the caller's transaction or finds the answer of an earlier request; \<open>Complete\<close> stores the answer.
  The interface its callers rely on is the locale \<open>idempotency_ledger\<close>: a ledger that maps a key to
  the hash of the request and, once the request is done, its answer.
\<close>

record Record =
  Replay :: bool
  ResponseStatus :: int
  ResponseBody :: string

definition zero_Record :: Record where
  "zero_Record = \<lparr>Replay = False, ResponseStatus = 0, ResponseBody = []\<rparr>"

section \<open>Operations\<close>

text \<open>\<open>HashRequest\<close>: the digest of the JSON text of a request. Marshalling the structs of this program
  cannot fail.\<close>

definition HashRequest :: "env \<Rightarrow> json \<Rightarrow> goerr + string" where
  "HashRequest E v = Inr (env_sha256 E (json_text v))"

fun xor_loop :: "8 word \<Rightarrow> string \<Rightarrow> string \<Rightarrow> 8 word" where
  "xor_loop different (l # ls) (r # rs) =
     xor_loop (different OR (word_of_nat (byte l) XOR word_of_nat (byte r))) ls rs"
| "xor_loop different _ _ = different"

definition equalBytes :: "string \<Rightarrow> string \<Rightarrow> bool" where
  "equalBytes left right =
     (if length left \<noteq> length right then False else xor_loop 0 left right = 0)"

definition same_key :: "string \<Rightarrow> string \<Rightarrow> string \<Rightarrow> key_row \<Rightarrow> bool" where
  "same_key pid scope key row \<longleftrightarrow>
     k_principal_id row = pid \<and> k_scope row = scope \<and> k_idempotency_key row = key"

definition new_key_row :: "env \<Rightarrow> string \<Rightarrow> string \<Rightarrow> string \<Rightarrow> string \<Rightarrow> gotime \<Rightarrow> key_row" where
  "new_key_row E pid scope key requestHash now =
     \<lparr>k_principal_id = pid, k_scope = scope, k_idempotency_key = key,
      k_request_hash = requestHash, k_status = ''PROCESSING'', k_response_status = None,
      k_response_body = None, k_created_at = env_ts E now, k_completed_at = None\<rparr>"

text \<open>\<open>INSERT INTO idempotency_keys .. ON CONFLICT DO NOTHING\<close>: the number of rows inserted.\<close>

definition insert_key :: "env \<Rightarrow> string \<Rightarrow> string \<Rightarrow> string \<Rightarrow> string \<Rightarrow> gotime \<Rightarrow> nat sql" where
  "insert_key E principalID scope key requestHash now = (\<lambda>d.
     case cast_uuid E principalID of
       Inl e \<Rightarrow> Inl e
     | Inr pid \<Rightarrow>
         if \<not> (env_text E scope \<and> env_text E key) then Inl (PgError ''22021'')
         else if list_ex (same_key pid scope key) (idempotency_keys d) then Inr (0, d)
         else Inr (1, d\<lparr>idempotency_keys := idempotency_keys d @
                [new_key_row E pid scope key requestHash now]\<rparr>))"

text \<open>\<open>SELECT .. FOR UPDATE\<close> of the row of a key.\<close>

definition select_key :: "env \<Rightarrow> string \<Rightarrow> string \<Rightarrow> string \<Rightarrow> key_row sql" where
  "select_key E principalID scope key = (\<lambda>d.
     case cast_uuid E principalID of
       Inl e \<Rightarrow> Inl e
     | Inr pid \<Rightarrow>
         (case find (same_key pid scope key) (idempotency_keys d) of
            None \<Rightarrow> Inl ErrNoRows
          | Some row \<Rightarrow> Inr (row, d)))"

definition Begin :: "env \<Rightarrow> string \<Rightarrow> string \<Rightarrow> string \<Rightarrow> string \<Rightarrow> gotime \<Rightarrow> Record prog" where
  "Begin E principalID scope key requestHash now =
     bindE (wrapE ''insert idempotency key'' (call E (insert_key E principalID scope key requestHash now)))
       (\<lambda>tag.
          if tag = 1 then retE zero_Record
          else bindE (wrapE ''load idempotency key'' (call E (select_key E principalID scope key)))
            (\<lambda>row.
               if \<not> equalBytes (k_request_hash row) requestHash then failE ErrKeyConflict
               else case k_response_status row of
                 None \<Rightarrow> failE ErrInProgress
               | Some responseStatus \<Rightarrow>
                   if k_status row \<noteq> ''COMPLETED'' then failE ErrInProgress
                   else retE \<lparr>Replay = True, ResponseStatus = responseStatus,
                              ResponseBody = coalesce_empty (k_response_body row)\<rparr>))"

text \<open>\<open>UPDATE idempotency_keys SET status = 'COMPLETED', .. WHERE .. AND status = 'PROCESSING'\<close>: the
  number of rows updated.\<close>

definition complete_row :: "int \<Rightarrow> string \<Rightarrow> gotime \<Rightarrow> key_row \<Rightarrow> key_row" where
  "complete_row status body now row =
     row\<lparr>k_status := ''COMPLETED'', k_response_status := Some status, k_response_body := Some body,
         k_completed_at := Some now\<rparr>"

definition update_key ::
  "env \<Rightarrow> string \<Rightarrow> string \<Rightarrow> string \<Rightarrow> int \<Rightarrow> string \<Rightarrow> gotime \<Rightarrow> nat sql" where
  "update_key E principalID scope key status body now = (\<lambda>d.
     case cast_uuid E principalID of
       Inl e \<Rightarrow> Inl e
     | Inr pid \<Rightarrow>
         (case env_jsonb E body of
            None \<Rightarrow> Inl (PgError ''22P02'')
          | Some stored \<Rightarrow>
              (let hit = (\<lambda>row. same_key pid scope key row \<and> k_status row = ''PROCESSING'') in
               Inr (length (filter hit (idempotency_keys d)),
                    d\<lparr>idempotency_keys :=
                        map (\<lambda>row. if hit row then complete_row status stored (env_ts E now) row else row)
                            (idempotency_keys d)\<rparr>))))"

definition Complete ::
  "env \<Rightarrow> string \<Rightarrow> string \<Rightarrow> string \<Rightarrow> int \<Rightarrow> string \<Rightarrow> gotime \<Rightarrow> unit prog" where
  "Complete E principalID scope key status body now =
     bindE (wrapE ''complete idempotency key'' (call E (update_key E principalID scope key status body now)))
       (\<lambda>tag. if tag \<noteq> 1 then failE ErrInProgress else retE ())"

lemmas key_sql_defs [sql_defs] = insert_key_def select_key_def update_key_def

section \<open>The byte comparison\<close>

lemma word_byte_eq_iff: "(word_of_nat (byte c) :: 8 word) = word_of_nat (byte d) \<longleftrightarrow> c = d"
proof
  assume eq: "(word_of_nat (byte c) :: 8 word) = word_of_nat (byte d)"
  have "unat (word_of_nat (byte c) :: 8 word) = unat (word_of_nat (byte d) :: 8 word)"
    using eq by (rule arg_cong)
  then have "byte c = byte d" by (simp add: unat_of_nat)
  then show "c = d" by (simp only: of_char_eq_iff)
qed simp

lemma xor_word_0_iff: "(a :: 8 word) XOR b = 0 \<longleftrightarrow> a = b"
  by (auto simp: bit_eq_iff bit_xor_iff)

lemma or_word_0_iff: "(a :: 8 word) OR b = 0 \<longleftrightarrow> a = 0 \<and> b = 0"
  by (auto simp: bit_eq_iff bit_or_iff)

lemma xor_loop_0_iff:
  "length l = length r \<Longrightarrow> xor_loop a l r = 0 \<longleftrightarrow> a = 0 \<and> l = r"
proof (induction a l r rule: xor_loop.induct)
  case (1 different l ls r rs)
  then show ?case
    by (auto simp: or_word_0_iff xor_word_0_iff word_byte_eq_iff)
qed auto

lemma equalBytes_eq [simp]: "equalBytes l r \<longleftrightarrow> l = r"
  by (auto simp: equalBytes_def xor_loop_0_iff)

section \<open>The interface of the store\<close>

text \<open>
  How a caller uses the two operations: claim the key; on a replay return the stored answer through
  \<open>fin\<close>; otherwise do the work, which yields a result and the answer to store, and complete the key.
\<close>

definition guarded ::
  "('w, 'e, 'b option) act \<Rightarrow> ('b \<Rightarrow> ('w, 'e, unit) act) \<Rightarrow> ('w, 'e, 'x \<times> 'b) act
    \<Rightarrow> ('b \<Rightarrow> ('w, 'e, 'x) act) \<Rightarrow> ('w, 'e, 'x) act" where
  "guarded claim complete work fin =
     bindE claim (\<lambda>r. case r of
       Some b \<Rightarrow> fin b
     | None \<Rightarrow> bindE work (\<lambda>(x, b). bindE (complete b) (\<lambda>_. retE x)))"

text \<open>
  \<open>entry w k\<close> is what the store holds for a key: nothing, a claim with the request's hash, or a
  claim with its answer. \<open>ok\<close> is the store's own invariant, \<open>up w\<close> says that the connection
  answers from \<open>w\<close> on, and \<open>same\<close> relates states that hold the same data.
\<close>

locale idempotency_ledger =
  fixes entry :: "'w \<Rightarrow> 'k \<Rightarrow> ('h \<times> 'b option) option"
    and claim :: "'t \<Rightarrow> 'k \<Rightarrow> 'h \<Rightarrow> ('w, goerr, 'b option) act"
    and complete :: "'t \<Rightarrow> 'k \<Rightarrow> 'b \<Rightarrow> ('w, goerr, unit) act"
    and stores :: "'b \<Rightarrow> 'b \<Rightarrow> bool"
    and ok :: "'w \<Rightarrow> bool"
    and up :: "'w \<Rightarrow> bool"
    and same :: "'w \<Rightarrow> 'w \<Rightarrow> bool"
  assumes claim_new: "ok w \<Longrightarrow> claim t k h w = (Inr None, w') \<Longrightarrow>
      entry w k = None \<and> entry w' k = Some (h, None) \<and> ok w'"
    and claim_replay: "claim t k h w = (Inr (Some b), w') \<Longrightarrow> entry w k = Some (h, Some b)"
    and claim_done: "ok w \<Longrightarrow> up w \<Longrightarrow> entry w k = Some (h, Some b) \<Longrightarrow>
      \<exists>w'. claim t k h w = (Inr (Some b), w') \<and> same w w'"
    and claim_other: "ok w \<Longrightarrow> up w \<Longrightarrow> entry w k = Some (h', x) \<Longrightarrow> h' \<noteq> h \<Longrightarrow>
      \<exists>w'. claim t k h w = (Inl ErrKeyConflict, w') \<and> same w w'"
    and complete_ok: "ok w \<Longrightarrow> complete t k b w = (Inr (), w') \<Longrightarrow>
      \<exists>h b'. entry w k = Some (h, None) \<and> entry w' k = Some (h, Some b') \<and> stores b b'"
begin

text \<open>A first run that returns has done the work once and left its answer under the key.\<close>

lemma first_run_records:
  assumes "ok w" and "entry w k = None"
    and "\<And>s r s'. ok s \<Longrightarrow> work s = (r, s') \<Longrightarrow> entry s' k = entry s k \<and> ok s'"
    and "guarded (claim t k h) (complete t k) work fin w = (Inr x, w')"
  shows "\<exists>b b' s s'. work s = (Inr (x, b), s') \<and> stores b b' \<and> entry w' k = Some (h, Some b')"
proof -
  obtain r w1 where r: "claim t k h w = (Inr r, w1)"
    and rest: "(case r of Some b \<Rightarrow> fin b
       | None \<Rightarrow> bindE work (\<lambda>(x, b). bindE (complete t k b) (\<lambda>_. retE x))) w1 = (Inr x, w')"
    using assms(4) unfolding guarded_def by (auto elim: bindE_InrE)
  have None: "r = None" using r assms(2) claim_replay [of t k h w] by (cases r) auto
  then obtain y b w2 where w2: "work w1 = (Inr (y, b), w2)"
    and c: "bindE (complete t k b) (\<lambda>_. retE y) w2 = (Inr x, w')"
    using rest by (auto simp: bindE_Inr_iff)
  have w1: "entry w1 k = Some (h, None)" "ok w1"
    using claim_new [OF assms(1)] r None by auto
  have k2: "entry w2 k = Some (h, None)" "ok w2"
    using assms(3) [OF w1(2) w2] w1 by auto
  from c have u: "complete t k b w2 = (Inr (), w')" "y = x"
    by (auto simp: bindE_Inr_iff)
  then have "\<exists>b'. entry w' k = Some (h, Some b') \<and> stores b b'"
    using complete_ok [OF k2(2)] k2(1) by fastforce
  then show ?thesis using w2 u by blast
qed

text \<open>Once the answer is stored, the same request is answered from it and does no work.\<close>

lemma second_run_replays:
  assumes "ok w" and "up w" and "entry w k = Some (h, Some b)"
  shows "\<exists>w'. guarded (claim t k h) (complete t k) work fin w = fin b w' \<and> same w w'"
  using claim_done [OF assms, of t] by (auto simp: guarded_def bindE_def)

text \<open>A different request under the same key is refused, whether or not the first one is done.\<close>

lemma other_request_conflicts:
  assumes "ok w" and "up w" and "entry w k = Some (h', x)" and "h' \<noteq> h"
  shows "\<exists>w'. guarded (claim t k h) (complete t k) work fin w = (Inl ErrKeyConflict, w')
           \<and> same w w'"
  using claim_other [OF assms, of t] by (auto simp: guarded_def bindE_def)

end

section \<open>The store implements the interface\<close>

definition key_of :: "key_row \<Rightarrow> string \<times> string \<times> string" where
  "key_of row = (k_principal_id row, k_scope row, k_idempotency_key row)"

lemma same_key_iff: "same_key pid scope key row \<longleftrightarrow> key_of row = (pid, scope, key)"
  by (auto simp: same_key_def key_of_def)

text \<open>The primary key of the table, and that its text columns hold text the server accepts.\<close>

definition keys_ok :: "env \<Rightarrow> tables \<Rightarrow> bool" where
  "keys_ok E d \<longleftrightarrow> distinct (map key_of (idempotency_keys d))
     \<and> (\<forall>row \<in> set (idempotency_keys d). env_text E (k_scope row) \<and> env_text E (k_idempotency_key row))"

definition answer_of :: "key_row \<Rightarrow> (int \<times> string) option" where
  "answer_of row =
     (if k_status row = ''COMPLETED''
      then map_option (\<lambda>st. (st, coalesce_empty (k_response_body row))) (k_response_status row)
      else None)"

definition key_entry ::
  "env \<Rightarrow> tables \<Rightarrow> string \<times> string \<times> string \<Rightarrow> (string \<times> (int \<times> string) option) option" where
  "key_entry E d k =
     (case k of (principalID, scope, key) \<Rightarrow>
        (case env_uuid E principalID of
           None \<Rightarrow> None
         | Some pid \<Rightarrow> map_option (\<lambda>row. (k_request_hash row, answer_of row))
                        (find (same_key pid scope key) (idempotency_keys d))))"

definition key_claim ::
  "env \<Rightarrow> gotime \<Rightarrow> string \<times> string \<times> string \<Rightarrow> string \<Rightarrow> (int \<times> string) option prog" where
  "key_claim E now k h =
     (case k of (principalID, scope, key) \<Rightarrow>
        bindE (Begin E principalID scope key h now)
          (\<lambda>r. retE (if Replay r then Some (ResponseStatus r, ResponseBody r) else None)))"

definition key_complete ::
  "env \<Rightarrow> gotime \<Rightarrow> string \<times> string \<times> string \<Rightarrow> int \<times> string \<Rightarrow> unit prog" where
  "key_complete E now k b =
     (case k of (principalID, scope, key) \<Rightarrow> Complete E principalID scope key (fst b) (snd b) now)"

text \<open>What the server makes of an answer: the same status, the body through \<open>jsonb\<close>.\<close>

definition stored_answer :: "env \<Rightarrow> int \<times> string \<Rightarrow> int \<times> string \<Rightarrow> bool" where
  "stored_answer E b b' \<longleftrightarrow> fst b' = fst b \<and> env_jsonb E (snd b) = Some (snd b')"

definition connected :: "env \<Rightarrow> world \<Rightarrow> bool" where
  "connected E w \<longleftrightarrow> (\<forall>i \<ge> calls w. env_fault E i = NoFault)"

definition same_data :: "world \<Rightarrow> world \<Rightarrow> bool" where
  "same_data w w' \<longleftrightarrow> db w' = db w \<and> calls w \<le> calls w'"

lemma connected_same_data: "connected E w \<Longrightarrow> same_data w w' \<Longrightarrow> connected E w'"
  by (simp add: connected_def same_data_def)

lemma connectedD [simp]: "connected E w \<Longrightarrow> calls w \<le> i \<Longrightarrow> env_fault E i = NoFault"
  by (simp add: connected_def)

lemma find_same_key:
  assumes "distinct (map key_of rows)" and "row \<in> set rows" and "same_key pid scope key row"
  shows "find (same_key pid scope key) rows = Some row"
proof -
  have "find (\<lambda>r. key_of r = (pid, scope, key)) rows = Some row"
    using assms by (intro find_eq_if_distinct_key) (auto simp: same_key_iff)
  then show ?thesis by (simp add: same_key_iff [abs_def])
qed

lemma new_key_row_simps [simp]:
  "same_key pid scope key (new_key_row E pid scope key h now)"
  "k_request_hash (new_key_row E pid scope key h now) = h"
  "k_status (new_key_row E pid scope key h now) = ''PROCESSING''"
  "k_response_status (new_key_row E pid scope key h now) = None"
  by (simp_all add: same_key_def new_key_row_def)

lemma insert_key_Inr:
  "insert_key E principalID scope key h now d = Inr (n, d') \<longleftrightarrow>
     (\<exists>pid. env_uuid E principalID = Some pid \<and> env_text E scope \<and> env_text E key \<and>
       (if list_ex (same_key pid scope key) (idempotency_keys d) then n = 0 \<and> d' = d
        else n = 1 \<and> d' = d\<lparr>idempotency_keys :=
               idempotency_keys d @ [new_key_row E pid scope key h now]\<rparr>))"
  by (auto simp: insert_key_def cast_uuid_def split: option.splits)

lemma keys_ok_append:
  assumes "keys_ok E d" and "env_text E scope" and "env_text E key"
    and "\<not> list_ex (same_key pid scope key) (idempotency_keys d)" and "same_key pid scope key row"
  shows "keys_ok E (d\<lparr>idempotency_keys := idempotency_keys d @ [row]\<rparr>)"
  using assms by (auto simp: keys_ok_def same_key_iff list_ex_iff) (auto simp: key_of_def)

lemma keys_ok_cong: "idempotency_keys d' = idempotency_keys d \<Longrightarrow> keys_ok E d' = keys_ok E d"
  by (simp add: keys_ok_def)

lemma key_entry_cong: "idempotency_keys d' = idempotency_keys d \<Longrightarrow> key_entry E d' k = key_entry E d k"
  by (simp add: key_entry_def split: prod.splits option.splits)

lemma Begin_Inr:
  assumes "Begin E principalID scope key h now w = (Inr r, w')"
  obtains (fresh) pid where "env_uuid E principalID = Some pid" "env_text E scope" "env_text E key"
      "\<not> Replay r" "\<not> list_ex (same_key pid scope key) (idempotency_keys (db w))"
      "db w' = (db w)\<lparr>idempotency_keys :=
         idempotency_keys (db w) @ [new_key_row E pid scope key h now]\<rparr>"
    | (replay) pid row where "env_uuid E principalID = Some pid" "Replay r" "db w' = db w"
      "find (same_key pid scope key) (idempotency_keys (db w)) = Some row"
      "k_request_hash row = h" "answer_of row = Some (ResponseStatus r, ResponseBody r)"
proof -
  obtain n w1 where n: "call E (insert_key E principalID scope key h now) w = (Inr n, w1)"
    and rest: "(if n = 1 then retE zero_Record
       else bindE (wrapE ''load idempotency key'' (call E (select_key E principalID scope key)))
            (\<lambda>row.
               if \<not> equalBytes (k_request_hash row) h then failE ErrKeyConflict
               else case k_response_status row of
                 None \<Rightarrow> failE ErrInProgress
               | Some responseStatus \<Rightarrow>
                   if k_status row \<noteq> ''COMPLETED'' then failE ErrInProgress
                   else retE \<lparr>Replay = True, ResponseStatus = responseStatus,
                              ResponseBody = coalesce_empty (k_response_body row)\<rparr>)) w1 = (Inr r, w')"
    using assms unfolding Begin_def by (auto simp: bindE_Inr_iff)
  then obtain d1 where d1: "insert_key E principalID scope key h now (db w) = Inr (n, d1)" "db w1 = d1"
    by (auto simp: call_Inr_iff)
  then obtain pid where pid: "env_uuid E principalID = Some pid" "env_text E scope" "env_text E key"
    and i: "if list_ex (same_key pid scope key) (idempotency_keys (db w)) then n = 0 \<and> d1 = db w
        else n = 1 \<and> d1 = (db w)\<lparr>idempotency_keys :=
               idempotency_keys (db w) @ [new_key_row E pid scope key h now]\<rparr>"
    by (auto simp: insert_key_Inr)
  show thesis
  proof (cases "n = 1")
    case True
    then show thesis using i rest d1(2) pid fresh
      by (auto simp: zero_Record_def split: if_splits)
  next
    case False
    then have "d1 = db w" using i by (auto split: if_splits)
    then show thesis using False rest d1(2) pid replay
      by (auto simp: bindE_Inr_iff call_Inr_iff select_key_def cast_uuid_def answer_of_def
            split: if_splits option.splits)
  qed
qed

lemma complete_row_simps [simp]:
  "same_key pid scope key (complete_row st b t row) = same_key pid scope key row"
  "key_of (complete_row st b t row) = key_of row"
  "k_scope (complete_row st b t row) = k_scope row"
  "k_idempotency_key (complete_row st b t row) = k_idempotency_key row"
  "k_request_hash (complete_row st b t row) = k_request_hash row"
  "answer_of (complete_row st b t row) = Some (st, b)"
  by (simp_all add: complete_row_def same_key_def key_of_def answer_of_def coalesce_empty_def)

lemma filter_length_1_find:
  assumes "distinct (map key_of rows)"
    and "length (filter (\<lambda>row. same_key pid scope key row \<and> P row) rows) = 1"
  shows "\<exists>row. find (same_key pid scope key) rows = Some row \<and> P row"
proof -
  obtain row where "row \<in> set (filter (\<lambda>row. same_key pid scope key row \<and> P row) rows)"
    using assms(2) by (metis length_0_conv length_greater_0_conv less_one list.set_sel(1) zero_neq_one)
  then show ?thesis using find_same_key [OF assms(1)] by auto
qed

text \<open>A completed key: its row was being processed and now holds the answer.\<close>

lemma Complete_Inr:
  assumes "Complete E principalID scope key st body now w = (Inr u, w')" and "keys_ok E (db w)"
  obtains pid row stored where "env_uuid E principalID = Some pid" "env_jsonb E body = Some stored"
    "find (same_key pid scope key) (idempotency_keys (db w)) = Some row" "k_status row = ''PROCESSING''"
    "db w' = (db w)\<lparr>idempotency_keys := map (\<lambda>r. if same_key pid scope key r \<and> k_status r = ''PROCESSING''
         then complete_row st stored (env_ts E now) r else r) (idempotency_keys (db w))\<rparr>"
proof -
  obtain d where d: "update_key E principalID scope key st body now (db w) = Inr (1, d)" "db w' = d"
    using assms(1) unfolding Complete_def
    by (auto simp: bindE_Inr_iff call_Inr_iff split: if_splits)
  then obtain pid stored where pid: "env_uuid E principalID = Some pid" "env_jsonb E body = Some stored"
    and n: "length (filter (\<lambda>r. same_key pid scope key r \<and> k_status r = ''PROCESSING'')
              (idempotency_keys (db w))) = 1"
    and d': "d = (db w)\<lparr>idempotency_keys := map (\<lambda>r. if same_key pid scope key r \<and> k_status r = ''PROCESSING''
         then complete_row st stored (env_ts E now) r else r) (idempotency_keys (db w))\<rparr>"
    by (auto simp: update_key_def cast_uuid_def Let_def split: option.splits)
  then show thesis
    using that filter_length_1_find [OF _ n] assms(2) d(2) by (auto simp: keys_ok_def)
qed

lemma Complete_find:
  assumes "find (same_key pid scope key) rows = Some row" and "k_status row = ''PROCESSING''"
  shows "find (same_key pid scope key) (map (\<lambda>r. if same_key pid scope key r \<and> k_status r = ''PROCESSING''
           then complete_row st b t r else r) rows) = Some (complete_row st b t row)"
  using assms by (subst find_map_upd) (auto dest: find_SomeD)

lemma keys_ok_map:
  "keys_ok E d \<Longrightarrow> keys_ok E (d\<lparr>idempotency_keys :=
     map (\<lambda>r. if Q r then complete_row st b t r else r) (idempotency_keys d)\<rparr>)"
  by (auto simp: keys_ok_def comp_def if_distrib cong: if_cong)

lemma Begin_stored_answer:
  assumes "keys_ok E (db w)" and "connected E w" and "env_uuid E principalID = Some pid"
    and "find (same_key pid scope key) (idempotency_keys (db w)) = Some row"
  shows "Begin E principalID scope key h now w =
     ((if k_request_hash row \<noteq> h then Inl ErrKeyConflict
       else case answer_of row of
         None \<Rightarrow> Inl ErrInProgress
       | Some (st, b) \<Rightarrow> Inr \<lparr>Replay = True, ResponseStatus = st, ResponseBody = b\<rparr>),
      w\<lparr>calls := calls w + 2\<rparr>)"
proof -
  have row: "row \<in> set (idempotency_keys (db w))" "same_key pid scope key row"
    using assms(4) by (auto dest: find_SomeD)
  then have t: "env_text E scope" "env_text E key"
    using assms(1) by (auto simp: keys_ok_def same_key_def)
  have "insert_key E principalID scope key h now (db w) = Inr (0, db w)"
    using assms(3) t row by (auto simp: insert_key_Inr list_ex_iff)
  then have 1: "call E (insert_key E principalID scope key h now) w = (Inr 0, w\<lparr>calls := Suc (calls w)\<rparr>)"
    using assms(2) by (simp add: call_NoFault)
  have 2: "call E (select_key E principalID scope key) (w\<lparr>calls := Suc (calls w)\<rparr>)
      = (Inr row, w\<lparr>calls := calls w + 2\<rparr>)"
    using assms(2-4) by (simp add: call_NoFault select_key_def cast_uuid_def)
  show ?thesis
    unfolding Begin_def using 1 2
    by (auto simp: bindE_def mapErr_def answer_of_def split: option.splits)
qed

lemma answer_of_PROCESSING: "k_status row = ''PROCESSING'' \<Longrightarrow> answer_of row = None"
  by (simp add: answer_of_def)

lemma key_entry_Some:
  "key_entry E d (principalID, scope, key) = Some (h, a) \<longleftrightarrow>
     (\<exists>pid row. env_uuid E principalID = Some pid
        \<and> find (same_key pid scope key) (idempotency_keys d) = Some row
        \<and> k_request_hash row = h \<and> answer_of row = a)"
  by (auto simp: key_entry_def split: option.splits)

interpretation key_store: idempotency_ledger
  "\<lambda>w. key_entry E (db w)" "key_claim E" "key_complete E" "stored_answer E"
  "\<lambda>w. keys_ok E (db w)" "connected E" same_data for E
proof (unfold_locales, goal_cases)
  case (1 w t k h w')
  obtain principalID scope key where k: "k = (principalID, scope, key)" by (cases k)
  from 1 obtain r where r: "Begin E principalID scope key h t w = (Inr r, w')" "\<not> Replay r"
    by (auto simp: key_claim_def k bindE_Inr_iff split: if_splits)
  then show ?case
  proof (cases rule: Begin_Inr)
    case (fresh pid)
    then have "find (same_key pid scope key) (idempotency_keys (db w)) = None"
      by (simp add: find_None_list_ex)
    moreover have "keys_ok E (db w')" using 1 fresh by (auto intro: keys_ok_append)
    ultimately show ?thesis using fresh
      by (simp add: k key_entry_def find_append answer_of_def)
  qed (use r in simp)
next
  case (2 t k h w b w')
  obtain principalID scope key where k: "k = (principalID, scope, key)" by (cases k)
  from 2 obtain r where r: "Begin E principalID scope key h t w = (Inr r, w')" "Replay r"
    "b = (ResponseStatus r, ResponseBody r)"
    by (auto simp: key_claim_def k bindE_Inr_iff split: if_splits)
  then show ?case
    by (cases rule: Begin_Inr) (auto simp: k key_entry_Some)
next
  case (3 w k h b t)
  obtain principalID scope key where k: "k = (principalID, scope, key)" by (cases k)
  from 3 obtain pid row where "env_uuid E principalID = Some pid"
    "find (same_key pid scope key) (idempotency_keys (db w)) = Some row"
    "k_request_hash row = h" "answer_of row = Some b"
    by (auto simp: k key_entry_Some)
  then show ?case using 3 Begin_stored_answer [of E w principalID pid scope key row h t]
    by (simp add: k key_claim_def bindE_def same_data_def split: prod.splits)
next
  case (4 w k h' x h t)
  obtain principalID scope key where k: "k = (principalID, scope, key)" by (cases k)
  from 4 obtain pid row where "env_uuid E principalID = Some pid"
    "find (same_key pid scope key) (idempotency_keys (db w)) = Some row"
    "k_request_hash row = h'"
    by (auto simp: k key_entry_Some)
  then show ?case using 4 Begin_stored_answer [of E w principalID pid scope key row h t]
    by (simp add: k key_claim_def bindE_def same_data_def)
next
  case (5 w t k b w')
  obtain principalID scope key where k: "k = (principalID, scope, key)" by (cases k)
  from 5 have "Complete E principalID scope key (fst b) (snd b) t w = (Inr (), w')"
    by (simp add: key_complete_def k)
  then show ?case using 5(1)
  proof (cases rule: Complete_Inr)
    case (1 pid row stored)
    then show ?thesis
      by (auto simp: k key_entry_def Complete_find stored_answer_def answer_of_PROCESSING)
  qed
qed

end
