(* ===== verification/Audit_Log.thy ===== *)
theory Audit_Log
  imports Database Go_Json
begin

text \<open>
  \<open>internal/platform/audit/audit.go\<close>: the append-only audit log. A Go value of type \<open>any\<close> is the JSON
  document it marshals to, and \<open>None\<close> is nil.
\<close>

record Event =
  ev_ID :: string
  ev_OrganizationID :: string
  ev_SiteID :: string
  ev_ActorID :: string
  ev_Action :: string
  ev_EntityKind :: string
  ev_EntityID :: string
  ev_Reason :: string
  ev_RequestID :: string
  ev_ExecutionID :: string
  ev_WorkflowID :: string
  ev_ApprovalID :: string
  ev_AIInvolvement :: "json option"
  ev_Before :: "json option"
  ev_After :: "json option"
  ev_Attributes :: "(string \<times> json) list option"
  ev_OccurredAt :: gotime

definition zero_Event :: Event where
  "zero_Event = \<lparr>ev_ID = [], ev_OrganizationID = [], ev_SiteID = [], ev_ActorID = [], ev_Action = [],
     ev_EntityKind = [], ev_EntityID = [], ev_Reason = [], ev_RequestID = [], ev_ExecutionID = [],
     ev_WorkflowID = [], ev_ApprovalID = [], ev_AIInvolvement = None, ev_Before = None,
     ev_After = None, ev_Attributes = None, ev_OccurredAt = 0\<rparr>"

definition jsonOrNull :: "json option \<Rightarrow> string" where
  "jsonOrNull value = (case value of None \<Rightarrow> ''null'' | Some v \<Rightarrow> json_text v)"

text \<open>\<open>json.Marshal\<close> of a Go map: null for the nil map, else the members sorted by key.\<close>

definition marshal_map :: "(string \<times> json) list option \<Rightarrow> string" where
  "marshal_map m = (case m of None \<Rightarrow> ''null'' | Some kvs \<Rightarrow> json_text (JObj (sort_key fst kvs)))"

text \<open>\<open>INSERT INTO audit_events\<close>: the casts, the text checks and the primary key.\<close>

definition insert_audit :: "env \<Rightarrow> Event \<Rightarrow> unit sql" where
  "insert_audit E event = (\<lambda>d.
     bindS (cast_uuid E (ev_ID event)) (\<lambda>ident.
     bindS (cast_uuid_null E (ev_OrganizationID event)) (\<lambda>org.
     bindS (cast_uuid_null E (ev_SiteID event)) (\<lambda>site.
     bindS (cast_uuid_null E (ev_ActorID event)) (\<lambda>actor.
     bindS (check_text E [ev_Action event, ev_EntityKind event, ev_EntityID event, ev_Reason event,
                          ev_RequestID event, ev_ExecutionID event, ev_WorkflowID event,
                          ev_ApprovalID event]) (\<lambda>_.
     bindS (cast_jsonb E (jsonOrNull (ev_AIInvolvement event))) (\<lambda>ai.
     bindS (cast_jsonb E (jsonOrNull (ev_Before event))) (\<lambda>before.
     bindS (cast_jsonb E (jsonOrNull (ev_After event))) (\<lambda>after.
     bindS (cast_jsonb E (marshal_map (ev_Attributes event))) (\<lambda>attributes.
     bindS (check (\<not> list_ex (\<lambda>r. a_id r = ident) (audit_events d)) (PgError ''23505'')) (\<lambda>_.
       Inr ((), d\<lparr>audit_events := audit_events d @
         [\<lparr>a_id = ident, a_organization_id = org, a_site_id = site, a_actor_id = actor,
           a_action = ev_Action event, a_entity_kind = ev_EntityKind event,
           a_entity_id = ev_EntityID event, a_reason = nullif_empty (ev_Reason event),
           a_request_id = nullif_empty (ev_RequestID event),
           a_execution_id = nullif_empty (ev_ExecutionID event),
           a_workflow_id = nullif_empty (ev_WorkflowID event),
           a_approval_id = nullif_empty (ev_ApprovalID event),
           a_ai_involvement = ai, a_before_value = before, a_after_value = after,
           a_attributes = attributes, a_occurred_at = env_ts E (ev_OccurredAt event)\<rparr>]\<rparr>))))))))))))"

definition Append :: "env \<Rightarrow> Event \<Rightarrow> unit prog" where
  "Append E event = wrapE ''append audit event'' (call E (insert_audit E event))"

lemma insert_audit_Inr:
  assumes "insert_audit E event d = Inr (u, d')"
  shows "\<exists>row. d' = d\<lparr>audit_events := audit_events d @ [row]\<rparr> \<and> env_uuid E (ev_ID event) = Some (a_id row)
     \<and> a_action row = ev_Action event \<and> a_entity_kind row = ev_EntityKind event
     \<and> a_entity_id row = ev_EntityID event
     \<and> (ev_ActorID event \<noteq> [] \<longrightarrow> a_actor_id row = env_uuid E (ev_ActorID event))
     \<and> a_occurred_at row = env_ts E (ev_OccurredAt event)
     \<and> env_jsonb E (jsonOrNull (ev_After event)) = Some (a_after_value row)
     \<and> \<not> list_ex (\<lambda>r. a_id r = a_id row) (audit_events d)"
  using assms
  by (auto simp: insert_audit_def bindS_Inr_iff cast_uuid_null_def split: if_splits)

end
