(* ===== verification/Organization_Store.thy ===== *)
theory Organization_Store
  imports Application Idempotency Audit_Log
begin

text \<open>
  \<open>internal/identity/adapter/postgres/organization_store.go\<close>: the organization store. One transaction
  claims the idempotency key, inserts the organization, the membership of its first administrator and
  the audit event, and stores the answer under the key. The store interprets the interface
  \<open>organization_store\<close> of the application layer.
\<close>

definition createOrganizationScope :: string where
  "createOrganizationScope = ''identity.organization.create.v1''"

text \<open>The dependencies that may be nil: pool, identifier source and clock, True when present.\<close>

record OrganizationStore =
  st_Pool :: bool
  st_IDs :: bool
  st_Clock :: bool

section \<open>Statements\<close>

definition new_organization_row :: "env \<Rightarrow> string \<Rightarrow> Organization \<Rightarrow> organization_row" where
  "new_organization_row E ident organization =
     \<lparr>o_id = ident, o_name = org_Name organization,
      o_source_of_truth = org_SourceOfTruth organization, o_external_system = None,
      o_external_id = None, o_version = org_Version organization,
      o_created_at = env_ts E (org_CreatedAt organization),
      o_updated_at = env_ts E (org_UpdatedAt organization)\<rparr>"

text \<open>\<open>INSERT INTO organizations\<close> with the checks and the primary key of the table; the external columns
  stay NULL, so the row must be one that Skawld owns.\<close>

definition insert_organization :: "env \<Rightarrow> Organization \<Rightarrow> unit sql" where
  "insert_organization E organization = (\<lambda>d.
     bindS (cast_uuid E (org_ID organization)) (\<lambda>ident.
     bindS (check_text E [org_Name organization, org_SourceOfTruth organization]) (\<lambda>_.
     bindS (check (btrim (org_Name organization) \<noteq> []
                   \<and> org_SourceOfTruth organization \<in> {OwnedBySkawld, ExternalReference}
                   \<and> org_Version organization > 0
                   \<and> org_SourceOfTruth organization = OwnedBySkawld) (PgError ''23514'')) (\<lambda>_.
     bindS (check (\<not> list_ex (\<lambda>r. o_id r = ident) (organizations d)) (PgError ''23505'')) (\<lambda>_.
       Inr ((), d\<lparr>organizations := organizations d @ [new_organization_row E ident organization]\<rparr>))))))"

definition new_membership_row :: "env \<Rightarrow> string \<Rightarrow> string \<Rightarrow> string \<Rightarrow> gotime \<Rightarrow> membership_row" where
  "new_membership_row E ident prin orga now =
     \<lparr>m_id = ident, m_principal_id = prin, m_organization_id = orga, m_site_id = None,
      m_role = ''Administrator'', m_created_at = env_ts E now\<rparr>"

text \<open>
  \<open>INSERT INTO memberships .. ON CONFLICT DO NOTHING\<close>. The site is NULL, and NULLs are distinct in a
  UNIQUE constraint, so only the primary key can conflict. The row references its principal and its
  organization.
\<close>

definition insert_membership :: "env \<Rightarrow> string \<Rightarrow> string \<Rightarrow> string \<Rightarrow> gotime \<Rightarrow> unit sql" where
  "insert_membership E ident principalID organizationID now = (\<lambda>d.
     bindS (cast_uuid E ident) (\<lambda>mid.
     bindS (cast_uuid E principalID) (\<lambda>prin.
     bindS (cast_uuid E organizationID) (\<lambda>orga.
       if list_ex (\<lambda>r. m_id r = mid) (memberships d) then Inr ((), d)
       else bindS (check (list_ex (\<lambda>r. p_id r = prin) (principals d)
                          \<and> list_ex (\<lambda>r. o_id r = orga) (organizations d)) (PgError ''23503'')) (\<lambda>_.
         Inr ((), d\<lparr>memberships := memberships d @ [new_membership_row E mid prin orga now]\<rparr>))))))"

lemmas organization_sql_defs [sql_defs] = insert_organization_def insert_membership_def

section \<open>Create\<close>

definition created_event :: "string \<Rightarrow> Principal \<Rightarrow> Organization \<Rightarrow> json \<Rightarrow> gotime \<Rightarrow> Event" where
  "created_event ident prin organization after now =
     zero_Event\<lparr>ev_ID := ident, ev_OrganizationID := org_ID organization, ev_ActorID := prin_ID prin,
       ev_Action := ''organization.created'', ev_EntityKind := ''organization'',
       ev_EntityID := org_ID organization, ev_After := Some after, ev_OccurredAt := now\<rparr>"

definition result_of :: "Organization \<Rightarrow> CreateOrganizationResult" where
  "result_of organization =
     \<lparr>res_ID = org_ID organization, res_Name = org_Name organization,
      res_SourceOfTruth = org_SourceOfTruth organization, res_Version = org_Version organization\<rparr>"

text \<open>The body of the transaction.\<close>

definition create_tx ::
  "env \<Rightarrow> Principal \<Rightarrow> string \<Rightarrow> CreateOrganization \<Rightarrow> string \<Rightarrow> (CreateOrganizationResult \<times> bool) prog" where
  "create_tx E prin idempotencyKey command requestHash =
     bindE (Now E) (\<lambda>now.
     bindE (Begin E (prin_ID prin) createOrganizationScope idempotencyKey requestHash now) (\<lambda>record.
       if Replay record then
         (case unmarshal_result (ResponseBody record) of
            None \<Rightarrow> failE (Wrap ''decode idempotent response'' (Errorf ''json''))
          | Some replayed \<Rightarrow> retE (replayed, True))
       else
         bindE (New E) (\<lambda>organizationID.
           case NewOrganization organizationID (cmd_Name command) now of
             Inl e \<Rightarrow> failE e
           | Inr organization \<Rightarrow>
               bindE (wrapE ''insert organization'' (call E (insert_organization E organization))) (\<lambda>_.
               bindE (New E) (\<lambda>membershipID.
               bindE (wrapE ''insert bootstrap administrator membership''
                        (call E (insert_membership E membershipID (prin_ID prin) (org_ID organization) now))) (\<lambda>_.
               let result = result_of organization; body = json_text (result_json result) in
               bindE (New E) (\<lambda>eventID.
               bindE (Append E (created_event eventID prin organization (result_json result) now)) (\<lambda>_.
               bindE (Complete E (prin_ID prin) createOrganizationScope idempotencyKey 201 body now) (\<lambda>_.
               retE (result, False)))))))))) "

definition Create :: "env \<Rightarrow> OrganizationStore \<Rightarrow> world create_op" where
  "Create E s prin idempotencyKey command =
     (case HashRequest E (command_json command) of
        Inl e \<Rightarrow> failE e
      | Inr requestHash \<Rightarrow>
          if \<not> st_Pool s \<or> \<not> st_IDs s \<or> \<not> st_Clock s
          then failE (Errorf ''organization store dependencies are required'')
          else InTx E (create_tx E prin idempotencyKey command requestHash))"

section \<open>The work between claim and completion\<close>

text \<open>What \<open>create_tx\<close> does between \<open>Begin\<close> and \<open>Complete\<close>, and how it answers a replay.\<close>

definition create_work ::
  "env \<Rightarrow> Principal \<Rightarrow> CreateOrganization \<Rightarrow> gotime \<Rightarrow> ((CreateOrganizationResult \<times> bool) \<times> int \<times> string) prog" where
  "create_work E prin command now =
     bindE (New E) (\<lambda>organizationID.
       case NewOrganization organizationID (cmd_Name command) now of
         Inl e \<Rightarrow> failE e
       | Inr organization \<Rightarrow>
           bindE (wrapE ''insert organization'' (call E (insert_organization E organization))) (\<lambda>_.
           bindE (New E) (\<lambda>membershipID.
           bindE (wrapE ''insert bootstrap administrator membership''
                    (call E (insert_membership E membershipID (prin_ID prin) (org_ID organization) now))) (\<lambda>_.
           bindE (New E) (\<lambda>eventID.
           bindE (Append E (created_event eventID prin organization (result_json (result_of organization)) now)) (\<lambda>_.
           retE ((result_of organization, False), 201, json_text (result_json (result_of organization)))))))))"

definition create_fin :: "int \<times> string \<Rightarrow> (CreateOrganizationResult \<times> bool) prog" where
  "create_fin b =
     (case unmarshal_result (snd b) of
        None \<Rightarrow> failE (Wrap ''decode idempotent response'' (Errorf ''json''))
      | Some replayed \<Rightarrow> retE (replayed, True))"

definition create_key :: "Principal \<Rightarrow> string \<Rightarrow> string \<times> string \<times> string" where
  "create_key prin key = (prin_ID prin, createOrganizationScope, key)"

lemma create_tx_guarded:
  "create_tx E prin key c h w =
     guarded (key_claim E (env_now E (ticks w)) (create_key prin key) h)
       (key_complete E (env_now E (ticks w)) (create_key prin key))
       (create_work E prin c (env_now E (ticks w))) create_fin (w\<lparr>ticks := Suc (ticks w)\<rparr>)"
proof -
  have case_bind: "bindE (case s of Inl e \<Rightarrow> failE e | Inr y \<Rightarrow> m y) f = (case s of Inl e \<Rightarrow> failE e | Inr y \<Rightarrow> bindE (m y) f)"
    for s :: "goerr + Organization" and m :: "Organization \<Rightarrow> 'x prog" and f :: "'x \<Rightarrow> 'y prog"
    by (simp split: sum.splits)
  have "create_tx E prin key c h w =
    bindE (Begin E (prin_ID prin) createOrganizationScope key h (env_now E (ticks w))) (\<lambda>r.
       if Replay r then create_fin (ResponseStatus r, ResponseBody r)
       else bindE (create_work E prin c (env_now E (ticks w))) (\<lambda>(x, b).
              bindE (key_complete E (env_now E (ticks w)) (create_key prin key) b) (\<lambda>_. retE x)))
     (w\<lparr>ticks := Suc (ticks w)\<rparr>)"
    unfolding create_tx_def create_work_def create_fin_def key_complete_def create_key_def
    by (simp add: bindE_Inr [where m = "Now E"] bindE_assoc case_bind Let_def cong: if_cong sum.case_cong)
  also have "\<dots> = guarded (key_claim E (env_now E (ticks w)) (create_key prin key) h)
       (key_complete E (env_now E (ticks w)) (create_key prin key))
       (create_work E prin c (env_now E (ticks w))) create_fin (w\<lparr>ticks := Suc (ticks w)\<rparr>)"
    unfolding guarded_def key_claim_def create_key_def
    by (simp add: bindE_assoc if_distrib [of "\<lambda>r. case r of None \<Rightarrow> _ | Some b \<Rightarrow> _ b"] cong: if_cong)
  finally show ?thesis .
qed

section \<open>What a successful create does\<close>

text \<open>
  The rows a first create adds: one organization, one administrator membership (left out only if its
  identifier is already taken) and one audit event; \<open>n\<close> is the position of the identifier source.
\<close>

definition new_result :: "env \<Rightarrow> nat \<Rightarrow> CreateOrganization \<Rightarrow> CreateOrganizationResult" where
  "new_result E n c = \<lparr>res_ID = env_id E n, res_Name = TrimSpace (cmd_Name c),
     res_SourceOfTruth = OwnedBySkawld, res_Version = 1\<rparr>"

definition create_rows ::
  "env \<Rightarrow> CreateOrganization \<Rightarrow> gotime \<Rightarrow> string \<Rightarrow> string \<Rightarrow> string \<Rightarrow> audit_row \<Rightarrow> tables \<Rightarrow> tables" where
  "create_rows E c now oid mid pid arow d =
     d\<lparr>organizations := organizations d @
          [\<lparr>o_id = oid, o_name = TrimSpace (cmd_Name c), o_source_of_truth = OwnedBySkawld,
            o_external_system = None, o_external_id = None, o_version = 1,
            o_created_at = env_ts E now, o_updated_at = env_ts E now\<rparr>],
       memberships := (if list_ex (\<lambda>r. m_id r = mid) (memberships d) then memberships d
          else memberships d @ [new_membership_row E mid pid oid now]),
       audit_events := audit_events d @ [arow]\<rparr>"

definition created :: "env \<Rightarrow> Principal \<Rightarrow> CreateOrganization \<Rightarrow> gotime \<Rightarrow> nat \<Rightarrow> tables \<Rightarrow> tables \<Rightarrow> bool" where
  "created E prin c now n d d' \<longleftrightarrow>
     (\<exists>oid mid pid arow.
        env_uuid E (env_id E n) = Some oid \<and> env_uuid E (env_id E (n + 1)) = Some mid
        \<and> env_uuid E (prin_ID prin) = Some pid
        \<and> \<not> list_ex (\<lambda>r. o_id r = oid) (organizations d)
        \<and> env_text E (TrimSpace (cmd_Name c)) \<and> TrimSpace (cmd_Name c) \<noteq> []
        \<and> a_action arow = ''organization.created'' \<and> a_entity_kind arow = ''organization''
        \<and> a_entity_id arow = env_id E n \<and> (prin_ID prin \<noteq> [] \<longrightarrow> a_actor_id arow = Some pid)
        \<and> a_occurred_at arow = env_ts E now
        \<and> env_jsonb E (json_text (result_json (new_result E n c))) = Some (a_after_value arow)
        \<and> d' = create_rows E c now oid mid pid arow d)"

lemma insert_organization_Inr:
  "insert_organization E orga d = Inr (u, d') \<longleftrightarrow>
     (\<exists>oid. env_uuid E (org_ID orga) = Some oid \<and> env_text E (org_Name orga)
        \<and> env_text E (org_SourceOfTruth orga) \<and> btrim (org_Name orga) \<noteq> []
        \<and> org_SourceOfTruth orga = OwnedBySkawld \<and> org_Version orga > 0
        \<and> \<not> list_ex (\<lambda>r. o_id r = oid) (organizations d)
        \<and> d' = d\<lparr>organizations := organizations d @ [new_organization_row E oid orga]\<rparr>)"
  by (auto simp: insert_organization_def bindS_Inr_iff)

lemma insert_membership_Inr:
  "insert_membership E ident prin orga now d = Inr (u, d') \<longleftrightarrow>
     (\<exists>mid pid oid. env_uuid E ident = Some mid \<and> env_uuid E prin = Some pid \<and> env_uuid E orga = Some oid
        \<and> (if list_ex (\<lambda>r. m_id r = mid) (memberships d) then d' = d
           else list_ex (\<lambda>r. p_id r = pid) (principals d) \<and> list_ex (\<lambda>r. o_id r = oid) (organizations d)
                \<and> d' = d\<lparr>memberships := memberships d @ [new_membership_row E mid pid oid now]\<rparr>))"
  by (cases "env_uuid E ident"; cases "env_uuid E prin"; cases "env_uuid E orga")
     (auto simp: insert_membership_def bindS_Inr_iff cast_uuid_def)

lemma create_work_Inr:
  assumes "create_work E prin c now w = (Inr (x, b), w')"
  shows "created E prin c now (ids w) (db w) (db w') \<and> x = (new_result E (ids w) c, False)
     \<and> b = (201, json_text (result_json (new_result E (ids w) c))) \<and> ids w' = ids w + 3"
proof -
  obtain orga w1 w2 w3 where
    orga: "NewOrganization (env_id E (ids w)) (cmd_Name c) now = Inr orga"
    and 1: "call E (insert_organization E orga) (w\<lparr>ids := Suc (ids w)\<rparr>) = (Inr (), w1)"
    and 2: "call E (insert_membership E (env_id E (ids w1)) (prin_ID prin) (org_ID orga) now)
              (w1\<lparr>ids := Suc (ids w1)\<rparr>) = (Inr (), w2)"
    and 3: "call E (insert_audit E (created_event (env_id E (ids w2)) prin orga
              (result_json (result_of orga)) now)) (w2\<lparr>ids := Suc (ids w2)\<rparr>) = (Inr (), w')"
    and x: "x = (result_of orga, False)" "b = (201, json_text (result_json (result_of orga)))"
    using assms unfolding create_work_def Append_def
    by (auto simp: bindE_Inr_iff split: sum.splits)
  have orga': "orga = \<lparr>org_ID = env_id E (ids w), org_Name = TrimSpace (cmd_Name c),
      org_SourceOfTruth = OwnedBySkawld, org_Version = 1, org_CreatedAt = now, org_UpdatedAt = now\<rparr>"
    and ne: "TrimSpace (cmd_Name c) \<noteq> []"
    using orga by (auto simp: NewOrganization_Inr)
  have sel: "org_ID orga = env_id E (ids w)" "org_Name orga = TrimSpace (cmd_Name c)"
    "org_SourceOfTruth orga = OwnedBySkawld" "org_Version orga = 1" "org_CreatedAt orga = now"
    "org_UpdatedAt orga = now"
    by (simp_all add: orga')
  have r: "result_of orga = new_result E (ids w) c"
    by (simp add: result_of_def new_result_def sel)
  from 1 obtain oid where oid: "env_uuid E (env_id E (ids w)) = Some oid"
    "env_text E (TrimSpace (cmd_Name c))" "\<not> list_ex (\<lambda>r. o_id r = oid) (organizations (db w))"
    and w1: "w1 = w\<lparr>ids := Suc (ids w), calls := Suc (calls w),
        db := (db w)\<lparr>organizations := organizations (db w) @ [new_organization_row E oid orga]\<rparr>\<rparr>"
    by (auto simp: call_Inr_iff insert_organization_Inr sel)
  from 2 obtain mid pid where mid: "env_uuid E (env_id E (ids w + 1)) = Some mid"
    "env_uuid E (prin_ID prin) = Some pid"
    and w2: "db w2 = (db w1)\<lparr>memberships := (if list_ex (\<lambda>r. m_id r = mid) (memberships (db w))
        then memberships (db w) else memberships (db w) @ [new_membership_row E mid pid oid now])\<rparr>"
      "ids w2 = ids w + 2"
    using oid(1) by (auto simp: call_Inr_iff insert_membership_Inr sel w1 split: if_splits)
  from 3 obtain d3 where d3: "insert_audit E (created_event (env_id E (ids w2)) prin orga
              (result_json (result_of orga)) now) (db w2) = Inr ((), d3)"
    "db w' = d3" "ids w' = ids w + 3"
    by (auto simp: call_Inr_iff w2)
  from insert_audit_Inr [OF d3(1)] obtain arow where arow: "d3 = (db w2)\<lparr>audit_events := audit_events (db w2) @ [arow]\<rparr>"
      "a_action arow = ''organization.created''" "a_entity_kind arow = ''organization''"
      "a_entity_id arow = env_id E (ids w)" "prin_ID prin \<noteq> [] \<longrightarrow> a_actor_id arow = Some pid"
      "a_occurred_at arow = env_ts E now"
      "env_jsonb E (json_text (result_json (new_result E (ids w) c))) = Some (a_after_value arow)"
    using mid(2) by (auto simp: created_event_def zero_Event_def jsonOrNull_def r sel)
  have "db w' = create_rows E c now oid mid pid arow (db w)"
    using d3(2) arow(1) w2(1) w1 by (simp add: new_organization_row_def sel create_rows_def)
  then have "created E prin c now (ids w) (db w) (db w')"
    unfolding created_def using oid mid ne arow by blast
  then show ?thesis using x d3(3) r by simp
qed

section \<open>Assumptions on the server\<close>

text \<open>
  What the code relies on of the server: text values are valid UTF-8, an identifier it accepts is
  written in valid UTF-8, and \<open>jsonb\<close> returns a flat object with the same members, in an order of its
  own.
\<close>

definition flat_member :: "string \<times> json \<Rightarrow> bool" where
  "flat_member m \<longleftrightarrow> wf_json (snd m) \<and> (case snd m of JStr _ \<Rightarrow> True | JNum _ \<Rightarrow> True | _ \<Rightarrow> False)"

definition server_ok :: "env \<Rightarrow> bool" where
  "server_ok E \<longleftrightarrow>
     (\<forall>s. env_text E s \<longrightarrow> valid_utf8 s)
     \<and> (\<forall>s u. env_uuid E s = Some u \<longrightarrow> valid_utf8 s)
     \<and> (\<forall>ms t. (\<forall>m \<in> set ms. flat_member m \<and> valid_utf8 (fst m)) \<and> distinct (map fst ms)
          \<and> env_jsonb E (json_text (JObj ms)) = Some t
          \<longrightarrow> (\<exists>ms'. json_parse t = Some (JObj ms') \<and> mset ms' = mset ms))"

lemma stored_result_reads_back:
  assumes "server_ok E" and "env_jsonb E (json_text (result_json r)) = Some t"
    and "valid_utf8 (res_ID r)" and "valid_utf8 (res_Name r)" and "valid_utf8 (res_SourceOfTruth r)"
    and "int64_range (res_Version r)"
  shows "unmarshal_result t = Some r"
proof -
  obtain ms where ms: "result_json r = JObj ms" by (simp add: result_json_def)
  have "\<forall>m \<in> set ms. flat_member m \<and> valid_utf8 (fst m)" "distinct (map fst ms)"
    using ms assms(3-5) by (auto simp: result_json_def flat_member_def ascii_valid_utf8) blast
  then obtain ms' where "json_parse t = Some (JObj ms')" "mset ms' = mset ms"
    using assms(1,2) ms unfolding server_ok_def by metis
  then show ?thesis
    using decode_result_perm [OF assms(6) ms] by (simp add: unmarshal_result_def)
qed

section \<open>The store implements its interface\<close>

text \<open>Relations on tables that the statements of a create keep, and so does the create.\<close>

locale work_relation = table_relation +
  fixes E :: env
  assumes R_organization: "insert_organization E orga d = Inr (u, d') \<Longrightarrow> R d d'"
    and R_membership: "insert_membership E i p o' t d = Inr (u, d') \<Longrightarrow> R d d'"
    and R_audit: "insert_audit E ev d = Inr (u, d') \<Longrightarrow> R d d'"
begin

lemma keep_create_work: "keeps (on_db R) (create_work E prin c now)"
  unfolding create_work_def Append_def
  by (intro keep_rules) (auto split: sum.split intro!: keep_rules keep_call
       dest: R_organization R_membership R_audit)

end

locale create_relation = work_relation +
  assumes R_insert_key: "insert_key E p sc k h t d = Inr (n, d') \<Longrightarrow> R d d'"
    and R_update_key: "update_key E p sc k st b t d = Inr (n, d') \<Longrightarrow> R d d'"
begin

lemma keep_Begin: "keeps (on_db R) (Begin E p sc k h t)"
  unfolding Begin_def
  by (intro keep_rules keep_call)
     (auto intro!: keep_rules split: option.split_asm option.split sum.split_asm
       dest: R_insert_key simp: R_refl select_key_def)

lemma keep_Complete: "keeps (on_db R) (Complete E p sc k st b t)"
  unfolding Complete_def
  by (intro keep_rules keep_call) (auto dest: R_update_key)

lemma keep_create_tx: "keeps (on_db R) (create_tx E prin key c h)"
proof (rule keepsI)
  fix w :: world
  let ?t = "env_now E (ticks w)" and ?k = "create_key prin key"
  have "keeps (on_db R) (guarded (key_claim E ?t ?k h) (key_complete E ?t ?k)
      (create_work E prin c ?t) create_fin)"
    unfolding guarded_def key_claim_def key_complete_def create_fin_def
    by (auto intro!: keep_rules keep_Begin keep_Complete keep_create_work split: prod.split option.split)
  from keepsD [OF this prod.collapse [symmetric], of "w\<lparr>ticks := Suc (ticks w)\<rparr>"]
  show "on_db R w (snd (create_tx E prin key c h w))"
    by (simp add: create_tx_guarded on_db_def)
qed

lemma keep_Create: "keeps (on_db R) (Create E s prin key c)"
  unfolding Create_def HashRequest_def
  by (auto intro!: keep_rules keep_InTx keep_create_tx)

end

interpretation same_keys: work_relation "\<lambda>d d'. idempotency_keys d' = idempotency_keys d" E for E
  by unfold_locales
     (auto simp: insert_organization_Inr insert_membership_Inr split: if_splits dest!: insert_audit_Inr)

lemma create_work_entry:
  assumes "create_work E prin c now w = (r, w')"
  shows "key_entry E (db w') k = key_entry E (db w) k" and "keys_ok E (db w') = keys_ok E (db w)"
  using keepsD [OF same_keys.keep_create_work assms] unfolding on_db_def
  by (rule key_entry_cong, rule keys_ok_cong)

definition request_hash :: "env \<Rightarrow> CreateOrganization \<Rightarrow> string" where
  "request_hash E c = env_sha256 E (json_text (command_json c))"

definition all_deps :: OrganizationStore where
  "all_deps = \<lparr>st_Pool = True, st_IDs = True, st_Clock = True\<rparr>"

lemma Create_all_deps:
  "Create E all_deps prin key c = InTx E (create_tx E prin key c (request_hash E c))"
  by (simp add: Create_def HashRequest_def all_deps_def request_hash_def)

text \<open>After a create that returned, first or replayed, the key holds an answer that reads back as the
  returned result.\<close>

lemma create_tx_answer:
  assumes "server_ok E" and "keys_ok E (db w)"
    and "create_tx E prin key c (request_hash E c) w = (Inr (r, b), w2)"
  shows "\<exists>st body. key_entry E (db w2) (create_key prin key) = Some (request_hash E c, Some (st, body))
     \<and> unmarshal_result body = Some r"
proof -
  define k where "k = create_key prin key"
  define w1 where "w1 = w\<lparr>ticks := Suc (ticks w)\<rparr>"
  note w2 = assms(3)
  define t where "t = env_now E (ticks w)"
  have g: "guarded (key_claim E t k (request_hash E c)) (key_complete E t k)
       (create_work E prin c t) create_fin w1 = (Inr (r, b), w2)"
    using w2 by (simp add: create_tx_guarded t_def k_def w1_def)
  have ok1: "keys_ok E (db w1)" using assms(2) by (simp add: w1_def)
  show ?thesis
  proof (cases "key_entry E (db w1) k")
    case None
    have "\<exists>b' c' s s'. create_work E prin c t s = (Inr ((r, b), c'), s') \<and> stored_answer E c' b'
        \<and> key_entry E (db w2) k = Some (request_hash E c, Some b')"
      using key_store.first_run_records [OF ok1 None _ g] create_work_entry by metis
    then obtain b' c' s s' where s: "create_work E prin c t s = (Inr ((r, b), c'), s')"
      and st: "stored_answer E c' b'"
      and e: "key_entry E (db w2) k = Some (request_hash E c, Some b')" by blast
    note wk = create_work_Inr [OF s]
    then have "valid_utf8 (res_ID r)" "valid_utf8 (res_Name r)" "valid_utf8 (res_SourceOfTruth r)"
      "int64_range (res_Version r)"
      using assms(1)
      by (auto simp: created_def server_ok_def new_result_def OwnedBySkawld_def int64_range_def
            ascii_valid_utf8)
    then have "unmarshal_result (snd b') = Some r"
      using stored_result_reads_back [OF assms(1)] st wk by (auto simp: stored_answer_def)
    then show ?thesis using e by (cases b') (auto simp: k_def)
  next
    case (Some ha)
    obtain x w3 where c: "key_claim E t k (request_hash E c) w1 = (Inr x, w3)"
      and rest: "(case x of Some b0 \<Rightarrow> create_fin b0
         | None \<Rightarrow> bindE (create_work E prin c t) (\<lambda>(y, b0). bindE (key_complete E t k b0) (\<lambda>_. retE y)))
         w3 = (Inr (r, b), w2)"
      using g unfolding guarded_def by (rule bindE_InrE)
    have "x \<noteq> None" using key_store.claim_new [OF ok1, of t k "request_hash E c" w3] c Some
      by (metis option.distinct(1))
    then obtain b0 where c0: "key_claim E t k (request_hash E c) w1 = (Inr (Some b0), w3)"
      and f: "create_fin b0 w3 = (Inr (r, b), w2)"
      using c rest by auto
    have "key_entry E (db w1) k = Some (request_hash E c, Some b0)"
      using key_store.claim_replay [OF c0] .
    moreover have "db w3 = db w1" using c0
      by (auto simp: key_claim_def k_def create_key_def bindE_Inr_iff elim!: Begin_Inr split: if_splits)
    moreover have "unmarshal_result (snd b0) = Some r" "w2 = w3"
      using f by (auto simp: create_fin_def split: option.splits)
    ultimately show ?thesis by (cases b0) (auto simp: k_def)
  qed
qed


lemma Create_answer:
  assumes "server_ok E" and "keys_ok E (db w)"
    and "Create E all_deps prin key c w = (Inr (r, b), w')"
  shows "\<exists>st body. key_entry E (db w') (create_key prin key) = Some (request_hash E c, Some (st, body))
     \<and> unmarshal_result body = Some r"
proof -
  let ?w = "w\<lparr>calls := Suc (calls w)\<rparr>"
  obtain w2 where "create_tx E prin key c (request_hash E c) ?w = (Inr (r, b), w2)"
    and "w' = w2\<lparr>calls := Suc (calls w2)\<rparr>"
    using InTx_InrD [OF assms(3) [unfolded Create_all_deps]] by auto
  then show ?thesis using create_tx_answer [OF assms(1), of ?w] assms(2) by auto
qed

text \<open>An error leaves the tables as they were, or only the answer to the commit was lost; then the key
  already holds the answer.\<close>

lemma Create_error:
  assumes "server_ok E" and "keys_ok E (db w)"
    and "Create E all_deps prin key c w = (Inl e, w')" and "db w' \<noteq> db w"
  shows "e = Wrap ''commit transaction'' DriverError \<and>
    (\<exists>r st body. key_entry E (db w') (create_key prin key) = Some (request_hash E c, Some (st, body))
       \<and> unmarshal_result body = Some r)"
proof -
  let ?w = "w\<lparr>calls := Suc (calls w)\<rparr>"
  obtain x w2 where "create_tx E prin key c (request_hash E c) ?w = (Inr x, w2)"
    and "w' = w2\<lparr>calls := Suc (calls w2)\<rparr>" "e = Wrap ''commit transaction'' DriverError"
    using InTx_InlD [OF assms(3) [unfolded Create_all_deps]] assms(4) by auto
  then show ?thesis using create_tx_answer [OF assms(1), of ?w prin key c "fst x" "snd x"] assms(2) by auto
qed

lemma Create_replays:
  assumes "keys_ok E (db w)" and "connected E w"
    and "key_entry E (db w) (create_key prin key) = Some (request_hash E c, Some (st, body))"
    and "unmarshal_result body = Some r"
  shows "\<exists>w'. Create E all_deps prin key c w = (Inr (r, True), w') \<and> same_data w w'"
proof -
  let ?w = "w\<lparr>calls := Suc (calls w), ticks := Suc (ticks w)\<rparr>"
  have "connected E ?w" using assms(2) by (simp add: connected_def)
  then obtain w2 where g: "guarded (key_claim E (env_now E (ticks w)) (create_key prin key) (request_hash E c))
      (key_complete E (env_now E (ticks w)) (create_key prin key))
      (create_work E prin c (env_now E (ticks w))) create_fin ?w = create_fin (st, body) w2"
    and s: "same_data ?w w2"
    using key_store.second_run_replays [of E ?w "create_key prin key" "request_hash E c" "(st, body)"
        "env_now E (ticks w)" "create_work E prin c (env_now E (ticks w))" create_fin]
      assms(1,3) by auto
  have "create_tx E prin key c (request_hash E c) (w\<lparr>calls := Suc (calls w)\<rparr>) = (Inr (r, True), w2)"
    using g assms(4) by (simp add: create_tx_guarded create_fin_def)
  then have "Create E all_deps prin key c w = (Inr (r, True), w2\<lparr>calls := Suc (calls w2)\<rparr>)"
    unfolding Create_all_deps using assms(2) s
    by (intro InTx_fn_ok) (auto simp: same_data_def)
  then show ?thesis using s by (auto simp: same_data_def)
qed

lemma Create_conflicts:
  assumes "keys_ok E (db w)" and "connected E w"
    and "key_entry E (db w) (create_key prin key) = Some (h, a)" and "h \<noteq> request_hash E c"
  shows "\<exists>w'. Create E all_deps prin key c w = (Inl ErrKeyConflict, w') \<and> same_data w w'"
proof -
  let ?w = "w\<lparr>calls := Suc (calls w), ticks := Suc (ticks w)\<rparr>"
  have "connected E ?w" using assms(2) by (simp add: connected_def)
  then obtain w2 where g: "guarded (key_claim E (env_now E (ticks w)) (create_key prin key) (request_hash E c))
      (key_complete E (env_now E (ticks w)) (create_key prin key))
      (create_work E prin c (env_now E (ticks w))) create_fin ?w = (Inl ErrKeyConflict, w2)"
    and s: "same_data ?w w2"
    using key_store.other_request_conflicts [of E ?w "create_key prin key" h a "request_hash E c"
        "env_now E (ticks w)" "create_work E prin c (env_now E (ticks w))" create_fin]
      assms(1,3,4) by auto
  have "create_tx E prin key c (request_hash E c) (w\<lparr>calls := Suc (calls w)\<rparr>) = (Inl ErrKeyConflict, w2)"
    using g by (simp add: create_tx_guarded)
  then have "Create E all_deps prin key c w = (Inl ErrKeyConflict, w2\<lparr>db := db w\<rparr>)"
    unfolding Create_all_deps using assms(2)
    by (intro InTx_fn_error) auto
  then show ?thesis using s by (auto simp: same_data_def)
qed

text \<open>The relation \<open>keys_kept\<close>: the table of keys stays well formed, whatever statement ran.\<close>

definition keys_kept :: "env \<Rightarrow> tables \<Rightarrow> tables \<Rightarrow> bool" where
  "keys_kept E d d' \<longleftrightarrow> (keys_ok E d \<longrightarrow> keys_ok E d')"

lemma keys_kept_same: "idempotency_keys d' = idempotency_keys d \<Longrightarrow> keys_kept E d d'"
  by (simp add: keys_kept_def keys_ok_def)

interpretation keys_kept: create_relation "keys_kept E" E for E
proof (unfold_locales, goal_cases)
  case 2
  then show ?case by (simp add: keys_kept_def)
next
  case 6
  then show ?case unfolding keys_kept_def insert_key_Inr by (metis keys_ok_append new_key_row_simps(1))
next
  case 7
  then show ?case
    by (auto simp: keys_kept_def update_key_def Let_def keys_ok_map split: sum.splits option.splits)
qed (simp_all add: keys_kept_same same_keys.R_organization [THEN keys_kept_same]
      same_keys.R_membership [THEN keys_kept_same] same_keys.R_audit [THEN keys_kept_same])

lemma Create_keys_ok: "keys_ok E (db w) \<Longrightarrow> Create E s prin key c w = (r, w') \<Longrightarrow> keys_ok E (db w')"
  using keepsD [OF keys_kept.keep_Create] by (fastforce simp: on_db_def keys_kept_def)

interpretation pg_store: organization_store
  "Create E all_deps" "request_hash E" "\<lambda>w. server_ok E \<and> keys_ok E (db w)" "connected E" same_data for E
proof (unfold_locales, goal_cases)
  case (1 w prin key c r b w' c')
  then obtain st body where
    "key_entry E (db w') (create_key prin key) = Some (request_hash E c', Some (st, body))"
    "unmarshal_result body = Some r"
    using Create_answer [of E w prin key c r b w'] by auto
  moreover have "keys_ok E (db w')"
    using 1 Create_keys_ok by blast
  ultimately show ?case using Create_replays 1(3) by blast
next
  case (2 w prin key c r b w' c')
  then obtain st body where
    "key_entry E (db w') (create_key prin key) = Some (request_hash E c, Some (st, body))"
    using Create_answer [of E w prin key c r b w'] by auto
  moreover have "keys_ok E (db w')"
    using 2 Create_keys_ok by blast
  ultimately show ?case using Create_conflicts 2 by metis
next
  case (3 w prin key c x w')
  then show ?case
    using Create_keys_ok by blast
qed


section \<open>The effect of a first create\<close>

lemma create_rows_frame:
  "create_rows E c t oid mid pid arow (d\<lparr>idempotency_keys := ks\<rparr>)
     = (create_rows E c t oid mid pid arow d)\<lparr>idempotency_keys := ks\<rparr>"
  "idempotency_keys (create_rows E c t oid mid pid arow d) = idempotency_keys d"
  by (simp_all add: create_rows_def)

lemma created_frame:
  assumes "created E prin c t n (d\<lparr>idempotency_keys := ks\<rparr>) d'"
  shows "\<exists>d1. created E prin c t n d d1 \<and> d' = d1\<lparr>idempotency_keys := ks\<rparr>
     \<and> idempotency_keys d1 = idempotency_keys d"
  using assms unfolding created_def create_rows_frame
  by (metis (no_types, lifting) create_rows_frame(2) tables.select_convs(1) tables.surjective tables.update_convs(7))

lemma complete_only_new:
  assumes "\<not> list_ex (same_key pid sc key) rows"
  shows "map (\<lambda>r. if same_key pid sc key r \<and> k_status r = ''PROCESSING'' then complete_row st b t r else r)
      (rows @ [new_key_row E pid sc key h now]) = rows @ [complete_row st b t (new_key_row E pid sc key h now)]"
  using assms by (auto simp: list_ex_iff intro!: map_idI)

text \<open>All that a first create does: the rows of \<open>created\<close> and the completed row of a key that was free.\<close>

definition first_create ::
  "env \<Rightarrow> Principal \<Rightarrow> string \<Rightarrow> CreateOrganization \<Rightarrow> gotime \<Rightarrow> nat \<Rightarrow> tables \<Rightarrow> tables \<Rightarrow> bool" where
  "first_create E prin key c t n d d' \<longleftrightarrow>
     (\<exists>d1 pid stored. created E prin c t n d d1 \<and> env_uuid E (prin_ID prin) = Some pid
        \<and> \<not> list_ex (same_key pid createOrganizationScope key) (idempotency_keys d)
        \<and> env_jsonb E (json_text (result_json (new_result E n c))) = Some stored
        \<and> d' = d1\<lparr>idempotency_keys := idempotency_keys d @
             [complete_row 201 stored (env_ts E t)
                (new_key_row E pid createOrganizationScope key (request_hash E c) t)]\<rparr>)"

lemma create_tx_first:
  assumes "keys_ok E (db w)" and "create_tx E prin key c (request_hash E c) w = (Inr (r, False), w')"
  shows "first_create E prin key c (env_now E (ticks w)) (ids w) (db w) (db w') \<and> r = new_result E (ids w) c"
proof -
  define h where "h = request_hash E c"
  let ?t = "env_now E (ticks w)" and ?w = "w\<lparr>ticks := Suc (ticks w)\<rparr>"
  obtain rec w1 where b: "Begin E (prin_ID prin) createOrganizationScope key h ?t ?w = (Inr rec, w1)"
    and nr: "\<not> Replay rec"
    and rest: "bindE (create_work E prin c ?t) (\<lambda>(x, b). bindE (key_complete E ?t (create_key prin key) b)
       (\<lambda>_. retE x)) w1 = (Inr (r, False), w')"
    using assms(2) [folded h_def] unfolding create_tx_guarded guarded_def key_claim_def create_key_def
    by (auto simp: bindE_Inr_iff create_fin_def split: if_splits option.splits)
  then obtain pid where pid: "env_uuid E (prin_ID prin) = Some pid"
    "\<not> list_ex (same_key pid createOrganizationScope key) (idempotency_keys (db w))"
    "env_text E createOrganizationScope" "env_text E key"
    "db w1 = (db w)\<lparr>idempotency_keys := idempotency_keys (db w) @ [new_key_row E pid createOrganizationScope key h ?t]\<rparr>"
    using b nr by (auto elim!: Begin_Inr)
  from rest obtain x bd w2 where wk: "create_work E prin c ?t w1 = (Inr (x, bd), w2)"
    and cp: "key_complete E ?t (create_key prin key) bd w2 = (Inr (), w')" and x: "x = (r, False)"
    by (auto simp: bindE_Inr_iff)
  have ids1: "ids w1 = ids w" using b
    by (auto simp: Begin_def bindE_Inr_iff call_Inr_iff split: if_splits option.splits)
  note wi = create_work_Inr [OF wk, unfolded ids1]
  obtain d1 where d1: "created E prin c ?t (ids w) (db w) d1" "idempotency_keys d1 = idempotency_keys (db w)"
    "db w2 = d1\<lparr>idempotency_keys := idempotency_keys (db w) @ [new_key_row E pid createOrganizationScope key h ?t]\<rparr>"
    using wi created_frame pid(5) by metis
  have ok2: "keys_ok E (db w2)"
    using create_work_entry(2) [OF wk] pid(5) keys_ok_append [OF assms(1) pid(3,4,2)] by simp
  have cp': "Complete E (prin_ID prin) createOrganizationScope key 201 (json_text (result_json r)) ?t w2 = (Inr (), w')"
    using cp wi x by (simp add: key_complete_def create_key_def)
  then show ?thesis using ok2
  proof (cases rule: Complete_Inr)
    case (1 pid' row stored)
    then have "pid' = pid" using pid(1) by simp
    then have "db w' = d1\<lparr>idempotency_keys := idempotency_keys (db w) @
          [complete_row 201 stored (env_ts E ?t) (new_key_row E pid createOrganizationScope key h ?t)]\<rparr>"
      using 1 d1(3) complete_only_new [OF pid(2)] by simp
    then show ?thesis using d1(1) wi x pid(1,2) 1(2) unfolding first_create_def h_def by blast
  qed
qed


lemma create_tx_replay:
  assumes "create_tx E prin key c h w = (Inr (r, True), w')"
  shows "db w' = db w"
proof -
  let ?t = "env_now E (ticks w)" and ?w = "w\<lparr>ticks := Suc (ticks w)\<rparr>"
  obtain rec w1 where b: "Begin E (prin_ID prin) createOrganizationScope key h ?t ?w = (Inr rec, w1)"
    and rest: "(if Replay rec then create_fin (ResponseStatus rec, ResponseBody rec)
      else bindE (create_work E prin c ?t) (\<lambda>(x, b). bindE (key_complete E ?t (create_key prin key) b)
       (\<lambda>_. retE x))) w1 = (Inr (r, True), w')"
    using assms unfolding create_tx_guarded guarded_def key_claim_def create_key_def
    by (auto simp: bindE_Inr_iff split: if_splits)
  have "Replay rec" using rest
    by (auto simp: bindE_Inr_iff dest!: create_work_Inr split: if_splits)
  then show ?thesis using rest b
    by (auto simp: create_fin_def elim!: Begin_Inr split: option.splits)
qed

lemma Create_outcome:
  assumes "keys_ok E (db w)" and "Create E all_deps prin key c w = (x, w')"
  shows "case x of
      Inr (r, False) \<Rightarrow> first_create E prin key c (env_now E (ticks w)) (ids w) (db w) (db w')
                        \<and> r = new_result E (ids w) c
    | Inr (r, True) \<Rightarrow> db w' = db w
    | Inl e \<Rightarrow> db w' = db w \<or> e = Wrap ''commit transaction'' DriverError
        \<and> first_create E prin key c (env_now E (ticks w)) (ids w) (db w) (db w')"
proof -
  let ?w = "w\<lparr>calls := Suc (calls w)\<rparr>"
  have tx: "if b then db w2 = db w else
      first_create E prin key c (env_now E (ticks w)) (ids w) (db w) (db w2) \<and> r = new_result E (ids w) c"
    if "create_tx E prin key c (request_hash E c) ?w = (Inr (r, b), w2)" for r b w2
    using that create_tx_replay [of E prin key c _ ?w r w2] create_tx_first [of E ?w prin key c r w2] assms(1)
    by (cases b) simp_all
  show ?thesis
  proof (cases x)
    case (Inl e)
    show ?thesis
    proof (cases "db w' = db w")
      case False
      then obtain r b w2 where "create_tx E prin key c (request_hash E c) ?w = (Inr (r, b), w2)"
        "e = Wrap ''commit transaction'' DriverError" "db w' = db w2"
        using InTx_InlD [OF assms(2) [unfolded Create_all_deps Inl]] by auto
      then show ?thesis using tx [of r b w2] False Inl by (cases b) simp_all
    qed (simp add: Inl)
  next
    case (Inr y)
    obtain r b where y: "y = (r, b)" by (cases y)
    obtain w2 where "create_tx E prin key c (request_hash E c) ?w = (Inr (r, b), w2)" "db w' = db w2"
      using InTx_InrD [OF assms(2) [unfolded Create_all_deps Inr y]] by auto
    then show ?thesis using tx [of r b w2] Inr y by (cases b) simp_all
  qed
qed

lemma Create_db_cases:
  assumes "keys_ok E (db w)" and "Create E all_deps prin key c w = (x, w')"
  shows "db w' = db w \<or> first_create E prin key c (env_now E (ticks w)) (ids w) (db w) (db w')"
  using Create_outcome [OF assms] by (auto split: sum.splits prod.splits bool.splits)

text \<open>A key that has been used creates nothing more.\<close>

lemma first_create_once:
  assumes "first_create E prin key c t n d d'" 
  shows "\<not> first_create E prin key c' t' n' d' d''"
  using assms by (auto simp: first_create_def same_key_def complete_row_def new_key_row_def)

text \<open>A client that sends requests under one key, one after the other, whatever the outcomes.\<close>

primrec attempts :: "env \<Rightarrow> Principal \<Rightarrow> string \<Rightarrow> CreateOrganization list \<Rightarrow> world \<Rightarrow> world" where
  "attempts E prin key [] w = w"
| "attempts E prin key (c # cs) w = attempts E prin key cs (snd (Create E all_deps prin key c w))"

lemma attempts_after_first:
  assumes "keys_ok E (db w)" and "\<And>c t n d. \<not> first_create E prin key c t n (db w) d"
  shows "db (attempts E prin key cs w) = db w"
  using assms
proof (induction cs arbitrary: w)
  case (Cons c cs)
  obtain x w' where w': "Create E all_deps prin key c w = (x, w')" by fastforce
  then have "db w' = db w" using Create_db_cases Cons.prems by blast
  then show ?case using Cons w' by simp
qed simp

lemma attempts_one_effect:
  assumes "keys_ok E (db w)"
  shows "db (attempts E prin key cs w) = db w
    \<or> (\<exists>c \<in> set cs. \<exists>t n. first_create E prin key c t n (db w) (db (attempts E prin key cs w)))"
  using assms
proof (induction cs arbitrary: w)
  case (Cons c cs)
  obtain x w' where w': "Create E all_deps prin key c w = (x, w')" by fastforce
  have ok: "keys_ok E (db w')" using Create_keys_ok Cons.prems w' by blast
  from Create_db_cases [OF Cons.prems w'] show ?case
  proof
    assume "db w' = db w"
    then show ?thesis using Cons.IH [OF ok] w' by auto
  next
    assume f: "first_create E prin key c (env_now E (ticks w)) (ids w) (db w) (db w')"
    then have "db (attempts E prin key cs w') = db w'"
      using attempts_after_first [OF ok] first_create_once by blast
    then show ?thesis using f w' by auto
  qed
qed simp

end
