(* ===== verification/Organization_Create.thy ===== *)
theory Organization_Create
  imports Organization_Store
begin

text \<open>
  The correctness of creating an organization, from the service down to the tables: replay, conflict,
  all or nothing, retry after a lost commit, at most one effect. The statements rest on the
  interpretations \<open>key_store\<close> and \<open>pg_store\<close> of the interfaces of the idempotency store and of the
  organization store; a sample run of the program exercises each of them.
\<close>

section \<open>A sample run\<close>

definition sample_tables :: tables where
  "sample_tables = empty_tables\<lparr>principals := [\<lparr>p_id = ''alice'', p_external_subject = ''sub-1'',
     p_display_name = ''Alice'', p_email = None, p_status = ''ACTIVE'', p_created_at = 0, p_updated_at = 0\<rparr>]\<rparr>"

definition sample_admin :: Principal where
  "sample_admin = zero_Principal\<lparr>prin_ID := ''alice'', prin_Permissions := {PermissionOrganizationCreate}\<rparr>"

definition acme :: CreateOrganization where
  "acme = \<lparr>cmd_Name = ''Acme''\<rparr>"

text \<open>The sample environment in which the answer to the seventh call over the connection, the commit of
  the first create, is lost.\<close>

definition lossy_env :: env where
  "lossy_env = sample_env\<lparr>env_fault := (\<lambda>i. if i = 6 then FailAfter else NoFault)\<rparr>"

lemma server_ok_sample_fault: "server_ok (sample_env\<lparr>env_fault := f\<rparr>)"
proof -
  have "json_parse (json_text (JObj ms)) = Some (JObj ms)"
    if "\<forall>m \<in> set ms. flat_member m \<and> valid_utf8 (fst m)" "distinct (map fst ms)" for ms
    using that by (intro json_parse_text) (auto simp: flat_member_def list_all_iff)
  then show ?thesis
    by (auto simp: server_ok_def sample_env_def split: if_splits)
qed

lemma server_ok_sample: "server_ok sample_env" "server_ok lossy_env"
  using server_ok_sample_fault [of "env_fault sample_env"] server_ok_sample_fault
  by (simp_all add: lossy_env_def)

lemma sample_text: "valid_utf8 ''key-0001''" "valid_utf8 createOrganizationScope" "valid_utf8 ''alice''"
  "valid_utf8 ''Acme''" "valid_utf8 ''organization.created''" "valid_utf8 ''organization''"
  "valid_utf8 OwnedBySkawld" "valid_utf8 ''i''" "valid_utf8 ''ix''" "valid_utf8 ''ixx''" "valid_utf8 []"
  by (simp_all add: ascii_valid_utf8 createOrganizationScope_def OwnedBySkawld_def)

lemma sample_trim: "TrimSpace ''Acme'' = ''Acme''" "TrimSpace ''key-0001'' = ''key-0001''"
  "TrimSpace ''Globex'' = ''Globex''"
  by (simp_all add: TrimSpace_id_iff space_runes_def suffix_to_prefix) 

lemmas sample_run_defs = Let_def Create_all_deps InTx_unfold create_tx_def Begin_def bindE_def mapErr_def call_def
  apply_sql_def insert_key_def cast_uuid_def lossy_env_def sample_admin_def sample_text
  sample_tables_def empty_tables_def zero_Record_def acme_def sample_trim NewOrganization_def
  insert_organization_def check_text_def btrim_def insert_membership_def Append_def insert_audit_def
  created_event_def zero_Event_def cast_uuid_null_def cast_jsonb_def new_organization_row_def
  Complete_def update_key_def new_result_def result_of_def

lemma keys_ok_empty: "idempotency_keys d = [] \<Longrightarrow> keys_ok E d"
  by (simp add: keys_ok_def)

lemma sample_keys_ok: "keys_ok E (db (world_of sample_tables))"
  by (simp add: keys_ok_empty sample_tables_def empty_tables_def)

lemma sample_run:
  "\<exists>w'. Create sample_env all_deps sample_admin ''key-0001'' acme (world_of sample_tables)
   = (Inr (new_result sample_env 0 acme, False), w')"
  by (simp add: sample_run_defs)

lemma lossy_run:
  "\<exists>w'. Create lossy_env all_deps sample_admin ''key-0001'' acme (world_of sample_tables)
   = (Inl (Wrap ''commit transaction'' DriverError), w') \<and> calls w' = 7 \<and> db w' \<noteq> sample_tables"
  by (simp add: sample_run_defs)

lemma sample_service:
  "OrganizationService_Create st sample_admin k c w =
     (if length (TrimSpace k) < 8 \<or> length (TrimSpace k) > 200 then failE ErrIdempotencyKey
        else if TrimSpace (cmd_Name c) = [] then failE ErrInvalidOrganization
        else case st of
          None \<Rightarrow> failE (Errorf ''organization store is required'')
        | Some create \<Rightarrow> create sample_admin (TrimSpace k) c) w"
  by (simp add: OrganizationService_Create_def Let_def) (simp add: sample_admin_def Has_def)


section \<open>Properties of the store and of the service on top of it\<close>

text \<open>
  A create that returned is answered again: the same principal sends the same command under the
  same key (blanks around the key do not count), gets the same result marked as a replay, and nothing
  in the tables changes. The hypotheses on the server are those of \<open>server_ok\<close>.
\<close>

lemma create_organization_replays:
  assumes "server_ok E" and "keys_ok E (db w)"
    and "OrganizationService_Create (Some (Create E all_deps)) prin key c w = (Inr (r, b), w')"
    and "connected E w'" and "TrimSpace key' = TrimSpace key"
  shows "\<exists>w''. OrganizationService_Create (Some (Create E all_deps)) prin key' c w' = (Inr (r, True), w'')
     \<and> db w'' = db w'"
  using pg_store.service_replays [of E w prin key c r b w' key'] assms by (auto simp: same_data_def)

text \<open>
  C13. The key is bound to its request: once a create returned, a command with another name under the
  same key is refused as a conflict and changes nothing, provided the hash does not collide on the two
  request texts.
\<close>

theorem create_organization_conflicts:
  assumes "server_ok E" and "keys_ok E (db w)"
    and "OrganizationService_Create (Some (Create E all_deps)) prin key c w = (Inr (r, b), w')"
    and "connected E w'" and "TrimSpace key' = TrimSpace key"
    and "cmd_Name c' \<noteq> cmd_Name c" and "TrimSpace (cmd_Name c') \<noteq> []"
    and "valid_utf8 (cmd_Name c)" and "valid_utf8 (cmd_Name c')"
    and "env_sha256 E (json_text (command_json c')) = env_sha256 E (json_text (command_json c))
          \<longrightarrow> json_text (command_json c') = json_text (command_json c)"
  shows "\<exists>w''. OrganizationService_Create (Some (Create E all_deps)) prin key' c' w' = (Inl ErrKeyConflict, w'')
     \<and> db w'' = db w'"
proof -
  have "request_hash E c' \<noteq> request_hash E c"
    using assms(6,10) command_text_inj [OF assms(9,8)] by (auto simp: request_hash_def)
  then show ?thesis
    using pg_store.service_conflicts [of E w prin key c r b w' key' c'] assms(1-5,7)
    by (auto simp: same_data_def)
qed

theorem create_organization_conflicts_witness:
  "\<exists>w' w''. OrganizationService_Create (Some (Create sample_env all_deps)) sample_admin ''key-0001'' acme
       (world_of sample_tables) = (Inr (new_result sample_env 0 acme, False), w')
     \<and> OrganizationService_Create (Some (Create sample_env all_deps)) sample_admin ''key-0001''
         \<lparr>cmd_Name = ''Globex''\<rparr> w' = (Inl ErrKeyConflict, w'')"
proof -
  obtain w' where w': "OrganizationService_Create (Some (Create sample_env all_deps)) sample_admin ''key-0001''
      acme (world_of sample_tables) = (Inr (new_result sample_env 0 acme, False), w')"
    using sample_run by (auto simp: sample_service sample_trim acme_def)
  moreover have "valid_utf8 ''Globex''" by (simp add: ascii_valid_utf8)
  ultimately show ?thesis
    using create_organization_conflicts [OF server_ok_sample(1) sample_keys_ok w' _ refl,
        of "\<lparr>cmd_Name = ''Globex''\<rparr>"] sample_text(4)
    by (auto simp: connected_def acme_def sample_trim)
qed





text \<open>
  C11. At most once: a client that sends any number of requests under one key, with any commands and
  whatever failures occur in between, causes the effect of at most one of them, once.
\<close>

theorem create_at_most_once:
  assumes "keys_ok E (db w)"
  shows "db (attempts E prin key cs w) = db w
    \<or> (\<exists>c \<in> set cs. \<exists>t n. first_create E prin key c t n (db w) (db (attempts E prin key cs w)))"
  using attempts_one_effect [OF assms] .

theorem create_at_most_once_witness:
  "db (attempts lossy_env sample_admin ''key-0001'' [acme, acme] (world_of sample_tables)) = sample_tables
    \<or> (\<exists>t n. first_create lossy_env sample_admin ''key-0001'' acme t n sample_tables
          (db (attempts lossy_env sample_admin ''key-0001'' [acme, acme] (world_of sample_tables))))"
  using create_at_most_once [OF sample_keys_ok, of lossy_env sample_admin "''key-0001''" "[acme, acme]"]
  by simp

end
