(* ===== verification/Site_Reader.thy ===== *)
theory Site_Reader
  imports Application Database
begin

text \<open>
  \<open>internal/identity/adapter/postgres/site_reader.go\<close>: the query for one site, scoped to the
  organization and the sites of the principal, and the check on its answer. It interprets the interface
  \<open>site_source\<close> of the application layer.

  The site IDs of a principal are a Go slice; the code never builds an empty one that is not nil, so
  the empty list stands for nil. Whether the driver sends nil as SQL NULL is \<open>env_nil_null\<close>; the
  condition on the array is evaluated in the three-valued logic of SQL.
\<close>

section \<open>The query\<close>

fun cast_uuids :: "env \<Rightarrow> string list \<Rightarrow> goerr + string list" where
  "cast_uuids E [] = Inr []"
| "cast_uuids E (s # ss) = bindS (cast_uuid E s) (\<lambda>u. bindS (cast_uuids E ss) (\<lambda>us. Inr (u # us)))"

text \<open>\<open>$3::uuid[]\<close>: None is NULL.\<close>

definition cast_uuid_array :: "env \<Rightarrow> string list \<Rightarrow> goerr + string list option" where
  "cast_uuid_array E siteIDs =
     (if siteIDs = [] \<and> env_nil_null E then Inr None else bindS (cast_uuids E siteIDs) (\<lambda>us. Inr (Some us)))"

text \<open>\<open>cardinality($3) = 0 OR id = ANY($3)\<close>: None is NULL.\<close>

definition in_array :: "string \<Rightarrow> string list option \<Rightarrow> bool option" where
  "in_array ident arr = map_option (\<lambda>us. length us = 0 \<or> ident \<in> set us) arr"

definition site_hit :: "string \<Rightarrow> string \<Rightarrow> string list option \<Rightarrow> site_row \<Rightarrow> bool" where
  "site_hit sid oid arr r \<longleftrightarrow>
     s_id r = sid \<and> s_organization_id r = oid \<and> in_array (s_id r) arr = Some True"

definition select_site :: "env \<Rightarrow> string \<Rightarrow> string \<Rightarrow> string list \<Rightarrow> site_row sql" where
  "select_site E siteID organizationID siteIDs = (\<lambda>d.
     bindS (cast_uuid E siteID) (\<lambda>sid.
     bindS (cast_uuid E organizationID) (\<lambda>oid.
     bindS (cast_uuid_array E siteIDs) (\<lambda>arr.
       case find (site_hit sid oid arr) (sites d) of
         None \<Rightarrow> Inl ErrNoRows
       | Some r \<Rightarrow> Inr (r, d)))))"

definition site_of_row :: "site_row \<Rightarrow> Site" where
  "site_of_row r = \<lparr>site_ID = s_id r, site_OrganizationID = s_organization_id r, site_Code = s_code r,
     site_Name = s_name r, site_Timezone = s_timezone r, site_Status = s_status r\<rparr>"

definition SiteReader_Get :: "env \<Rightarrow> world site_op" where
  "SiteReader_Get E prin siteID =
     bindE (mapErr (\<lambda>err. if errors_Is err ErrNoRows then ErrSiteNotFound
                          else Wrap ''get authorized site'' err)
              (call E (select_site E siteID (prin_OrganizationID prin) (prin_SiteIDs prin))))
       (\<lambda>row. let site = site_of_row row in
          if \<not> CanAccessSite prin (site_OrganizationID site) (site_ID site) then failE ErrSiteNotFound
          else retE site)"

lemmas site_sql_defs [sql_defs] = select_site_def

section \<open>What the reader returns\<close>

lemma CanAccessSite_iff:
  "CanAccessSite p oid sid \<longleftrightarrow> prin_OrganizationID p \<noteq> [] \<and> prin_OrganizationID p = oid \<and> sid \<noteq> []
     \<and> (prin_SiteIDs p = [] \<or> sid \<in> set (prin_SiteIDs p))"
  by (auto simp: CanAccessSite_def site_loop_mem)

definition row_accessible :: "Principal \<Rightarrow> site_row \<Rightarrow> bool" where
  "row_accessible p r \<longleftrightarrow> CanAccessSite p (s_organization_id r) (s_id r)"

lemma select_site_Inr:
  assumes "select_site E siteID oid siteIDs d = Inr (r, d')"
  shows "d' = d \<and> r \<in> set (sites d) \<and> env_uuid E siteID = Some (s_id r)
     \<and> env_uuid E oid = Some (s_organization_id r) \<and> \<not> (siteIDs = [] \<and> env_nil_null E)"
proof -
  obtain u v arr where c: "env_uuid E siteID = Some u" "env_uuid E oid = Some v"
      "cast_uuid_array E siteIDs = Inr arr"
    and f: "(case find (site_hit u v arr) (sites d) of None \<Rightarrow> Inl ErrNoRows | Some r \<Rightarrow> Inr (r, d)) = Inr (r, d')"
    using assms by (auto simp: select_site_def bindS_Inr_iff)
  then have "find (site_hit u v arr) (sites d) = Some r" "d' = d" by (auto split: option.splits)
  then show ?thesis
    using c by (auto simp: site_hit_def cast_uuid_array_def in_array_def dest!: find_SomeD)
qed

lemma SiteReader_Get_Inr:
  assumes "SiteReader_Get E prin siteID w = (Inr s, w')"
  shows "\<exists>r \<in> set (sites (db w)). s = site_of_row r \<and> row_accessible prin r
     \<and> env_uuid E siteID = Some (s_id r) \<and> \<not> (prin_SiteIDs prin = [] \<and> env_nil_null E)"
proof -
  obtain r d' where r: "select_site E siteID (prin_OrganizationID prin) (prin_SiteIDs prin) (db w) = Inr (r, d')"
    and s: "s = site_of_row r" "CanAccessSite prin (site_OrganizationID s) (site_ID s)"
    using assms unfolding SiteReader_Get_def
    by (auto simp: bindE_Inr_iff call_Inr_iff Let_def split: if_splits)
  then show ?thesis
    using select_site_Inr [OF r] by (auto simp: row_accessible_def site_of_row_def)
qed

text \<open>The reader reads: whatever statement runs, the tables stay.\<close>

lemma select_site_same: "select_site E siteID oid siteIDs d = Inr (r, d') \<Longrightarrow> d' = d"
  using select_site_Inr by blast

interpretation same_tables: table_relation "\<lambda>d d'. d' = d"
  by unfold_locales auto

lemma SiteReader_Get_reads: "keeps (on_db (\<lambda>d d'. d' = d)) (SiteReader_Get E prin siteID)"
  unfolding SiteReader_Get_def
  by (intro same_tables.keep_rules same_tables.keep_call)
     (auto simp: Let_def dest: select_site_same intro!: same_tables.keep_rules)

interpretation pg_sites: site_source "SiteReader_Get E" "\<lambda>w w'. db w' = db w" for E
proof (unfold_locales, goal_cases)
  case (1 prin siteID w s w')
  then show ?case using SiteReader_Get_Inr [OF 1] by (auto simp: row_accessible_def site_of_row_def)
next
  case (2 prin siteID w r w')
  then show ?case using keepsD [OF SiteReader_Get_reads] by (fastforce simp: on_db_def)
qed simp

text \<open>On a connection that answers, the result is a function of the sites the principal may see.\<close>

definition site_params :: "env \<Rightarrow> Principal \<Rightarrow> string \<Rightarrow> goerr + string \<times> string \<times> string list option" where
  "site_params E prin siteID =
     bindS (cast_uuid E siteID) (\<lambda>sid. bindS (cast_uuid E (prin_OrganizationID prin)) (\<lambda>oid.
       bindS (cast_uuid_array E (prin_SiteIDs prin)) (\<lambda>arr. Inr (sid, oid, arr))))"

definition visible_answer :: "env \<Rightarrow> Principal \<Rightarrow> string \<Rightarrow> site_row list \<Rightarrow> goerr + Site" where
  "visible_answer E prin siteID rows =
     (case site_params E prin siteID of
        Inl e \<Rightarrow> Inl (Wrap ''get authorized site'' e)
      | Inr (sid, oid, arr) \<Rightarrow>
          (case find (site_hit sid oid arr) rows of
             None \<Rightarrow> Inl ErrSiteNotFound
           | Some r \<Rightarrow> Inr (site_of_row r)))"

lemma find_filter_distinct:
  assumes "distinct (map k xs)" and "\<And>x. P x \<Longrightarrow> k x = a"
  shows "find P (filter Q xs) = (case find P xs of None \<Rightarrow> None | Some x \<Rightarrow> if Q x then Some x else None)"
  using assms(1)
proof (induction xs)
  case (Cons x xs)
  have "find P xs = None" if "P x"
    using Cons.prems assms(2) that by (force simp: find_None_iff)
  then show ?case using Cons by (auto split: option.split)
qed simp

lemma select_site_params:
  "select_site E siteID (prin_OrganizationID prin) (prin_SiteIDs prin) d =
     (case site_params E prin siteID of
        Inl e \<Rightarrow> Inl e
      | Inr (sid, oid, arr) \<Rightarrow>
          (case find (site_hit sid oid arr) (sites d) of None \<Rightarrow> Inl ErrNoRows | Some r \<Rightarrow> Inr (r, d)))"
  by (cases "cast_uuid E siteID"; cases "cast_uuid E (prin_OrganizationID prin)";
      cases "cast_uuid_array E (prin_SiteIDs prin)")
     (simp_all add: select_site_def site_params_def del: cast_uuid_Inr_iff)

lemma site_params_error: "site_params E prin siteID = Inl e \<Longrightarrow> \<not> errors_Is e ErrNoRows"
proof -
  have c: "cast_uuid E s = Inl e \<Longrightarrow> \<not> errors_Is e ErrNoRows" for s e
    by (auto simp: cast_uuid_def split: option.splits)
  have cs: "cast_uuids E ss = Inl e \<Longrightarrow> \<not> errors_Is e ErrNoRows" for ss e
    by (induction ss) (auto simp: bindS_def split: sum.splits dest: c)
  have ca: "cast_uuid_array E ss = Inl e \<Longrightarrow> \<not> errors_Is e ErrNoRows" for ss e
    by (auto simp: cast_uuid_array_def bindS_def split: sum.splits if_splits dest: cs)
  assume "site_params E prin siteID = Inl e"
  then show ?thesis
    by (auto simp: site_params_def bindS_def split: sum.splits dest: c ca)
qed

lemma SiteReader_Get_answer:
  assumes "env_fault E (calls w) = NoFault" and "distinct (map s_id (sites (db w)))"
  shows "fst (SiteReader_Get E prin siteID w)
     = visible_answer E prin siteID (filter (row_accessible prin) (sites (db w)))"
proof (cases "site_params E prin siteID")
  case (Inl e)
  then show ?thesis
    using assms(1) site_params_error [OF Inl]
    by (simp add: SiteReader_Get_def bindE_def mapErr_def call_NoFault select_site_params visible_answer_def)
next
  case (Inr x)
  then obtain sid oid arr where x: "site_params E prin siteID = Inr (sid, oid, arr)" by (cases x) auto
  have f: "find (site_hit sid oid arr) (filter (row_accessible prin) (sites (db w))) =
      (case find (site_hit sid oid arr) (sites (db w)) of
         None \<Rightarrow> None | Some r \<Rightarrow> if row_accessible prin r then Some r else None)"
    by (rule find_filter_distinct [OF assms(2), of _ sid]) (simp add: site_hit_def)
  show ?thesis
    using assms(1)
    by (simp add: SiteReader_Get_def bindE_def mapErr_def call_NoFault select_site_params visible_answer_def
          x f Let_def row_accessible_def site_of_row_def split: option.split)
qed


section \<open>Properties\<close>

text \<open>
  C14. Only sites the principal may access are returned: a site that the service hands out is a row of
  the table with the identifier asked for, lies in the principal's organization and, when the principal
  is limited to sites, is one of them; the call changes no table.
\<close>

theorem site_get_authorized:
  assumes "SiteService_Get (Some (SiteReader_Get E)) prin siteID w = (Inr s, w')"
  shows "(\<exists>r \<in> set (sites (db w)). s = site_of_row r \<and> env_uuid E siteID = Some (s_id r)
            \<and> s_organization_id r = prin_OrganizationID prin
            \<and> (prin_SiteIDs prin = [] \<or> s_id r \<in> set (prin_SiteIDs prin)))
     \<and> prin_OrganizationID prin \<noteq> [] \<and> db w' = db w"
proof -
  have "SiteReader_Get E prin siteID w = (Inr s, w')"
    using assms by (auto simp: SiteService_Get_def split: if_splits)
  note r = SiteReader_Get_Inr [OF this, unfolded row_accessible_def CanAccessSite_iff]
  show ?thesis
    using r pg_sites.service_authorized [OF assms] pg_sites.service_reads [OF assms] by metis
qed

definition plant :: site_row where
  "plant = \<lparr>s_id = ''p1'', s_organization_id = ''o1'', s_code = ''P1'', s_name = ''Plant'',
     s_timezone = ''UTC'', s_status = ''ACTIVE''\<rparr>"

definition technician :: Principal where
  "technician = zero_Principal\<lparr>prin_ID := ''t'', prin_OrganizationID := ''o1'', prin_SiteIDs := [''p1'']\<rparr>"

lemma plant_run:
  "\<exists>w'. SiteService_Get (Some (SiteReader_Get sample_env)) technician ''p1''
     (world_of (empty_tables\<lparr>sites := [plant]\<rparr>)) = (Inr (site_of_row plant), w')"
proof -
  have "valid_utf8 ''p1''" "valid_utf8 ''o1''" by (simp_all add: ascii_valid_utf8)
  then show ?thesis
    by (simp add: SiteService_Get_def SiteReader_Get_def bindE_def mapErr_def call_NoFault select_site_def
          cast_uuid_def cast_uuid_array_def technician_def empty_tables_def plant_def site_hit_def
          in_array_def site_of_row_def CanAccessSite_iff Let_def)
qed

theorem site_get_authorized_witness:
  "\<exists>w'. SiteService_Get (Some (SiteReader_Get sample_env)) technician ''p1''
     (world_of (empty_tables\<lparr>sites := [plant]\<rparr>)) = (Inr (site_of_row plant), w')
     \<and> db w' = empty_tables\<lparr>sites := [plant]\<rparr>"
proof -
  obtain w' where w': "SiteService_Get (Some (SiteReader_Get sample_env)) technician ''p1''
     (world_of (empty_tables\<lparr>sites := [plant]\<rparr>)) = (Inr (site_of_row plant), w')"
    using plant_run by blast
  then show ?thesis using site_get_authorized [OF w'] by simp
qed

text \<open>
  C15. Sites out of reach leave no trace in the answer: if two databases agree on the sites the
  principal may access, the service answers alike on both, with a result or with the same error; in
  particular a site out of reach and a site that does not exist are indistinguishable.
\<close>

theorem site_get_noninterference:
  assumes "distinct (map s_id (sites (db w1)))" and "distinct (map s_id (sites (db w2)))"
    and "env_fault E (calls w1) = NoFault" and "env_fault E (calls w2) = NoFault"
    and "filter (row_accessible prin) (sites (db w1)) = filter (row_accessible prin) (sites (db w2))"
  shows "fst (SiteService_Get (Some (SiteReader_Get E)) prin siteID w1)
       = fst (SiteService_Get (Some (SiteReader_Get E)) prin siteID w2)"
  using assms by (simp add: SiteService_Get_def SiteReader_Get_answer)

theorem site_get_noninterference_witness:
  "fst (SiteService_Get (Some (SiteReader_Get sample_env)) (technician\<lparr>prin_SiteIDs := [''p2'']\<rparr>) ''p1''
          (world_of (empty_tables\<lparr>sites := [plant]\<rparr>)))
   = fst (SiteService_Get (Some (SiteReader_Get sample_env)) (technician\<lparr>prin_SiteIDs := [''p2'']\<rparr>) ''p1''
          (world_of empty_tables))"
  by (rule site_get_noninterference)
     (simp_all add: empty_tables_def row_accessible_def CanAccessSite_iff plant_def technician_def)

text \<open>
  C16. A principal that is not limited to sites finds none, although \<open>CanAccessSite\<close> grants it every site
  of its organization: with a driver that sends a nil slice as NULL, the condition on the array is NULL
  for every row, and the reader answers that the site does not exist.
\<close>

theorem site_get_organization_wide_fails:
  assumes "env_nil_null E" and "prin_SiteIDs prin = []" and "env_fault E (calls w) = NoFault"
    and "env_uuid E siteID = Some sid" and "env_uuid E (prin_OrganizationID prin) = Some oid"
  shows "fst (SiteReader_Get E prin siteID w) = Inl ErrSiteNotFound"
proof -
  have "find (site_hit sid oid None) rows = None" for rows
    by (simp add: find_None_iff site_hit_def in_array_def)
  then show ?thesis
    using assms by (simp add: SiteReader_Get_def bindE_def mapErr_def call_NoFault select_site_def
        cast_uuid_def cast_uuid_array_def)
qed

theorem site_get_organization_wide_fails_witness:
  "CanAccessSite (technician\<lparr>prin_SiteIDs := []\<rparr>) (s_organization_id plant) (s_id plant)
   \<and> fst (SiteReader_Get sample_env (technician\<lparr>prin_SiteIDs := []\<rparr>) (s_id plant)
       (world_of (empty_tables\<lparr>sites := [plant]\<rparr>))) = Inl ErrSiteNotFound"
proof -
  have "valid_utf8 ''p1''" "valid_utf8 ''o1''" by (simp_all add: ascii_valid_utf8)
  then show ?thesis
    using site_get_organization_wide_fails [of sample_env "technician\<lparr>prin_SiteIDs := []\<rparr>" _ "s_id plant"]
    by (simp add: CanAccessSite_iff plant_def technician_def)
qed

end
