(* ===== verification/Api_Server.thy ===== *)
theory Api_Server
  imports Http_Server Oidc_Correct Organization_Create Site_Reader
begin

text \<open>
  \<open>cmd/api/main.go\<close>: the API process as it is put together, the router over the login service, the
  organization store and the site reader, and what holds of every sequence of requests it serves.
  Each statement of a request may fail. Other requests run meanwhile: between two requests, and within one
  between its authentication and its handler.
\<close>

section \<open>The process\<close>

record App =
  ap_env :: env
  ap_process :: process_env
  ap_chi :: chi
  ap_uuid :: "string \<Rightarrow> bool"
  ap_service :: Service

definition api_dependencies :: "App \<Rightarrow> Dependencies" where
  "api_dependencies A =
     \<lparr>dp_Database = True,
      dp_Begin = Begin_login (ap_env A) (ap_process A) (ap_service A),
      dp_Callback = Callback (ap_env A) (ap_service A),
      dp_Logout = Logout (ap_env A) (ap_service A),
      dp_Middleware = Middleware (ap_env A) (ap_service A),
      dp_Organizations = Some (Create (ap_env A) all_deps),
      dp_Sites = Some (SiteReader_Get (ap_env A)),
      dp_ParseUUID = ap_uuid A\<rparr>"

lemma api_dependencies_simps [simp]:
  "dp_Database (api_dependencies A) = True"
  "dp_Begin (api_dependencies A) = Begin_login (ap_env A) (ap_process A) (ap_service A)"
  "dp_Callback (api_dependencies A) = Callback (ap_env A) (ap_service A)"
  "dp_Logout (api_dependencies A) = Logout (ap_env A) (ap_service A)"
  "dp_Middleware (api_dependencies A) = Middleware (ap_env A) (ap_service A)"
  "dp_Organizations (api_dependencies A) = Some (Create (ap_env A) all_deps)"
  "dp_Sites (api_dependencies A) = Some (SiteReader_Get (ap_env A))"
  "dp_ParseUUID (api_dependencies A) = ap_uuid A"
  by (simp_all add: api_dependencies_def)

definition serve :: "App \<Rightarrow> request \<Rightarrow> world \<Rightarrow> response \<times> world" where
  "serve A r w = New_Router (ap_env A) (ap_chi A) (api_dependencies A) r empty_response w"

text \<open>
  What runs elsewhere meanwhile: other requests, in this process or in others over the same database.
  Whatever they compute, all they do to the tables is one of the single statements of the login service or
  a transaction of the organization store, in any order and with any arguments.
\<close>

inductive login_step :: "env \<Rightarrow> tables \<Rightarrow> tables \<Rightarrow> bool" for E :: env where
  flow_saved: "insert_flow E h f t d = Inr (u, d') \<Longrightarrow> login_step E d d'"
| flow_consumed: "delete_flow h d = Inr (f, d') \<Longrightarrow> login_step E d d'"
| resolved: "upsert_principal E i c t d = Inr (p, d') \<Longrightarrow> login_step E d d'"
| session_opened: "insert_session E h p x t d = Inr (u, d') \<Longrightarrow> login_step E d d'"
| session_ended: "revoke_session E h t d = Inr (u, d') \<Longrightarrow> login_step E d d'"

inductive elsewhere :: "env \<Rightarrow> tables \<Rightarrow> tables \<Rightarrow> bool" for E :: env where
  quiet: "elsewhere E d d"
| login: "elsewhere E d d1 \<Longrightarrow> login_step E d1 d2 \<Longrightarrow> elsewhere E d d2"
| create: "elsewhere E d (db w) \<Longrightarrow> Create E all_deps prin key c w = (x, w') \<Longrightarrow> elsewhere E d (db w')"

lemma elsewhere_trans: "elsewhere E d2 d3 \<Longrightarrow> elsewhere E d1 d2 \<Longrightarrow> elsewhere E d1 d3"
  by (induction rule: elsewhere.induct) (auto intro: elsewhere.intros)

text \<open>A request that is overtaken: between its authentication and its handler, the tables change by \<open>f\<close>.\<close>

definition amid :: "(tables \<Rightarrow> tables) \<Rightarrow> handler \<Rightarrow> handler" where
  "amid f h = (\<lambda>r rs w. h r rs (w\<lparr>db := f (db w)\<rparr>))"

definition serve_amid :: "(tables \<Rightarrow> tables) \<Rightarrow> App \<Rightarrow> request \<Rightarrow> world \<Rightarrow> response \<times> world" where
  "serve_amid f A r w = New_Router (ap_env A) (ap_chi A)
     ((api_dependencies A)\<lparr>dp_Middleware := \<lambda>nxt. dp_Middleware (api_dependencies A) (amid f nxt)\<rparr>) r empty_response w"

lemma amid_id: "amid (\<lambda>d. d) h = h"
  by (simp add: amid_def fun_eq_iff)

lemma serve_amid_id: "serve_amid (\<lambda>d. d) A r w = serve A r w"
  by (simp add: serve_amid_def serve_def amid_id) (simp add: api_dependencies_def)

text \<open>The states that requests lead to, each possibly overtaken, with other work between them.\<close>

inductive reaches :: "App \<Rightarrow> world \<Rightarrow> world \<Rightarrow> bool" for A :: App where
  start: "reaches A w w"
| request: "reaches A w w1 \<Longrightarrow> (\<And>d. elsewhere (ap_env A) d (f d)) \<Longrightarrow> serve_amid f A r w1 = (rs, w2) \<Longrightarrow> reaches A w w2"
| other: "reaches A w w1 \<Longrightarrow> elsewhere (ap_env A) (db w1) d \<Longrightarrow> reaches A w (w1\<lparr>db := d\<rparr>)"

inductive_cases reachesE: "reaches A w w'"

lemma reaches_trans: "reaches A w2 w3 \<Longrightarrow> reaches A w1 w2 \<Longrightarrow> reaches A w1 w3"
  by (induction rule: reaches.induct) (auto intro: reaches.intros)

lemma reaches_request: "reaches A w w1 \<Longrightarrow> serve A r w1 = (rs, w2) \<Longrightarrow> reaches A w w2"
  using reaches.request [of A w w1 "\<lambda>d. d" r rs w2] elsewhere.quiet by (simp add: serve_amid_id)

section \<open>The login service is an authenticator\<close>

interpretation login: authenticator "Middleware E s" "Begin_login E P s" "Callback E s" "Logout E s"
  "\<lambda>w. auth_ok (db w)" "authenticated_by E s" for E P s
proof (unfold_locales, goal_cases)
  case (1 h)
  show ?case
    unfolding Middleware_def
    by (auto intro!: header_safeI tryE_protected header_safeD [OF 1] split: sum.split)
next
  case 2
  show ?case
    unfolding Begin_login_def
    by (auto intro!: header_safeI tryE_protected split: sum.split)
next
  case 3
  show ?case
    unfolding Callback_def Let_def
    by (auto intro!: header_safeI tryE_protected split: sum.split)
next
  case 4
  show ?case by (auto intro!: header_safeI simp: Logout_def Let_def)
next
  case (5 w nxt r rs)
  obtain x w1 where a: "authenticate E s r w = (x, w1)" by fastforce
  then show ?case
    using authenticate_Inr [of E s r w _ w1] 5
    by (cases x) (auto simp: Middleware_def tryE_def WithPrincipal_def)
qed

section \<open>Relations kept by the process\<close>

text \<open>
  A relation on the tables that the login service keeps statement by statement and the organization
  store keeps as a whole is kept by every request, and so by every sequence of requests.
\<close>

context table_relation
begin

lemma keep_live: "handler_keeps (on_db R) live"
  by (simp add: handler_keeps_def live_def on_db_self)

lemma keep_readiness: "handler_keeps (on_db R) (readiness E pool)"
proof -
  have "keeps (on_db R) (call E ping)" by (rule keep_call) (simp add: ping_def R_refl)
  then show ?thesis
    by (auto simp: handler_keeps_def readiness_def Let_def on_db_self
        intro!: tryE_keeps [OF on_db_trans] split: sum.split)
qed

lemma keep_currentPrincipal: "handler_keeps (on_db R) currentPrincipal"
  by (simp add: handler_keeps_def currentPrincipal_def on_db_self split: prod.split)

lemma keep_site_get: "keeps (on_db R) (SiteService_Get (Some (SiteReader_Get E)) prin siteID)"
proof -
  have "keeps (on_db R) (SiteReader_Get E prin siteID)"
    using SiteReader_Get_reads [of E prin siteID] by (simp add: keeps_def on_db_def R_refl)
  then show ?thesis by (auto simp: SiteService_Get_def intro!: keep_rules)
qed

lemma keep_getSite: "handler_keeps (on_db R) (getSite parse (Some (SiteReader_Get E)) siteID)"
  unfolding handler_keeps_def getSite_def
  by (auto intro!: tryE_keeps [OF on_db_trans keep_site_get] on_db_self split: prod.split sum.split)

lemma keep_dispatch:
  assumes "chi_quiet C" and "\<And>k h params. (k, h) \<in> set table \<Longrightarrow> handler_keeps (on_db R) (h params)"
  shows "handler_keeps (on_db R) (dispatch C table path)"
  unfolding handler_keeps_def
proof (intro allI)
  fix r rs w
  from dispatch_cases [OF assms(1), of table path r] show "on_db R w (snd (dispatch C table path r rs w))"
    using assms(2) chi_quietD(3) [OF assms(1), of r rs w] on_db_self(1) [of w]
    by (auto simp: handler_keeps_def)
qed

end

locale app_relation = auth_relation +
  assumes R_create: "keeps (on_db R) (Create E all_deps prin key c)"
begin

lemma keep_service_create: "keeps (on_db R) (OrganizationService_Create (Some (Create E all_deps)) prin key c)"
  unfolding OrganizationService_Create_def by (auto intro!: keep_rules R_create simp: Let_def)

lemma keep_createOrganization: "handler_keeps (on_db R) (createOrganization (Some (Create E all_deps)))"
  unfolding handler_keeps_def createOrganization_def Let_def
  by (auto intro!: tryE_keeps [OF on_db_trans keep_service_create] on_db_self split: prod.split sum.split)

lemma keep_login_step: "login_step E d d' \<Longrightarrow> R d d'"
  by (erule login_step.cases) (blast intro: R_insert_flow R_delete_flow R_upsert R_insert_session R_revoke)+

lemma keep_elsewhere: "elsewhere E d d' \<Longrightarrow> R d d'"
proof (induction rule: elsewhere.induct)
  case (login d d1 d2)
  then show ?case using keep_login_step R_trans by blast
next
  case (create d w prin key c x w')
  then have "R (db w) (db w')" using keepsD [OF R_create create(2)] by (simp add: on_db_def)
  then show ?case using create.IH R_trans by blast
qed (rule R_refl)

lemma keep_amid:
  assumes "\<And>d. elsewhere E d (f d)" and "handler_keeps (on_db R) h"
  shows "handler_keeps (on_db R) (amid f h)"
  unfolding handler_keeps_def amid_def
proof (intro allI)
  fix r rs w
  have "R (f (db w)) (db (snd (h r rs (w\<lparr>db := f (db w)\<rparr>))))"
    using assms(2) unfolding handler_keeps_def on_db_def by (metis world.select_convs(1) world.surjective world.update_convs(1))
  then show "on_db R w (snd (h r rs (w\<lparr>db := f (db w)\<rparr>)))"
    unfolding on_db_def using R_trans [OF keep_elsewhere [OF assms(1)]] by blast
qed

lemma keep_serve_amid:
  assumes "ap_env A = E" and "chi_quiet (ap_chi A)" and "\<And>d. elsewhere E d (f d)"
  shows "on_db R w (snd (serve_amid f A r w))"
proof -
  let ?D = "(api_dependencies A)\<lparr>dp_Middleware := \<lambda>nxt. dp_Middleware (api_dependencies A) (amid f nxt)\<rparr>"
  have "handler_keeps (on_db R) (dispatch (ap_chi A) (api_routes ?D) path)" for path
    by (rule keep_dispatch [OF assms(2)])
      (auto simp: api_routes_def assms(1) keep_currentPrincipal keep_createOrganization
        keep_getSite)
  then have "handler_keeps (on_db R) (api_router (ap_chi A) ?D params)" for params
    by (simp add: api_router_def assms(1) keep_Middleware keep_amid [OF assms(3)])
  then have "handler_keeps (on_db R) (dispatch (ap_chi A) (routes E (ap_chi A) ?D) path)" for path
    by (intro keep_dispatch [OF assms(2)])
      (auto simp: routes_def keep_live keep_readiness assms(1) keep_handlers)
  then show ?thesis
    by (simp add: serve_amid_def New_Router_def securityHeaders_def assms(1) handler_keeps_def)
qed

lemma keep_serve: "ap_env A = E \<Longrightarrow> chi_quiet (ap_chi A) \<Longrightarrow> on_db R w (snd (serve A r w))"
  using keep_serve_amid [of A "\<lambda>d. d" w r] elsewhere.quiet by (simp add: serve_amid_id)

lemma keep_reaches:
  assumes "reaches A w w'" and "ap_env A = E" and "chi_quiet (ap_chi A)"
  shows "R (db w) (db w')"
  using assms(1)
proof (induction rule: reaches.induct)
  case (request w w1 f r rs w2)
  then show ?case using keep_serve_amid [OF assms(2,3), of f w1 r] R_trans assms(2) by (auto simp: on_db_def)
next
  case (other w w1 d)
  then show ?case using keep_elsewhere R_trans assms(2) by auto
qed (rule R_refl)

end

text \<open>Such a relation for the organization store: one that relates the tables before a first create to
  those after it. It is kept as long as the table of keys is well formed, which it stays.\<close>

locale commit_relation = auth_relation +
  assumes R_first: "first_create E prin key c t n d d' \<Longrightarrow> R d d'"

interpretation login_keys: auth_relation "\<lambda>d d'. idempotency_keys d' = idempotency_keys d" E for E
proof (unfold_locales, goal_cases)
  case (3 i c t d p d')
  then show ?case by (cases rule: upsert_principal_Inr) simp_all
qed (auto simp: revoke_session_def dest!: insert_flow_Inr delete_flow_Inr insert_session_Inr)

sublocale commit_relation \<subseteq> guarded: app_relation "\<lambda>d d'. keys_ok E d \<longrightarrow> R d d' \<and> keys_ok E d'" E
proof (unfold_locales, goal_cases)
  case (1 d)
  show ?case by (simp add: R_refl)
next
  case (2 d1 d2 d3)
  then show ?case using R_trans by blast
next
  case (3 h f t d u d')
  show ?case using R_insert_flow [OF 3] keys_ok_cong [OF login_keys.R_insert_flow [OF 3]] by blast
next
  case (4 h d f d')
  show ?case using R_delete_flow [OF 4] keys_ok_cong [OF login_keys.R_delete_flow [OF 4]] by blast
next
  case (5 i c t d p d')
  show ?case using R_upsert [OF 5] keys_ok_cong [OF login_keys.R_upsert [OF 5]] by blast
next
  case (6 h p x t d u d')
  show ?case using R_insert_session [OF 6] keys_ok_cong [OF login_keys.R_insert_session [OF 6]] by blast
next
  case (7 h t d u d')
  show ?case using R_revoke [OF 7] keys_ok_cong [OF login_keys.R_revoke [OF 7]] by blast
next
  case (8 prin key c)
  show ?case
  proof (rule keepsI)
    fix w
    obtain x w' where w': "Create E all_deps prin key c w = (x, w')" by fastforce
    show "on_db (\<lambda>d d'. keys_ok E d \<longrightarrow> R d d' \<and> keys_ok E d') w (snd (Create E all_deps prin key c w))"
      using Create_db_cases [of E w prin key c x w'] Create_keys_ok [OF _ w'] w' R_first R_refl
      by (auto simp: on_db_def)
  qed
qed

end
