(* ===== verification/Api_Correct.thy ===== *)
theory Api_Correct
  imports Api_Server
begin

text \<open>
  What holds of every sequence of requests: the constraints of the schema, the log of what was created,
  the identity of principals, the end of revoked sessions, and who may create an organization.
\<close>

section \<open>The schema\<close>

text \<open>The constraints of \<open>00001_foundation.sql\<close> on the tables the create writes.\<close>

definition organization_ok :: "organization_row \<Rightarrow> bool" where
  "organization_ok r \<longleftrightarrow> btrim (o_name r) \<noteq> [] \<and> 0 < o_version r
     \<and> (o_source_of_truth r = OwnedBySkawld \<and> o_external_system r = None \<and> o_external_id r = None
        \<or> o_source_of_truth r = ExternalReference \<and> o_external_system r \<noteq> None \<and> o_external_id r \<noteq> None)"

definition registry_ok :: "tables \<Rightarrow> bool" where
  "registry_ok d \<longleftrightarrow>
     distinct (map o_id (organizations d)) \<and> distinct (map m_id (memberships d))
     \<and> distinct (map a_id (audit_events d)) \<and> (\<forall>r \<in> set (organizations d). organization_ok r)
     \<and> (\<forall>m \<in> set (memberships d). m_principal_id m \<in> p_id ` set (principals d)
          \<and> m_organization_id m \<in> o_id ` set (organizations d))"

definition schema_ok :: "env \<Rightarrow> tables \<Rightarrow> bool" where
  "schema_ok E d \<longleftrightarrow> auth_ok d \<and> keys_ok E d \<and> registry_ok d"

text \<open>A relation that every statement keeps is kept by the process.\<close>

locale statement_relation = auth_relation + create_relation

sublocale statement_relation \<subseteq> each: app_relation
  by unfold_locales (rule keep_Create)

lemma principals_registry_ok:
  assumes "registry_ok d" and "p_id ` set (principals d) \<subseteq> p_id ` set (principals d')"
    and "organizations d' = organizations d" "memberships d' = memberships d" "audit_events d' = audit_events d"
  shows "registry_ok d'"
  using assms unfolding registry_ok_def by auto

lemma upsert_registry_ok:
  assumes "upsert_principal E i c t d = Inr (p, d')" and "registry_ok d"
  shows "registry_ok d'"
  using assms(1)
  by (cases rule: upsert_principal_Inr)
    (auto intro!: principals_registry_ok [OF assms(2)] simp: image_image)

interpretation login_registry: auth_relation "\<lambda>d d'. registry_ok d \<longrightarrow> registry_ok d'" E for E
  by unfold_locales
    (auto simp: revoke_session_def upsert_registry_ok
      dest!: insert_flow_Inr delete_flow_Inr insert_session_Inr elim!: principals_registry_ok)

lemma insert_organization_ok:
  assumes "insert_organization E orga d = Inr (u, d')" and "registry_ok d"
  shows "registry_ok d'"
  using assms
  by (auto simp: insert_organization_Inr registry_ok_def organization_ok_def new_organization_row_def list_ex_iff)

lemma insert_membership_ok:
  assumes "insert_membership E i p o' t d = Inr (u, d')" and "registry_ok d"
  shows "registry_ok d'"
  using assms
  by (auto simp: insert_membership_Inr registry_ok_def new_membership_row_def list_ex_iff split: if_splits)

lemma insert_audit_ok:
  assumes "insert_audit E ev d = Inr (u, d')" and "registry_ok d"
  shows "registry_ok d'"
proof -
  obtain row where "d' = d\<lparr>audit_events := audit_events d @ [row]\<rparr>" "\<not> list_ex (\<lambda>r. a_id r = a_id row) (audit_events d)"
    using insert_audit_Inr [OF assms(1)] by blast
  then show ?thesis using assms(2) by (auto simp: registry_ok_def list_ex_iff)
qed

text \<open>The create writes no table of the login service, and only the keys' table of the ledger.\<close>

interpretation create_login: create_relation
  "\<lambda>d d'. principals d' = principals d \<and> auth_flows d' = auth_flows d \<and> web_sessions d' = web_sessions d" E for E
proof (unfold_locales, goal_cases)
  case (5 ev d u d')
  then show ?case using insert_audit_Inr by fastforce
qed (auto simp: insert_organization_Inr insert_membership_Inr insert_key_Inr update_key_def Let_def
      split: if_splits sum.splits option.splits)

lemma auth_ok_cong:
  "principals d' = principals d \<and> auth_flows d' = auth_flows d \<and> web_sessions d' = web_sessions d
    \<Longrightarrow> auth_ok d' = auth_ok d"
  by (simp add: auth_ok_def principals_ok_def flows_ok_def sessions_ok_def)

lemma keys_registry_ok: "registry_ok d \<Longrightarrow> registry_ok (d\<lparr>idempotency_keys := ks\<rparr>)"
  by (simp add: registry_ok_def)

interpretation schema: statement_relation "\<lambda>d d'. schema_ok E d \<longrightarrow> schema_ok E d'" E for E
proof (unfold_locales, goal_cases)
  case (3 h f t d u d')
  then show ?case
    using auth_ok.R_insert_flow [OF 3] login_registry.R_insert_flow [OF 3] keys_ok_cong [OF login_keys.R_insert_flow [OF 3]]
    by (simp add: schema_ok_def)
next
  case (4 h d f d')
  then show ?case
    using auth_ok.R_delete_flow [OF 4] login_registry.R_delete_flow [OF 4] keys_ok_cong [OF login_keys.R_delete_flow [OF 4]]
    by (simp add: schema_ok_def)
next
  case (5 i c t d p d')
  then show ?case
    using auth_ok.R_upsert [OF 5] login_registry.R_upsert [OF 5] keys_ok_cong [OF login_keys.R_upsert [OF 5]]
    by (simp add: schema_ok_def)
next
  case (6 h p x t d u d')
  then show ?case
    using auth_ok.R_insert_session [OF 6] login_registry.R_insert_session [OF 6]
      keys_ok_cong [OF login_keys.R_insert_session [OF 6]]
    by (simp add: schema_ok_def)
next
  case (7 h t d u d')
  then show ?case
    using auth_ok.R_revoke [OF 7] login_registry.R_revoke [OF 7] keys_ok_cong [OF login_keys.R_revoke [OF 7]]
    by (simp add: schema_ok_def)
next
  case (8 orga d u d')
  then show ?case
    using auth_ok_cong [OF create_login.R_organization [OF 8]] keys_kept.R_organization [OF 8]
      insert_organization_ok [OF 8]
    by (simp add: schema_ok_def keys_kept_def)
next
  case (9 i p o' t d u d')
  then show ?case
    using auth_ok_cong [OF create_login.R_membership [OF 9]] keys_kept.R_membership [OF 9]
      insert_membership_ok [OF 9]
    by (simp add: schema_ok_def keys_kept_def)
next
  case (10 ev d u d')
  then show ?case
    using auth_ok_cong [OF create_login.R_audit [OF 10]] keys_kept.R_audit [OF 10] insert_audit_ok [OF 10]
    by (simp add: schema_ok_def keys_kept_def)
next
  case (11 p sc k h t d n d')
  then show ?case
    using auth_ok_cong [OF create_login.R_insert_key [OF 11]] keys_kept.R_insert_key [OF 11]
    by (auto simp: schema_ok_def keys_kept_def insert_key_Inr keys_registry_ok split: if_splits)
next
  case (12 p sc k st b t d n d')
  then show ?case
    using auth_ok_cong [OF create_login.R_update_key [OF 12]] keys_kept.R_update_key [OF 12]
    by (auto simp: schema_ok_def keys_kept_def update_key_def Let_def keys_registry_ok
        split: sum.splits option.splits)
qed auto

section \<open>The ledger\<close>

text \<open>
  What a sequence of requests adds: rows only at the end of the tables of organizations, memberships,
  audit events and keys, and for each new organization, in order, the audit event that records it and
  the completed key that answers its request again. Sites never change.
\<close>

definition recorded :: "env \<Rightarrow> organization_row \<Rightarrow> audit_row \<Rightarrow> bool" where
  "recorded E r a \<longleftrightarrow> a_action a = ''organization.created'' \<and> a_entity_kind a = ''organization''
     \<and> env_uuid E (a_entity_id a) = Some (o_id r) \<and> a_occurred_at a = o_created_at r
     \<and> o_source_of_truth r = OwnedBySkawld \<and> o_version r = 1"

definition answered :: "organization_row \<Rightarrow> key_row \<Rightarrow> bool" where
  "answered r k \<longleftrightarrow> k_scope k = createOrganizationScope \<and> k_status k = ''COMPLETED''
     \<and> k_response_status k = Some 201 \<and> k_created_at k = o_created_at r"

definition ledger :: "env \<Rightarrow> tables \<Rightarrow> tables \<Rightarrow> bool" where
  "ledger E d d' \<longleftrightarrow> (\<exists>os ms as ks.
     organizations d' = organizations d @ os \<and> memberships d' = memberships d @ ms
     \<and> audit_events d' = audit_events d @ as \<and> idempotency_keys d' = idempotency_keys d @ ks
     \<and> sites d' = sites d \<and> list_all2 (recorded E) os as \<and> list_all2 answered os ks
     \<and> (\<forall>m \<in> set ms. m_role m = ''Administrator'' \<and> m_site_id m = None \<and> m_organization_id m \<in> o_id ` set os))"

lemma ledger_refl:
  "organizations d' = organizations d \<and> memberships d' = memberships d \<and> audit_events d' = audit_events d
    \<and> idempotency_keys d' = idempotency_keys d \<and> sites d' = sites d \<Longrightarrow> ledger E d d'"
  unfolding ledger_def by (intro exI [of _ "[]"]) simp

lemma ledger_trans:
  assumes "ledger E d1 d2" and "ledger E d2 d3"
  shows "ledger E d1 d3"
proof -
  obtain os ms as ks where 1: "organizations d2 = organizations d1 @ os" "memberships d2 = memberships d1 @ ms"
     "audit_events d2 = audit_events d1 @ as" "idempotency_keys d2 = idempotency_keys d1 @ ks"
     "sites d2 = sites d1" "list_all2 (recorded E) os as" "list_all2 answered os ks"
     "\<forall>m \<in> set ms. m_role m = ''Administrator'' \<and> m_site_id m = None \<and> m_organization_id m \<in> o_id ` set os"
    using assms(1) unfolding ledger_def by blast
  obtain os' ms' as' ks' where 2: "organizations d3 = organizations d2 @ os'" "memberships d3 = memberships d2 @ ms'"
     "audit_events d3 = audit_events d2 @ as'" "idempotency_keys d3 = idempotency_keys d2 @ ks'"
     "sites d3 = sites d2" "list_all2 (recorded E) os' as'" "list_all2 answered os' ks'"
     "\<forall>m \<in> set ms'. m_role m = ''Administrator'' \<and> m_site_id m = None \<and> m_organization_id m \<in> o_id ` set os'"
    using assms(2) unfolding ledger_def by blast
  show ?thesis unfolding ledger_def
    by (rule exI [of _ "os @ os'"], rule exI [of _ "ms @ ms'"], rule exI [of _ "as @ as'"],
        rule exI [of _ "ks @ ks'"]) (use 1 2 in \<open>auto simp: list_all2_appendI\<close>)
qed

lemma first_create_ledger:
  assumes "first_create E prin key c t n d d'"
  shows "ledger E d d'"
proof -
  obtain d1 pid stored where f: "created E prin c t n d d1"
    "d' = d1\<lparr>idempotency_keys := idempotency_keys d @
        [complete_row 201 stored (env_ts E t) (new_key_row E pid createOrganizationScope key (request_hash E c) t)]\<rparr>"
    using assms unfolding first_create_def by blast
  from f(1) obtain oid mid pid' arow where
    a: "env_uuid E (env_id E n) = Some oid" "a_action arow = ''organization.created''"
      "a_entity_kind arow = ''organization''" "a_entity_id arow = env_id E n" "a_occurred_at arow = env_ts E t"
    and d1: "d1 = create_rows E c t oid mid pid' arow d"
    unfolding created_def by blast
  note d' = f(2) [unfolded d1]
  let ?o = "\<lparr>o_id = oid, o_name = TrimSpace (cmd_Name c), o_source_of_truth = OwnedBySkawld,
            o_external_system = None, o_external_id = None, o_version = 1,
            o_created_at = env_ts E t, o_updated_at = env_ts E t\<rparr>"
  let ?ms = "if list_ex (\<lambda>r. m_id r = mid) (memberships d) then [] else [new_membership_row E mid pid' oid t]"
  show ?thesis unfolding ledger_def
  proof (intro exI conjI)
    show "organizations d' = organizations d @ [?o]" "memberships d' = memberships d @ ?ms"
      "audit_events d' = audit_events d @ [arow]" "sites d' = sites d"
      by (simp_all add: d' create_rows_def)
    show "idempotency_keys d' = idempotency_keys d @ [complete_row 201 stored (env_ts E t)
        (new_key_row E pid createOrganizationScope key (request_hash E c) t)]"
      by (simp add: d')
    show "list_all2 (recorded E) [?o] [arow]" using a by (simp add: recorded_def)
    show "list_all2 answered [?o] [complete_row 201 stored (env_ts E t)
        (new_key_row E pid createOrganizationScope key (request_hash E c) t)]"
      by (simp add: answered_def complete_row_def new_key_row_def)
    show "\<forall>m \<in> set ?ms. m_role m = ''Administrator'' \<and> m_site_id m = None \<and> m_organization_id m \<in> o_id ` set [?o]"
      by (simp add: new_membership_row_def)
  qed
qed

interpretation ledger: commit_relation "ledger E" E for E
proof (unfold_locales, goal_cases)
  case (1 d)
  show ?case by (rule ledger_refl) simp
next
  case (2 d1 d2 d3)
  then show ?case by (rule ledger_trans)
next
  case (5 i c t d p d')
  then show ?case by (cases rule: upsert_principal_Inr) (auto intro!: ledger_refl)
next
  case (8 prin key c t n d d')
  then show ?case by (rule first_create_ledger)
qed (auto intro!: ledger_refl simp: revoke_session_def dest!: insert_flow_Inr delete_flow_Inr insert_session_Inr)

section \<open>Principals and sessions\<close>

text \<open>A relation between login tables that says nothing when they are unchanged is kept by a create.\<close>

lemma create_keeps_login:
  assumes "\<And>d d'. principals d' = principals d \<and> auth_flows d' = auth_flows d \<and> web_sessions d' = web_sessions d \<Longrightarrow> R d d'"
  shows "keeps (on_db R) (Create E s prin key c)"
  using create_login.keep_Create [of E s prin key c] assms by (simp add: keeps_def on_db_def)

interpretation login_ok: app_relation "\<lambda>d d'. auth_ok d \<longrightarrow> auth_ok d'" E for E
  by unfold_locales (rule create_keeps_login, use auth_ok_cong in blast)

interpretation subjects: app_relation subjects_kept E for E
  by unfold_locales (rule create_keeps_login, auto simp: subjects_kept_def)

interpretation revoked: app_relation "\<lambda>d d'. session_revoked h d \<longrightarrow> session_revoked h d'" E for h E
  by unfold_locales (rule create_keeps_login, auto simp: session_revoked_def)

interpretation login_organizations: auth_relation "\<lambda>d d'. organizations d' = organizations d" E for E
proof (unfold_locales, goal_cases)
  case (5 i c t d p d')
  then show ?case by (cases rule: upsert_principal_Inr) simp_all
qed (auto simp: revoke_session_def dest!: insert_flow_Inr delete_flow_Inr insert_session_Inr)

section \<open>Who creates an organization\<close>

lemma createOrganization_unpermitted:
  assumes "rq_Context r = Some p" and "\<not> Has p PermissionOrganizationCreate"
  shows "snd (createOrganization store r rs w) = w"
  using assms
  by (simp add: createOrganization_def PrincipalFromContext_def Let_def tryE_def OrganizationService_Create_def
      split: sum.split)

lemma api_dispatch_permitted:
  assumes "chi_quiet C" and "dp_Sites D = Some (SiteReader_Get E)" and "rq_Context r = Some p"
    and "organizations (db (snd (dispatch C (api_routes D) path r rs w))) \<noteq> organizations (db w)"
  shows "Has p PermissionOrganizationCreate"
proof (rule ccontr)
  assume n: "\<not> Has p PermissionOrganizationCreate"
  from dispatch_cases [OF assms(1), of "api_routes D" path r]
  have "organizations (db (snd (dispatch C (api_routes D) path r rs w))) = organizations (db w)"
    using assms(2) createOrganization_unpermitted [OF assms(3) n]
      login_organizations.keep_currentPrincipal login_organizations.keep_getSite
      chi_quietD(3) [OF assms(1)]
    by (auto simp: api_routes_def handler_keeps_def on_db_def)
  then show False using assms(4) by blast
qed

lemma serve_route:
  assumes "chi_quiet (ap_chi A)"
    and "organizations (db (snd (serve A r w))) \<noteq> organizations (db w)"
  shows "\<exists>params rs. serve A r w = api_router (ap_chi A) (api_dependencies A) params r rs w"
proof -
  let ?rt = "routes (ap_env A) (ap_chi A) (api_dependencies A)"
  obtain rs where s: "serve A r w = dispatch (ap_chi A) ?rt (rq_Path r) r rs w"
    by (simp add: serve_def New_Router_def securityHeaders_def)
  note keep = login_organizations.keep_live login_organizations.keep_readiness login_organizations.keep_handlers
  consider params where "dispatch (ap_chi A) ?rt (rq_Path r) r = api_router (ap_chi A) (api_dependencies A) params r"
    | "organizations (db (snd (dispatch (ap_chi A) ?rt (rq_Path r) r rs w))) = organizations (db w)"
    using dispatch_cases [OF assms(1), of ?rt "rq_Path r" r] keep chi_quietD(3) [OF assms(1)]
    by (auto simp: routes_def handler_keeps_def on_db_def)
  then show ?thesis using s assms(2) by cases auto
qed

section \<open>A sample process\<close>

definition sample_app :: App where
  "sample_app = \<lparr>ap_env = sample_env, ap_process = sample_process, ap_chi = sample_chi, ap_uuid = (\<lambda>_. True),
     ap_service = sample_service\<rparr>"

lemma sample_app_simps [simp]:
  "ap_env sample_app = sample_env" "ap_chi sample_app = sample_chi" "ap_service sample_app = sample_service"
  by (simp_all add: sample_app_def)

definition login_request :: request where
  "login_request = sample_request\<lparr>rq_Path := ''/auth/login''\<rparr>"

definition me_request :: request where
  "me_request = sample_request\<lparr>rq_Path := ''/api/v1/me'', rq_Cookies := [(''sid'', ''token'')]\<rparr>"

lemma reaches_serve: "reaches A w (snd (serve A r w))"
  by (rule reaches_request [OF reaches.start prod.collapse [symmetric]])

lemma sample_schema: "schema_ok E sample_tables"
  by (simp add: schema_ok_def registry_ok_def keys_ok_def auth_ok_def principals_ok_def flows_ok_def sessions_ok_def
      sample_tables_def empty_tables_def)

lemma sample_live:
  "serve sample_app (sample_request\<lparr>rq_Path := ''/health/live''\<rparr>) w =
     (fst (serve sample_app (sample_request\<lparr>rq_Path := ''/health/live''\<rparr>) w), w)"
  by (simp add: serve_def New_Router_def securityHeaders_def dispatch_def patterns root_patterns_def sample_chi_def
      match_path_def Let_def sample_request_def routes_def live_def)

definition admin_app :: App where
  "admin_app = sample_app\<lparr>ap_service := sample_service\<lparr>sv_bootstrapSubjects := {''sub-2''}\<rparr>\<rparr>"

definition bob_admin :: Principal where
  "bob_admin = \<lparr>prin_ID = ''bob'', prin_ExternalSubject = ''sub-2'', prin_DisplayName = ''Bob'',
     prin_OrganizationID = ''o1'', prin_SiteIDs = [''p1''],
     prin_Permissions = {PermissionWorkflowReview, PermissionOrganizationCreate}\<rparr>"

definition signed_in :: world where
  "signed_in = \<lparr>db = auth_tables\<lparr>principals := [bob\<lparr>p_updated_at := 2\<rparr>]\<rparr>, ids = 1, ticks = 2, rands = 0, calls = 4\<rparr>"

lemma admin_session:
  "PrincipalForSession sample_env ''token'' {''sub-2''} (world_of auth_tables) = (Inr bob_admin, signed_in)"
  by (simp add: PrincipalForSession_def select_session_def session_rows_def session_live_def
        ResolvePrincipal_def upsert_principal_def coalesce_empty_def select_memberships_def rows_end_def
        assemble_principal_def addRolePermissions_def auth_run_defs bob_admin_def signed_in_def world_of_def
        touch_principal_def nullif_empty_def insert_commute)

lemma admin_create:
  "\<exists>w'. Create sample_env all_deps bob_admin ''key-0001'' acme signed_in = (Inr (new_result sample_env 1 acme, False), w')
     \<and> organizations (db w') \<noteq> []"
proof -
  have v: "valid_utf8 ''ixxx''" by (simp add: ascii_valid_utf8)
  show ?thesis
    by (simp add: sample_run_defs bob_admin_def signed_in_def auth_tables_def bob_def auth_sample_text v numeral_eq_Suc)
qed

definition create_request :: request where
  "create_request = sample_request\<lparr>rq_Method := ''POST'', rq_Path := ''/api/v1/organizations'',
     rq_Cookies := [(''sid'', ''token'')], rq_Header := [(''Idempotency-Key'', ''key-0001'')],
     rq_Body := json_text (command_json acme)\<rparr>"

lemma admin_service:
  "OrganizationService_Create (Some create) bob_admin ''key-0001'' acme w = create bob_admin ''key-0001'' acme w"
  by (simp add: OrganizationService_Create_def Let_def sample_trim acme_def bob_admin_def Has_def)

lemma admin_handler:
  assumes "create bob_admin ''key-0001'' acme w = (x, w')"
  shows "createOrganization (Some create) (create_request\<lparr>rq_Context := Some bob_admin\<rparr>) rs w = (create_status x rs, w')"
proof -
  have "decode_body (rq_Body create_request) = Inr acme"
    using sample_body by (simp add: create_request_def acme_def)
  moreover have "get_first (rq_Header create_request) ''Idempotency-Key'' = ''key-0001''"
    by (simp add: create_request_def get_first_def)
  moreover have "PrincipalFromContext (Some bob_admin) = (bob_admin, True)"
    by (simp add: PrincipalFromContext_def bob_admin_def)
  ultimately show ?thesis
    by (simp add: createOrganization_def sample_trim tryE_def admin_service assms)
qed

lemma admin_serve:
  "\<exists>rs. serve admin_app create_request (world_of auth_tables) =
     createOrganization (Some (Create sample_env all_deps)) (create_request\<lparr>rq_Context := Some bob_admin\<rparr>) rs signed_in"
proof -
  have m: "chi_match sample_chi root_patterns ''POST'' (''/api/v1/'' @ ''organizations'')
      = Matched (''*'', ''/api/v1/*'') [(''*'', ''organizations'')]"
    "chi_match sample_chi api_patterns ''POST'' ''/organizations'' = Matched (''POST'', ''/organizations'') []"
    using sample_chi_matches unfolding chi_matches_def by (blast, simp add: api_patterns_def)
  have rq: "rq_Method create_request = ''POST''" "rq_Path create_request = ''/api/v1/organizations''"
    by (simp_all add: create_request_def)
  have a: "authenticate sample_env (ap_service admin_app) create_request (world_of auth_tables) = (Inr bob_admin, signed_in)"
    using admin_session by (simp add: authenticate_def create_request_def get_cookie_def admin_app_def sample_service_def)
  have e: "ap_env admin_app = sample_env" "ap_chi admin_app = sample_chi" by (simp_all add: admin_app_def)
  have "dispatch sample_chi (api_routes (api_dependencies admin_app)) ''/organizations''
      (create_request\<lparr>rq_Context := Some bob_admin\<rparr>) rs signed_in =
     createOrganization (Some (Create sample_env all_deps)) (create_request\<lparr>rq_Context := Some bob_admin\<rparr>) rs signed_in" for rs
    using m(2) by (simp add: dispatch_def patterns rq) (simp add: api_routes_def e)
  moreover have "dispatch sample_chi (routes sample_env sample_chi (api_dependencies admin_app)) (rq_Path create_request)
      create_request rs (world_of auth_tables)
    = api_router sample_chi (api_dependencies admin_app) [(''*'', ''organizations'')] create_request rs (world_of auth_tables)" for rs
    using m(1) by (simp add: dispatch_def patterns rq) (simp add: routes_def)
  ultimately show ?thesis
    using a by (auto simp: serve_def New_Router_def securityHeaders_def e api_router_def get_first_def
        Middleware_def tryE_def WithPrincipal_def)
qed

section \<open>Stored answers stay\<close>

lemma find_append_Some: "find P xs = Some x \<Longrightarrow> find P (xs @ ys) = Some x"
  by (simp add: find_append)

lemma key_entry_ledger:
  assumes "ledger E d d'" and "key_entry E d k = Some e"
  shows "key_entry E d' k = Some e"
  using assms unfolding ledger_def
  by (auto simp: key_entry_def find_append_Some split: prod.splits option.splits)

lemma createOrganization_ok:
  assumes "createOrganization (Some create) r rs w = (rs1, w1)" and "rs_Status rs1 \<in> {200, 201}"
  obtains p c res b where "PrincipalFromContext (rq_Context r) = (p, True)" "decode_body (rq_Body r) = Inr c"
    "OrganizationService_Create (Some create) p (TrimSpace (get_first (rq_Header r) ''Idempotency-Key'')) c w = (Inr (res, b), w1)"
    "rs_Body rs1 = Json (result_json res)"
proof -
  obtain p ok where p: "PrincipalFromContext (rq_Context r) = (p, ok)" by fastforce
  then have ok: "ok" using assms by (auto simp: createOrganization_def split: if_splits)
  then obtain c where c: "decode_body (rq_Body r) = Inr c"
    using assms p by (cases "decode_body (rq_Body r)") (auto simp: createOrganization_def Let_def)
  obtain x w' where x: "OrganizationService_Create (Some create) p
      (TrimSpace (get_first (rq_Header r) ''Idempotency-Key'')) c w = (x, w')" by fastforce
  then have rs1: "rs1 = create_status x rs" "w1 = w'"
    using assms(1) p ok c by (auto simp: createOrganization_def Let_def tryE_def)
  then obtain res b where "x = Inr (res, b)"
    using assms(2) create_status_ok by fastforce
  then show thesis
    using that p ok c x rs1 by (cases b) (auto simp: create_status_def)
qed

section \<open>Properties\<close>



text \<open>
  C1. Nothing is created off the record and nothing recorded is lost: a sequence of requests, overtaken by others or
  not, only adds rows at the end of the tables of organizations, memberships, audit events and idempotency keys; the
  new organizations correspond one to one, in order, to the new audit events that name them and to the
  new keys, each completed with status 201; new memberships are those of the administrators of new
  organizations; sites never change.
\<close>

theorem creates_recorded:
  assumes "chi_quiet (ap_chi A)" and "keys_ok (ap_env A) (db w)" and "reaches A w w'"
  shows "ledger (ap_env A) (db w) (db w')"
  using ledger.guarded.keep_reaches [OF assms(3) refl assms(1)] assms(2) by blast

theorem creates_recorded_witness:
  "ledger sample_env sample_tables (db (snd (serve sample_app login_request (world_of sample_tables))))"
  using creates_recorded [of sample_app "world_of sample_tables"] sample_chi_quiet sample_keys_ok reaches_serve
  by simp

text \<open>
  C8. A subject is one principal for ever: whenever the same subject is resolved again, after any
  requests and any work of others, it has the identifier it had before.
\<close>

theorem subject_identity_stable:
  assumes "chi_quiet (ap_chi A)" and "auth_ok (db w)"
    and "ResolvePrincipal (ap_env A) c bs w = (Inr p, w1)" and "reaches A w1 w2"
    and "ResolvePrincipal (ap_env A) c' bs' w2 = (Inr p', w3)" and "cl_Subject c' = cl_Subject c"
  shows "prin_ID p' = prin_ID p"
proof -
  have "auth_ok (db w1)"
    using auth_ok.keep_ResolvePrincipal [of "ap_env A" c bs] assms(2,3) by (auto simp: keeps_def on_db_def dest: spec [of _ w])
  then have ok: "principals_ok (db w2)"
    using login_ok.keep_reaches [OF assms(4) refl assms(1)] by (simp add: auth_ok_def)
  obtain r where "r \<in> set (principals (db w1))" "p_external_subject r = cl_Subject c" "p_id r = prin_ID p"
    using ResolvePrincipal_row [OF assms(3)] by blast
  then obtain r' where "r' \<in> set (principals (db w2))" "p_external_subject r' = cl_Subject c" "p_id r' = prin_ID p"
    using subjects.keep_reaches [OF assms(4) refl assms(1)] unfolding subjects_kept_def by metis
  then show ?thesis using ResolvePrincipal_known [OF assms(5) ok] assms(6) by simp
qed

theorem subject_identity_stable_witness:
  "\<exists>p w1 p' w3. ResolvePrincipal sample_env \<lparr>cl_Subject = ''sub-2'', cl_DisplayName = ''Bob'', cl_Email = []\<rparr> {}
       (world_of auth_tables) = (Inr p, w1)
     \<and> ResolvePrincipal sample_env \<lparr>cl_Subject = ''sub-2'', cl_DisplayName = ''Robert'', cl_Email = []\<rparr> {} w1 = (Inr p', w3)
     \<and> prin_ID p' = prin_ID p"
proof -
  let ?c = "\<lparr>cl_Subject = ''sub-2'', cl_DisplayName = ''Bob'', cl_Email = []\<rparr>"
    and ?c' = "\<lparr>cl_Subject = ''sub-2'', cl_DisplayName = ''Robert'', cl_Email = []\<rparr>"
  have v: "valid_utf8 ''Robert''" "valid_utf8 ''ix''" by (simp_all add: ascii_valid_utf8)
  obtain p w1 where 1: "ResolvePrincipal sample_env ?c {} (world_of auth_tables) = (Inr p, w1)"
    and 2: "\<exists>p' w3. ResolvePrincipal sample_env ?c' {} w1 = (Inr p', w3)"
    by (simp add: ResolvePrincipal_def upsert_principal_def coalesce_empty_def select_memberships_def v
        rows_end_def touch_principal_def nullif_empty_def auth_run_defs)
  obtain p' w3 where 3: "ResolvePrincipal sample_env ?c' {} w1 = (Inr p', w3)" using 2 by blast
  have "reaches sample_app w1 w1"
    using reaches_request [OF reaches.start sample_live] by blast
  then have "prin_ID p' = prin_ID p"
    using subject_identity_stable [of sample_app "world_of auth_tables" ?c "{}" p w1 w1 ?c' "{}" p' w3] 1 3
      sample_chi_quiet auth_ok_sample by simp
  then show ?thesis using 1 3 by blast
qed

text \<open>
  C4. A revoked session stays out: after a session was revoked, and after any further requests and
  any work of others, a request to the API that carries its token as the session cookie is answered 401.
\<close>

theorem revoked_session_rejected:
  assumes "chi_quiet (ap_chi A)" and "chi_matches (ap_chi A)"
    and "session_revoked (env_sha256 (ap_env A) tok) (db w)" and "tok \<noteq> []" and "reaches A w w'"
    and "rq_Method r \<in> {''GET'', ''POST''}" and "rq_Path r = ''/api/v1/'' @ rest"
    and "get_cookie r (a_CookieName (sv_config (ap_service A))) = Some tok"
  shows "rs_Status (fst (serve A r w')) = 401"
proof -
  let ?D = "api_dependencies A" and ?E = "ap_env A" and ?C = "ap_chi A"
  have rv: "session_revoked (env_sha256 ?E tok) (db w')"
    using revoked.keep_reaches [OF assms(5) refl assms(1)] assms(3) by blast
  obtain c cs where tok: "tok = c # cs" using assms(4) by (cases tok) auto
  obtain err w1 where a: "authenticate ?E (ap_service A) r w' = (Inl err, w1)"
    using session_revoked_no_principal [OF rv, of "sv_bootstrapSubjects (ap_service A)"] assms(8) tok
    by (cases "authenticate ?E (ap_service A) r w'"; cases "fst (authenticate ?E (ap_service A) r w')")
      (auto simp: authenticate_def)
  have "chi_match ?C root_patterns (rq_Method r) (rq_Path r) = Matched (''*'', ''/api/v1/*'') [(''*'', rest)]"
    using assms(2,6) unfolding chi_matches_def assms(7) by blast
  then have "dispatch ?C (routes ?E ?C ?D) (rq_Path r) r rs w' = api_router ?C ?D [(''*'', rest)] r rs w'" for rs
    by (simp add: dispatch_def patterns) (simp add: routes_def)
  then show ?thesis
    using a by (simp add: serve_def New_Router_def securityHeaders_def api_router_def Middleware_def tryE_def)
qed

theorem revoked_session_rejected_witness:
  "rs_Status (fst (serve sample_app me_request (snd (serve sample_app login_request
     (world_of (auth_tables\<lparr>web_sessions := map (revoke_row sample_env ''token'' 0) (web_sessions auth_tables)\<rparr>)))))) = 401"
proof -
  let ?d = "auth_tables\<lparr>web_sessions := map (revoke_row sample_env ''token'' 0) (web_sessions auth_tables)\<rparr>"
  have "session_revoked ''token'' ?d" by (simp add: session_revoked_def auth_tables_def)
  then show ?thesis
    by (intro revoked_session_rejected [of sample_app "''token''" "world_of ?d" _ me_request "''me''"])
      (simp_all add: sample_chi_quiet sample_chi_matches reaches_serve me_request_def sample_request_def
        get_cookie_def, simp add: sample_service_def)
qed



text \<open>
  C2. A retry at any later time is answered from the record: once a request to create an organization
  was answered with success, then after any further requests and any work of others the same request of the same principal is
  answered 200 with the same body and the header that marks a replay, and changes no table.
\<close>

theorem create_retry_replays:
  assumes "chi_quiet (ap_chi A)" and "server_ok (ap_env A)" and "keys_ok (ap_env A) (db w)"
    and "createOrganization (Some (Create (ap_env A) all_deps)) r rs w = (rs1, w1)" and "rs_Status rs1 \<in> {200, 201}"
    and "reaches A w1 w2" and "connected (ap_env A) w2"
  shows "\<exists>rs2 w3. createOrganization (Some (Create (ap_env A) all_deps)) r rs w2 = (rs2, w3)
     \<and> rs_Status rs2 = 200 \<and> header rs2 ''Idempotent-Replayed'' = Some ''true'' \<and> rs_Body rs2 = rs_Body rs1
     \<and> db w3 = db w2"
proof -
  let ?E = "ap_env A" and ?key = "TrimSpace (get_first (rq_Header r) ''Idempotency-Key'')"
  obtain p c res b where o: "PrincipalFromContext (rq_Context r) = (p, True)" "decode_body (rq_Body r) = Inr c"
    "OrganizationService_Create (Some (Create ?E all_deps)) p ?key c w = (Inr (res, b), w1)"
    "rs_Body rs1 = Json (result_json res)"
    using createOrganization_ok [OF assms(4,5)] by blast
  note s = pg_store.service_delegates [OF o(3)]
  have ok: "keys_ok ?E (db w2)" "ledger ?E (db w1) (db w2)"
    using ledger.guarded.keep_reaches [OF assms(6) refl assms(1)] Create_keys_ok [OF assms(3)] s by blast+
  obtain st body where e: "key_entry ?E (db w1) (create_key p (TrimSpace ?key)) = Some (request_hash ?E c, Some (st, body))"
    "unmarshal_result body = Some res"
    using Create_answer [OF assms(2,3)] s by blast
  obtain w3 where "Create ?E all_deps p (TrimSpace ?key) c w2 = (Inr (res, True), w3)" "db w3 = db w2"
    using Create_replays [OF ok(1) assms(7) key_entry_ledger [OF ok(2) e(1)] e(2)] unfolding same_data_def by blast
  then have "OrganizationService_Create (Some (Create ?E all_deps)) p ?key c w2 = (Inr (res, True), w3)"
    using s by (simp add: OrganizationService_Create_def Let_def)
  then show ?thesis
    using o(1,2,4) \<open>db w3 = db w2\<close>
    by (simp add: createOrganization_def Let_def tryE_def create_status_def)
qed

theorem create_retry_replays_witness:
  "\<exists>rs1 w1 rs2 w3. createOrganization (Some (Create sample_env all_deps)) (create_request\<lparr>rq_Context := Some bob_admin\<rparr>)
       empty_response signed_in = (rs1, w1) \<and> rs_Status rs1 = 201
     \<and> createOrganization (Some (Create sample_env all_deps)) (create_request\<lparr>rq_Context := Some bob_admin\<rparr>)
       empty_response (snd (serve sample_app login_request w1)) = (rs2, w3)
     \<and> rs_Status rs2 = 200 \<and> rs_Body rs2 = rs_Body rs1"
proof -
  let ?r = "create_request\<lparr>rq_Context := Some bob_admin\<rparr>"
  obtain res w1 where "Create sample_env all_deps bob_admin ''key-0001'' acme signed_in = (Inr (res, False), w1)"
    using admin_create by blast
  then have c: "createOrganization (Some (Create sample_env all_deps)) ?r empty_response signed_in
      = (create_status (Inr (res, False)) empty_response, w1)"
    by (rule admin_handler)
  moreover have "keys_ok sample_env (db signed_in)"
    by (rule keys_ok_empty) (simp add: signed_in_def auth_tables_def empty_tables_def)
  moreover have st: "rs_Status (create_status (Inr (res, False)) empty_response) = 201"
    by (simp add: create_status_code)
  moreover have "connected sample_env w" for w by (simp add: connected_def)
  ultimately show ?thesis
    using create_retry_replays [of sample_app signed_in ?r empty_response _ w1 "snd (serve sample_app login_request w1)"]
      sample_chi_quiet server_ok_sample(1) reaches_serve [of sample_app w1 login_request]
    by fastforce
qed

text \<open>
  C9. Every response of the process carries the four security headers, the errors of the router and of
  the login service included.
\<close>

theorem security_headers:
  assumes "chi_quiet (ap_chi A)"
  shows "protected_response (fst (serve A r w))"
  unfolding serve_def by (rule login.router_protected) (simp_all add: assms)

theorem security_headers_witness:
  "protected_response (fst (serve sample_app login_request (world_of sample_tables)))"
  by (rule security_headers) (simp add: sample_chi_quiet)

end
