(* ===== verification/Database_Pool.thy ===== *)
theory Database_Pool
  imports App_Config Go_Json "HOL-Library.AList"
begin

text \<open>
  \<open>internal/platform/database\<close>: \<open>Open\<close> (\<open>database.go\<close>), \<open>Migrate\<close> (\<open>migrate.go\<close>) and \<open>MigrateRiver\<close>
  (\<open>migrate_river.go\<close>). The driver, goose and the River migrator are the records \<open>pgx\<close> and \<open>migrator\<close>; the
  state counts the pools and handles that are open. A timeout is sent to the server as the text of a
  duration, which is the function \<open>duration_text\<close>.
\<close>

section \<open>The text of a duration\<close>

text \<open>\<open>time.Duration.String\<close>: \<open>fmt_frac\<close> writes the fraction without trailing zeros in front of the unit and
  returns the whole part.\<close>

fun fmt_frac :: "nat \<Rightarrow> nat \<Rightarrow> bool \<Rightarrow> string \<Rightarrow> string \<times> nat" where
  "fmt_frac 0 v printed acc = (if printed then CHR ''.'' # acc else acc, v)"
| "fmt_frac (Suc prec) v printed acc =
     (let printed' = (printed \<or> v mod 10 \<noteq> 0) in
      fmt_frac prec (v div 10) printed' (if printed' then digit (v mod 10) # acc else acc))"

definition small_unit :: "nat \<Rightarrow> nat \<times> string" where
  "small_unit u =
     (if u < 1000 then (0, ''ns'')
      else if u < 1000000 then (3, [CHR 0xC2, CHR 0xB5, CHR ''s''])
      else (6, ''ms''))"

definition magnitude_text :: "nat \<Rightarrow> string" where
  "magnitude_text u =
     (if u = 0 then ''0s''
      else if u < 1000000000 then
        (case small_unit u of (prec, unit) \<Rightarrow> case fmt_frac prec u False unit of (t, v) \<Rightarrow> nat_text v @ t)
      else case fmt_frac 9 u False ''s'' of (t, v) \<Rightarrow>
        (let s = nat_text (v mod 60) @ t; m = v div 60; h = m div 60 in
         if m = 0 then s
         else if h = 0 then nat_text (m mod 60) @ ''m'' @ s
         else nat_text h @ ''h'' @ nat_text (m mod 60) @ ''m'' @ s))"

definition duration_text :: "int \<Rightarrow> string" where
  "duration_text d = (if d < 0 then ''-'' else []) @ magnitude_text (nat \<bar>d\<bar>)"

lemma fmt_frac_zeros: "fmt_frac prec (v * 10 ^ prec) False acc = (acc, v)"
  by (induction prec arbitrary: acc) (simp_all add: Let_def)

section \<open>Opening a pool\<close>

record PoolConfig =
  pc_ConnString :: string
  pc_RuntimeParams :: "(string \<times> string) list"
  pc_MaxConns :: "32 word"
  pc_MinConns :: int
  pc_MaxConnLifetime :: int
  pc_MaxConnIdleTime :: int
  pc_HealthCheckPeriod :: int

record pgx =
  px_ParseConfig :: "string \<Rightarrow> goerr + PoolConfig"
  px_NewWithConfig :: "PoolConfig \<Rightarrow> goerr option"
  px_Ping :: "PoolConfig \<Rightarrow> goerr option"

definition new_pool :: "pgx \<Rightarrow> PoolConfig \<Rightarrow> (nat, goerr, unit) act" where
  "new_pool px pc n = (case px_NewWithConfig px pc of Some err \<Rightarrow> (Inl err, n) | None \<Rightarrow> (Inr (), Suc n))"

definition close_pool :: "(nat, goerr, unit) act" where
  "close_pool n = (Inr (), n - 1)"

definition pool_config :: "DatabaseConfig \<Rightarrow> Role \<Rightarrow> PoolConfig \<Rightarrow> goerr + PoolConfig" where
  "pool_config cfg role pc0 =
     (let pc = pc0\<lparr>pc_RuntimeParams := AList.update ''lock_timeout'' (duration_text (d_LockTimeout cfg))
          (AList.update ''statement_timeout'' (duration_text (d_StatementTimeout cfg)) (pc_RuntimeParams pc0))\<rparr>;
          fin = (\<lambda>pc. pc\<lparr>pc_MinConns := 1, pc_MaxConnLifetime := 30 * 60 * second,
                   pc_MaxConnIdleTime := 5 * 60 * second, pc_HealthCheckPeriod := 30 * second\<rparr>) in
      if role = RoleAPI then Inr (fin (pc\<lparr>pc_MaxConns := d_APIMaxConns cfg\<rparr>))
      else if role = RoleWorker then
        Inr (fin (pc\<lparr>pc_MaxConns := d_WorkerMaxConns cfg,
                     pc_RuntimeParams := AList.update ''search_path'' ''river,public'' (pc_RuntimeParams pc)\<rparr>))
      else Inl (Errorf ''unsupported database pool role''))"

definition Open :: "pgx \<Rightarrow> DatabaseConfig \<Rightarrow> Role \<Rightarrow> (nat, goerr, PoolConfig) act" where
  "Open px cfg role =
     (case px_ParseConfig px (d_URL cfg) of
        Inl err \<Rightarrow> failE (Wrap ''parse database configuration'' err)
      | Inr parsed \<Rightarrow>
          (case pool_config cfg role parsed of
             Inl err \<Rightarrow> failE err
           | Inr pc \<Rightarrow>
               bindE (mapErr (Wrap ''open database pool'') (new_pool px pc)) (\<lambda>_.
               case px_Ping px pc of
                 Some err \<Rightarrow> bindE close_pool (\<lambda>_. failE (Wrap ''ping database'' err))
               | None \<Rightarrow> retE pc)))"

section \<open>Migrations\<close>

text \<open>The migration tools act on the schema they find; \<open>'m\<close> is what they keep of it.\<close>

record 'm migrator =
  mg_Open :: "string \<Rightarrow> goerr option"
  mg_SetDialect :: "string \<Rightarrow> goerr option"
  mg_Up :: "'m \<Rightarrow> goerr option \<times> 'm"
  mg_Status :: "'m \<Rightarrow> goerr option"
  mg_ParseConfig :: "string \<Rightarrow> goerr option"
  mg_NewWithConfig :: "string \<Rightarrow> (string \<times> string) list \<Rightarrow> goerr option"
  mg_NewRiver :: "string \<Rightarrow> goerr option"
  mg_RiverUp :: "string \<Rightarrow> 'm \<Rightarrow> goerr option \<times> 'm"

record 'm migration_state =
  mi_open :: nat
  mi_schema :: 'm

definition lift_err :: "goerr option \<Rightarrow> ('s, goerr, unit) act" where
  "lift_err e = (case e of None \<Rightarrow> retE () | Some err \<Rightarrow> failE err)"

text \<open>A handle that is opened and closed when the function returns (\<open>defer\<close>).\<close>

definition with_handle :: "('m migration_state, goerr, unit) act \<Rightarrow> ('m migration_state, goerr, unit) act" where
  "with_handle m s = (case m (s\<lparr>mi_open := Suc (mi_open s)\<rparr>) of (x, s') \<Rightarrow> (x, s'\<lparr>mi_open := mi_open s' - 1\<rparr>))"

definition on_schema :: "('m \<Rightarrow> goerr option \<times> 'm) \<Rightarrow> ('m migration_state, goerr, unit) act" where
  "on_schema f s = (case f (mi_schema s) of (e, m) \<Rightarrow>
     (case e of None \<Rightarrow> Inr () | Some err \<Rightarrow> Inl err, s\<lparr>mi_schema := m\<rparr>))"

definition Migrate :: "'m migrator \<Rightarrow> string \<Rightarrow> string \<Rightarrow> ('m migration_state, goerr, unit) act" where
  "Migrate M databaseURL command =
     (case mg_Open M databaseURL of
        Some err \<Rightarrow> failE (Wrap ''open migration database'' err)
      | None \<Rightarrow> with_handle
          (bindE (mapErr (Wrap ''set migration dialect'') (lift_err (mg_SetDialect M ''postgres''))) (\<lambda>_.
             if command = ''up'' then mapErr (Wrap (''migration '' @ command)) (on_schema (mg_Up M))
             else if command = ''status'' then
               mapErr (Wrap (''migration '' @ command)) (\<lambda>s. lift_err (mg_Status M (mi_schema s)) s)
             else failE (Errorf ''unsupported migration command''))))"

definition riverSchema :: string where
  "riverSchema = ''river''"

definition MigrateRiver :: "'m migrator \<Rightarrow> string \<Rightarrow> ('m migration_state, goerr, unit) act" where
  "MigrateRiver M databaseURL =
     (case mg_ParseConfig M databaseURL of
        Some err \<Rightarrow> failE (Wrap ''parse River migration database configuration'' err)
      | None \<Rightarrow>
          (case mg_NewWithConfig M databaseURL [(''search_path'', riverSchema @ '',public'')] of
             Some err \<Rightarrow> failE (Wrap ''open River migration database'' err)
           | None \<Rightarrow> with_handle
               (bindE (mapErr (Wrap ''create River migrator'') (lift_err (mg_NewRiver M riverSchema))) (\<lambda>_.
                  mapErr (Wrap ''migrate River schema'') (on_schema (mg_RiverUp M riverSchema))))))"

section \<open>Properties\<close>

text \<open>
  C36. \<open>Open\<close> leaks no pool: an error leaves no pool open, and a pool that is returned is the only new
  one, with the size of its role, at least one connection, both timeouts set and, for the worker, the
  search path of its schema.
\<close>

theorem open_pool_exact:
  assumes "Open px cfg role n = (x, n')"
  shows "case x of
      Inl _ \<Rightarrow> n' = n
    | Inr pc \<Rightarrow> n' = Suc n \<and> px_Ping px pc = None \<and> (role = RoleAPI \<or> role = RoleWorker)
        \<and> pc_MaxConns pc = (if role = RoleAPI then d_APIMaxConns cfg else d_WorkerMaxConns cfg)
        \<and> map_of (pc_RuntimeParams pc) ''statement_timeout'' = Some (duration_text (d_StatementTimeout cfg))
        \<and> map_of (pc_RuntimeParams pc) ''lock_timeout'' = Some (duration_text (d_LockTimeout cfg))
        \<and> (role = RoleWorker \<longrightarrow> map_of (pc_RuntimeParams pc) ''search_path'' = Some ''river,public'')"
proof -
  have pc: "(role = RoleAPI \<or> role = RoleWorker)
        \<and> pc_MaxConns pc = (if role = RoleAPI then d_APIMaxConns cfg else d_WorkerMaxConns cfg)
        \<and> map_of (pc_RuntimeParams pc) ''statement_timeout'' = Some (duration_text (d_StatementTimeout cfg))
        \<and> map_of (pc_RuntimeParams pc) ''lock_timeout'' = Some (duration_text (d_LockTimeout cfg))
        \<and> (role = RoleWorker \<longrightarrow> map_of (pc_RuntimeParams pc) ''search_path'' = Some ''river,public'')"
    if "pool_config cfg role pc0 = Inr pc" for pc0 pc
    using that
    by (auto simp: pool_config_def Let_def update_conv' RoleAPI_def RoleWorker_def split: if_splits)
  show ?thesis
    using assms pc
    by (auto simp: Open_def bindE_def mapErr_def new_pool_def close_pool_def split: sum.splits option.splits)
qed

definition sample_pgx :: pgx where
  "sample_pgx = \<lparr>px_ParseConfig = (\<lambda>url. Inr \<lparr>pc_ConnString = url, pc_RuntimeParams = [], pc_MaxConns = 4,
     pc_MinConns = 0, pc_MaxConnLifetime = 0, pc_MaxConnIdleTime = 0, pc_HealthCheckPeriod = 0\<rparr>),
     px_NewWithConfig = (\<lambda>_. None), px_Ping = (\<lambda>_. None)\<rparr>"

definition sample_database :: DatabaseConfig where
  "sample_database = \<lparr>d_URL = ''postgres://db'', d_APIMaxConns = 10, d_WorkerMaxConns = 5, d_MaxBudget = 25,
     d_StatementTimeout = 15 * second, d_LockTimeout = 3 * second\<rparr>"

theorem open_pool_exact_witness:
  "\<exists>pc n'. Open sample_pgx sample_database RoleWorker 0 = (Inr pc, n') \<and> n' = 1 \<and> pc_MaxConns pc = 5"
proof -
  have "\<exists>pc. Open sample_pgx sample_database RoleWorker 0 = (Inr pc, 1)"
    by (simp add: Open_def sample_pgx_def pool_config_def Let_def RoleAPI_def RoleWorker_def bindE_def mapErr_def
        new_pool_def)
  then obtain pc where "Open sample_pgx sample_database RoleWorker 0 = (Inr pc, 1)" by blast
  then show ?thesis
    using open_pool_exact [of sample_pgx sample_database RoleWorker 0 "Inr pc" 1]
    by (simp add: sample_database_def RoleAPI_def RoleWorker_def)
qed

text \<open>
  A timeout of whole milliseconds below one second, or of whole seconds below one minute, is sent as
  a decimal number with the unit ms or s, a form the server reads.
\<close>

lemma timeout_text_units:
  assumes "0 < k" and "unit = ''ms'' \<and> k < 1000 \<and> d = int k * 1000000 \<or> unit = ''s'' \<and> k < 60 \<and> d = int k * second"
  shows "duration_text d = nat_text k @ unit"
  using assms(2)
proof
  assume ms: "unit = ''ms'' \<and> k < 1000 \<and> d = int k * 1000000"
  then have "nat \<bar>d\<bar> = k * 10 ^ 6" "k * 10 ^ 6 < 1000000000" "\<not> k * 10 ^ 6 < 1000000" "d \<ge> 0"
    using assms(1) by (auto simp: nat_mult_distrib)
  then show ?thesis
    using assms(1) ms fmt_frac_zeros [of 6 k "''ms''"]
    by (simp add: duration_text_def magnitude_text_def small_unit_def)
next
  assume s: "unit = ''s'' \<and> k < 60 \<and> d = int k * second"
  then have "nat \<bar>d\<bar> = k * 10 ^ 9" "\<not> k * 10 ^ 9 < 1000000000" "d \<ge> 0"
    using assms(1) by (auto simp: second_def nat_mult_distrib)
  then show ?thesis
    using assms(1) s fmt_frac_zeros [of 9 k "''s''"]
    by (simp add: duration_text_def magnitude_text_def Let_def)
qed

text \<open>From one minute on the text mixes units, which the server does not read.\<close>

lemma timeout_minute: "duration_text (60 * second) = ''1m0s''"
  using fmt_frac_zeros [of 9 60 "''s''"]
  by (simp add: duration_text_def magnitude_text_def second_def Let_def nat_text.simps digit_def char_of_eq)

text \<open>A migration closes its handle on every path and changes the schema only when the command is \<open>up\<close>:
  \<open>status\<close> only reads, any other command is refused.\<close>

lemma Migrate_exact:
  assumes "Migrate M url command s = (x, s')"
  shows "mi_open s' = mi_open s
     \<and> (mi_schema s' \<noteq> mi_schema s \<longrightarrow> command = ''up'' \<and> mi_schema s' = snd (mg_Up M (mi_schema s)))
     \<and> (x = Inr () \<longrightarrow> command = ''up'' \<or> command = ''status'')
     \<and> (x = Inr () \<and> command = ''up'' \<longrightarrow> fst (mg_Up M (mi_schema s)) = None \<and> mi_schema s' = snd (mg_Up M (mi_schema s)))"
  using assms
  by (auto simp: Migrate_def with_handle_def on_schema_def lift_err_def bindE_def mapErr_def
      split: option.splits if_splits prod.splits sum.splits)

lemma MigrateRiver_exact:
  assumes "MigrateRiver M url s = (x, s')"
  shows "mi_open s' = mi_open s
     \<and> (mi_schema s' \<noteq> mi_schema s \<longrightarrow> mi_schema s' = snd (mg_RiverUp M riverSchema (mi_schema s)))
     \<and> (x = Inr () \<longrightarrow> fst (mg_RiverUp M riverSchema (mi_schema s)) = None
          \<and> mi_schema s' = snd (mg_RiverUp M riverSchema (mi_schema s)))"
  using assms
  by (auto simp: MigrateRiver_def with_handle_def on_schema_def lift_err_def bindE_def mapErr_def
      split: option.splits if_splits prod.splits sum.splits)

definition sample_migrator :: "nat migrator" where
  "sample_migrator = \<lparr>mg_Open = (\<lambda>_. None), mg_SetDialect = (\<lambda>_. None), mg_Up = (\<lambda>n. (None, 1)),
     mg_Status = (\<lambda>_. None), mg_ParseConfig = (\<lambda>_. None), mg_NewWithConfig = (\<lambda>_ _. None),
     mg_NewRiver = (\<lambda>_. None), mg_RiverUp = (\<lambda>_ n. (None, n + 10))\<rparr>"

end
