(* ===== verification/Jobs.thy ===== *)
theory Jobs
  imports App_Config Go_Json
begin

text \<open>
  \<open>internal/platform/jobs/client.go\<close>: the configuration of the job queue, the health check job, the
  decision about failed attempts and the insertion of a job. The queue library (River) is the record
  \<open>river\<close>; \<open>'q\<close> is what it keeps.
\<close>

definition QueueFoundation :: string where "QueueFoundation = ''foundation''"
definition QueueEmbedding :: string where "QueueEmbedding = ''embedding''"
definition QueueReport :: string where "QueueReport = ''report''"
definition QueueVision :: string where "QueueVision = ''vision''"
definition QueueTranscription :: string where "QueueTranscription = ''transcription''"

record FoundationHealthArgs =
  fh_IdempotencyKey :: string

definition Kind :: "FoundationHealthArgs \<Rightarrow> string" where
  "Kind args = ''foundation.healthcheck''"

definition args_json :: "FoundationHealthArgs \<Rightarrow> json" where
  "args_json args = JObj [(''idempotency_key'', JStr (fh_IdempotencyKey args))]"

text \<open>The worker only writes a log line.\<close>

definition Work :: "FoundationHealthArgs \<Rightarrow> goerr option" where
  "Work args = None"

definition Timeout :: int where
  "Timeout = 5 * second"

record ErrorHandlerResult =
  eh_SetCancelled :: bool

definition HandleError :: "goerr \<Rightarrow> ErrorHandlerResult option" where
  "HandleError err = (if errors_Is err ErrCanceled then Some \<lparr>eh_SetCancelled = True\<rparr> else None)"

definition HandlePanic :: "string \<Rightarrow> ErrorHandlerResult option" where
  "HandlePanic panicValue = Some \<lparr>eh_SetCancelled = True\<rparr>"

record RiverConfig =
  rv_Schema :: string
  rv_Queues :: "(string \<times> int) list"
  rv_Workers :: "string list"
  rv_JobTimeout :: int

record InsertOpts =
  io_Queue :: string
  io_MaxAttempts :: int
  io_ByArgs :: bool

record 'q river =
  rl_AddWorker :: "string \<Rightarrow> goerr option"
  rl_NewClient :: "RiverConfig \<Rightarrow> goerr option"
  rl_Start :: "'q \<Rightarrow> goerr option \<times> 'q"
  rl_Stop :: "'q \<Rightarrow> goerr option \<times> 'q"
  rl_Insert :: "string \<Rightarrow> json \<Rightarrow> InsertOpts \<Rightarrow> 'q \<Rightarrow> goerr option \<times> 'q"

definition queues_of :: "JobsConfig \<Rightarrow> (string \<times> int) list" where
  "queues_of cfg = [(QueueFoundation, 1), (QueueEmbedding, j_EmbeddingConcurrency cfg),
     (QueueReport, j_ReportConcurrency cfg), (QueueVision, j_VisionConcurrency cfg),
     (QueueTranscription, j_TranscriptionConcurrency cfg)]"

definition New_Client :: "'q river \<Rightarrow> JobsConfig \<Rightarrow> goerr + RiverConfig" where
  "New_Client R cfg =
     (let kind = ''foundation.healthcheck'' in
      case rl_AddWorker R kind of
        Some err \<Rightarrow> Inl err
      | None \<Rightarrow>
          let config = \<lparr>rv_Schema = ''river'', rv_Queues = queues_of cfg, rv_Workers = [kind],
                        rv_JobTimeout = 60 * second\<rparr> in
          (case rl_NewClient R config of Some err \<Rightarrow> Inl err | None \<Rightarrow> Inr config))"

definition Start :: "'q river \<Rightarrow> 'q \<Rightarrow> goerr option \<times> 'q" where
  "Start R = rl_Start R"

definition Stop :: "'q river \<Rightarrow> 'q \<Rightarrow> goerr option \<times> 'q" where
  "Stop R = rl_Stop R"

definition health_opts :: InsertOpts where
  "health_opts = \<lparr>io_Queue = QueueFoundation, io_MaxAttempts = 3, io_ByArgs = True\<rparr>"

definition EnqueueFoundationHealth :: "'q river \<Rightarrow> string \<Rightarrow> 'q \<Rightarrow> goerr option \<times> 'q" where
  "EnqueueFoundationHealth R idempotencyKey =
     (let args = \<lparr>fh_IdempotencyKey = idempotencyKey\<rparr> in rl_Insert R (Kind args) (args_json args) health_opts)"

section \<open>Properties\<close>

text \<open>
  C37. A worker that starts has usable queues: from a configuration that loads without error, the client
  is configured with five distinct queues that each run at least one job at a time, the queue of the
  health check exactly one; the kind and the queue of the job it enqueues are registered.
\<close>

theorem worker_queues:
  assumes "Load P role = (c, None)" and "New_Client R (c_Jobs c) = Inr config"
  shows "distinct (map fst (rv_Queues config)) \<and> length (rv_Queues config) = 5
     \<and> (\<forall>(q, n) \<in> set (rv_Queues config). 0 < n)
     \<and> map_of (rv_Queues config) (io_Queue health_opts) = Some 1 \<and> Kind args \<in> set (rv_Workers config)
     \<and> Timeout \<le> rv_JobTimeout config"
proof -
  have c: "c = load_config P role" "Validate P c = None"
    using assms(1) Load_ok [of P role] by (auto simp: Load_def Let_def)
  have config: "config = \<lparr>rv_Schema = ''river'', rv_Queues = queues_of (c_Jobs c),
      rv_Workers = [''foundation.healthcheck''], rv_JobTimeout = 60 * second\<rparr>"
    using assms(2) by (auto simp: New_Client_def Let_def split: option.splits)
  have "\<forall>(q, n) \<in> set (queues_of (c_Jobs c)). 0 < n"
    using c(2) unfolding Validate_None by (simp add: queues_of_def)
  then show ?thesis
    by (simp add: config Kind_def Timeout_def second_def)
      (simp add: queues_of_def health_opts_def QueueFoundation_def QueueEmbedding_def QueueReport_def
        QueueVision_def QueueTranscription_def)
qed

definition sample_river :: "(string \<times> json) list river" where
  "sample_river = \<lparr>rl_AddWorker = (\<lambda>_. None), rl_NewClient = (\<lambda>_. None), rl_Start = (\<lambda>q. (None, q)),
     rl_Stop = (\<lambda>q. (None, q)), rl_Insert = (\<lambda>k a _ q. (None, if (k, a) \<in> set q then q else q @ [(k, a)]))\<rparr>"

theorem worker_queues_witness:
  "map_of (rv_Queues \<lparr>rv_Schema = ''river'', rv_Queues = queues_of (c_Jobs (fst (Load sample_process RoleAPI))),
      rv_Workers = [''foundation.healthcheck''], rv_JobTimeout = 60 * second\<rparr>) QueueFoundation = Some 1"
proof -
  have "Load sample_process RoleAPI = (fst (Load sample_process RoleAPI), None)"
    using sample_load by (metis prod.collapse)
  moreover have "New_Client sample_river (c_Jobs (fst (Load sample_process RoleAPI))) = Inr
      \<lparr>rv_Schema = ''river'', rv_Queues = queues_of (c_Jobs (fst (Load sample_process RoleAPI))),
       rv_Workers = [''foundation.healthcheck''], rv_JobTimeout = 60 * second\<rparr>"
    by (simp add: New_Client_def sample_river_def)
  ultimately show ?thesis
    using worker_queues [of sample_process RoleAPI _ sample_river] by (simp only: health_opts_def InsertOpts.select_convs)
qed

text \<open>
  The identity of a health check is its key: two jobs are the same to the queue, by their kind and
  the text of their arguments, exactly when their keys are equal, for keys that are text.
\<close>

lemma health_job_identity:
  assumes "valid_utf8 (fh_IdempotencyKey a)" and "valid_utf8 (fh_IdempotencyKey b)"
  shows "Kind a = Kind b \<and> json_text (args_json a) = json_text (args_json b)
     \<longleftrightarrow> fh_IdempotencyKey a = fh_IdempotencyKey b"
proof -
  have wf: "wf_json (args_json x)" if "valid_utf8 (fh_IdempotencyKey x)" for x
    using that by (simp add: args_json_def ascii_valid_utf8)
  have "args_json a = args_json b" if "json_text (args_json a) = json_text (args_json b)"
    using json_parse_text [OF wf [OF assms(1)]] json_parse_text [OF wf [OF assms(2)]] that
    by (metis option.inject)
  then show ?thesis by (auto simp: Kind_def args_json_def)
qed

end
