(* ===== verification/Startup.thy ===== *)
theory Startup
  imports Api_Correct Database_Pool Jobs
begin

text \<open>
  The three commands: \<open>cmd/api/main.go\<close>, \<open>cmd/worker/main.go\<close> and \<open>cmd/migrate/main.go\<close>. Each loads its
  configuration, opens what it needs and exits with a code: 2 for its arguments or configuration, 1 for a
  failure, 0 otherwise. The state counts the open pools; a process that calls \<open>os.Exit\<close> does not run its
  deferred calls. What the operating system and the libraries answer is an argument.
\<close>

section \<open>The API process\<close>

record HTTPServer =
  hs_Addr :: string
  hs_ReadHeaderTimeout :: int
  hs_ReadTimeout :: int
  hs_WriteTimeout :: int
  hs_IdleTimeout :: int

text \<open>From the start to the point where requests are served.\<close>

definition api_startup ::
  "env \<Rightarrow> pgx \<Rightarrow> (string \<Rightarrow> goerr + provider) \<Rightarrow> chi \<Rightarrow> (string \<Rightarrow> bool) \<Rightarrow> process_env
    \<Rightarrow> (nat, nat, HTTPServer \<times> App) act" where
  "api_startup E px discover C parseUUID P =
     (case Load P RoleAPI of (cfg, err) \<Rightarrow>
        if err \<noteq> None then failE 2
        else (\<lambda>n. case Open px (c_Database cfg) RoleAPI n of
            (Inl _, n1) \<Rightarrow> (Inl 1, n1)
          | (Inr pool, n1) \<Rightarrow>
              (case New_Service discover (c_Auth cfg) of
                 Inl _ \<Rightarrow> (Inl 1, n1)
               | Inr authService \<Rightarrow>
                   (Inr (\<lparr>hs_Addr = h_Address (c_HTTP cfg), hs_ReadHeaderTimeout = 5 * second,
                          hs_ReadTimeout = 15 * second, hs_WriteTimeout = 30 * second,
                          hs_IdleTimeout = 60 * second\<rparr>,
                         \<lparr>ap_env = E, ap_process = P, ap_chi = C, ap_uuid = parseUUID,
                          ap_service = authService\<rparr>), n1))))"

text \<open>
  The end: a signal or a server that stopped listening leads to the shutdown, whose error alone decides
  the code. \<open>listenErr\<close> is the error of \<open>ListenAndServe\<close>, \<open>shutdownErr\<close> that of \<open>Shutdown\<close>.
\<close>

definition api_main ::
  "env \<Rightarrow> pgx \<Rightarrow> (string \<Rightarrow> goerr + provider) \<Rightarrow> chi \<Rightarrow> (string \<Rightarrow> bool) \<Rightarrow> process_env
    \<Rightarrow> goerr option \<Rightarrow> goerr option \<Rightarrow> nat \<Rightarrow> nat \<times> nat" where
  "api_main E px discover C parseUUID P listenErr shutdownErr n =
     (case api_startup E px discover C parseUUID P n of
        (Inl code, n1) \<Rightarrow> (code, n1)
      | (Inr _, n1) \<Rightarrow> if shutdownErr \<noteq> None then (1, n1) else (0, n1 - 1))"

section \<open>The worker process\<close>

definition worker_main :: "pgx \<Rightarrow> 'q river \<Rightarrow> process_env \<Rightarrow> nat \<times> 'q \<Rightarrow> nat \<times> nat \<times> 'q" where
  "worker_main px R P s =
     (case s of (n, q) \<Rightarrow>
      case Load P RoleWorker of (cfg, err) \<Rightarrow>
        if err \<noteq> None then (2, n, q)
        else case Open px (c_Database cfg) RoleWorker n of
            (Inl _, n1) \<Rightarrow> (1, n1, q)
          | (Inr pool, n1) \<Rightarrow>
              (case New_Client R (c_Jobs cfg) of
                 Inl _ \<Rightarrow> (1, n1, q)
               | Inr client \<Rightarrow>
                   (case Start R q of
                      (Some _, q1) \<Rightarrow> (1, n1, q1)
                    | (None, q1) \<Rightarrow>
                        (case Stop R q1 of
                           (Some _, q2) \<Rightarrow> (1, n1, q2)
                         | (None, q2) \<Rightarrow> (0, n1 - 1, q2)))))"

section \<open>The migration command\<close>

definition migrate_main ::
  "'m migrator \<Rightarrow> string list \<Rightarrow> (string \<Rightarrow> string option) \<Rightarrow> 'm migration_state \<Rightarrow> nat \<times> 'm migration_state" where
  "migrate_main M args getenv s =
     (if length args \<noteq> 2 then (2, s)
      else
        let databaseURL = (case getenv ''MIGRATION_DATABASE_URL'' of None \<Rightarrow> [] | Some v \<Rightarrow> v) in
        if databaseURL = [] then (2, s)
        else case Migrate M databaseURL (args ! 1) s of
            (Inl _, s1) \<Rightarrow> (1, s1)
          | (Inr _, s1) \<Rightarrow>
              if args ! 1 = ''up'' then
                (case MigrateRiver M databaseURL s1 of (Inl _, s2) \<Rightarrow> (1, s2) | (Inr _, s2) \<Rightarrow> (0, s2))
              else (0, s1))"

section \<open>Cookies of the process\<close>

definition cookie_safe :: "Service \<Rightarrow> handler \<Rightarrow> bool" where
  "cookie_safe s h \<longleftrightarrow> (\<forall>r rs w. list_all (protected_cookie s) (rs_Cookies rs)
     \<longrightarrow> list_all (protected_cookie s) (rs_Cookies (fst (h r rs w))))"

lemma cookie_safe_same: "(\<And>r rs w. rs_Cookies (fst (h r rs w)) = rs_Cookies rs) \<Longrightarrow> cookie_safe s h"
  by (simp add: cookie_safe_def)

lemma tryE_fst: "(\<And>x w. P (fst (k x w))) \<Longrightarrow> P (fst (tryE m k w))"
  by (cases "m w") (simp add: tryE_def)

lemma create_status_cookies [simp]: "rs_Cookies (create_status x rs) = rs_Cookies rs"
  by (simp add: create_status_def split: sum.split prod.split)

lemma handler_cookies:
  "cookie_safe s live" "cookie_safe s (readiness E pool)" "cookie_safe s currentPrincipal"
  "cookie_safe s (getSite parse reader siteID)" "cookie_safe s (createOrganization store)"
  by (auto intro!: cookie_safe_same tryE_fst [where P = "\<lambda>rs'. rs_Cookies rs' = rs_Cookies rs" for rs]
      simp: live_def readiness_def Let_def currentPrincipal_def getSite_def createOrganization_def
      split: prod.split sum.split)

lemma login_handler_cookies:
  assumes "h = Begin_login E P s \<or> h = Callback E s \<or> h = Logout E s"
  shows "cookie_safe s h"
  unfolding cookie_safe_def
proof (intro allI impI)
  fix r and rs :: response and w assume "list_all (protected_cookie s) (rs_Cookies rs)"
  moreover obtain cs where "rs_Cookies (fst (h r rs w)) = rs_Cookies rs @ cs" "list_all (protected_cookie s) cs"
    using login_cookies [OF assms prod.collapse [symmetric]] by blast
  ultimately show "list_all (protected_cookie s) (rs_Cookies (fst (h r rs w)))" by simp
qed

lemma login_cookie_safe:
  "cookie_safe s (Begin_login E P s)" "cookie_safe s (Callback E s)" "cookie_safe s (Logout E s)"
  using login_handler_cookies by blast+

lemma middleware_cookies:
  assumes "cookie_safe s h"
  shows "cookie_safe s (Middleware E s h)"
  using assms unfolding cookie_safe_def Middleware_def
  by (auto intro!: tryE_fst [where P = "\<lambda>rs'. list_all (protected_cookie s) (rs_Cookies rs')"] split: sum.split)

lemma dispatch_cookies:
  assumes "chi_quiet C" and "\<And>k h params. (k, h) \<in> set table \<Longrightarrow> cookie_safe s (h params)"
  shows "cookie_safe s (dispatch C table path)"
  unfolding cookie_safe_def
proof (intro allI impI)
  fix r and rs :: response and w assume c: "list_all (protected_cookie s) (rs_Cookies rs)"
  from dispatch_cases [OF assms(1), of table path r]
  show "list_all (protected_cookie s) (rs_Cookies (fst (dispatch C table path r rs w)))"
    using assms(2) chi_quietD(4) [OF assms(1), of r rs w] c by (auto simp: cookie_safe_def)
qed

lemma serve_cookies:
  assumes "chi_quiet (ap_chi A)"
  shows "list_all (protected_cookie (ap_service A)) (rs_Cookies (fst (serve A r w)))"
proof -
  let ?D = "api_dependencies A" and ?s = "ap_service A" and ?C = "ap_chi A"
  have "cookie_safe ?s (dispatch ?C (api_routes ?D) path)" for path
    by (rule dispatch_cookies [OF assms]) (auto simp: api_routes_def handler_cookies)
  then have "cookie_safe ?s (api_router ?C ?D params)" for params
    by (simp add: api_router_def middleware_cookies)
  then have "cookie_safe ?s (dispatch ?C (routes (ap_env A) ?C ?D) path)" for path
    by (intro dispatch_cookies [OF assms]) (auto simp: routes_def handler_cookies login_cookie_safe)
  then show ?thesis
    by (auto simp: serve_def New_Router_def securityHeaders_def cookie_safe_def empty_response_def)
qed

section \<open>What a started process has\<close>

lemma api_startup_Inr:
  assumes "api_startup E px discover C parseUUID P n = (Inr (srv, A), n')"
  shows "\<exists>c. Load P RoleAPI = (c, None) \<and> n' = Suc n \<and> ap_env A = E \<and> ap_chi A = C
     \<and> sv_config (ap_service A) = c_Auth c \<and> sv_webAudience (ap_service A) = a_ClientID (c_Auth c)
     \<and> sv_bearerAudience (ap_service A) = a_Audience (c_Auth c)"
proof -
  obtain c err where l: "Load P RoleAPI = (c, err)" by fastforce
  then have ok: "err = None" using assms by (auto simp: api_startup_def split: if_splits)
  then obtain pool n1 s where o: "Open px (c_Database c) RoleAPI n = (Inr pool, n1)" and "n1 = n'"
    and s: "New_Service discover (c_Auth c) = Inr s" and A: "ap_env A = E" "ap_chi A = C" "ap_service A = s"
    using assms l by (auto simp: api_startup_def split: prod.splits sum.splits)
  have "n' = Suc n"
    using o \<open>n1 = n'\<close>
    by (auto simp: Open_def bindE_def mapErr_def new_pool_def close_pool_def split: sum.splits option.splits)
  moreover have "Validate P c = None" and "c = load_config P RoleAPI"
    using l ok Load_ok [of P RoleAPI] by (auto simp: Load_def Let_def)
  then have "a_Audience (c_Auth c) \<noteq> []"
    unfolding Validate_None by (auto simp: load_config_def validate_api_def Let_def)
  then have "sv_config s = c_Auth c \<and> sv_webAudience s = a_ClientID (c_Auth c) \<and> sv_bearerAudience s = a_Audience (c_Auth c)"
    using s by (auto simp: New_Service_def Let_def split: sum.splits)
  ultimately show ?thesis using l ok A by simp
qed

lemma Load_secure:
  assumes "Load P RoleAPI = (c, None)" and "c_Environment c \<notin> {''development'', ''test''}"
  shows "a_CookieSecure (c_Auth c)"
proof -
  have "Validate P c = None" "c_Role c = RoleAPI"
    using assms(1) Load_ok [of P RoleAPI] by (auto simp: Load_def Let_def load_config_def)
  then have "\<forall>e \<in> set (validate_api P c). e = None" unfolding Validate_None by blast
  then show ?thesis using assms(2) by (simp add: validate_api_def Let_def)
qed

section \<open>Properties\<close>

text \<open>
  C33. Outside development and test, an API process that starts sends only cookies that are secure,
  invisible to scripts and not sent on cross-site subrequests, whatever it is asked.
\<close>

theorem production_cookies_secure:
  assumes "api_startup E px discover C parseUUID P n = (Inr (srv, A), n')" and "chi_quiet C"
    and "env_value P ''APP_ENV'' ''development'' \<notin> {''development'', ''test''}"
  shows "list_all (\<lambda>c. ck_Secure c \<and> ck_HttpOnly c \<and> ck_SameSite c = SameSiteLaxMode)
    (rs_Cookies (fst (serve A r w)))"
proof -
  obtain c where c: "Load P RoleAPI = (c, None)" "ap_chi A = C" "sv_config (ap_service A) = c_Auth c"
    using api_startup_Inr [OF assms(1)] by blast
  have "c_Environment c = env_value P ''APP_ENV'' ''development''"
    using c(1) by (auto simp: Load_def Let_def load_config_def)
  then have "a_CookieSecure (c_Auth c)" using Load_secure [OF c(1)] assms(3) by simp
  then show ?thesis
    using serve_cookies [of A r w] assms(2) c(2,3) by (simp add: protected_cookie_def list_all_iff)
qed

definition production_process :: process_env where
  "production_process = sample_process\<lparr>pe_var := (pe_var sample_process)(''APP_ENV'' \<mapsto> ''production'')\<rparr>"

lemma production_var [simp]:
  "name \<noteq> ''APP_ENV'' \<Longrightarrow> pe_var production_process name = pe_var sample_process name"
  by (simp add: production_process_def)

lemma production_config:
  "load_config production_process RoleAPI = (load_config sample_process RoleAPI)\<lparr>c_Environment := ''production''\<rparr>"
proof -
  have "env_value production_process ''APP_ENV'' ''development'' = ''production''"
    by (simp add: env_value_def production_process_def)
  moreover have d: "pe_duration production_process = pe_duration sample_process" by (simp add: production_process_def)
  ultimately show ?thesis
    unfolding load_config_def
    by (simp add: env_value_def envInt_def envBool_def envDuration_def envCSV_def d cong: option.case_cong)
qed

lemma production_load: "snd (Load production_process RoleAPI) = None"
proof -
  have v: "Validate sample_process (load_config sample_process RoleAPI) = None"
    "validateEnvironmentValues sample_process = None"
    using sample_load by (simp_all add: Load_ok)
  have p: "pe_host production_process = pe_host sample_process" "pe_userinfo production_process = pe_userinfo sample_process"
    "pe_duration production_process = pe_duration sample_process"
    by (simp_all add: production_process_def)
  have s: "a_CookieSecure (c_Auth (load_config sample_process RoleAPI))"
    by (simp add: load_config_def envBool_def sample_process_def)
  have "Validate production_process ((load_config sample_process RoleAPI)\<lparr>c_Environment := ''production''\<rparr>) = None"
    using v(1) s unfolding Validate_None by (simp add: validate_api_def Let_def p)
  moreover have "validateEnvironmentValues production_process = None"
    using v(2) unfolding validateEnvironmentValues_None
    by (simp add: p int_names_def duration_names_def)
  ultimately show ?thesis by (simp add: Load_ok production_config)
qed

lemma production_startup:
  "\<exists>srv A n'. api_startup sample_env sample_pgx (\<lambda>_. Inr (sv_provider sample_service)) sample_chi (\<lambda>_. True)
     production_process 0 = (Inr (srv, A), n')"
proof -
  obtain c where c: "Load production_process RoleAPI = (c, None)" using production_load by (metis prod.collapse)
  have "\<exists>pc n'. Open sample_pgx (c_Database c) RoleAPI 0 = (Inr pc, n')"
    by (simp add: Open_def sample_pgx_def pool_config_def Let_def bindE_def mapErr_def new_pool_def)
  then show ?thesis using c by (auto simp: api_startup_def New_Service_def Let_def)
qed

theorem production_cookies_secure_witness:
  "\<exists>srv A n'. api_startup sample_env sample_pgx (\<lambda>_. Inr (sv_provider sample_service)) sample_chi (\<lambda>_. True)
       production_process 0 = (Inr (srv, A), n')
     \<and> list_all (\<lambda>c. ck_Secure c \<and> ck_HttpOnly c \<and> ck_SameSite c = SameSiteLaxMode)
         (rs_Cookies (fst (serve A login_request (world_of sample_tables))))"
proof -
  obtain srv A n' where s: "api_startup sample_env sample_pgx (\<lambda>_. Inr (sv_provider sample_service)) sample_chi
      (\<lambda>_. True) production_process 0 = (Inr (srv, A), n')"
    using production_startup by blast
  have "env_value production_process ''APP_ENV'' ''development'' \<notin> {''development'', ''test''}"
    by (simp add: production_process_def env_value_def)
  then show ?thesis using production_cookies_secure [OF s sample_chi_quiet] s by blast
qed

text \<open>
  C34. The exit codes say what happened: 2 exactly when the configuration was refused, before anything
  was opened; 0 only after a regular end, with the pool closed.
\<close>

theorem exit_codes:
  "(fst (api_main E px discover C parseUUID P listenErr shutdownErr n) = 2 \<longleftrightarrow> snd (Load P RoleAPI) \<noteq> None)
   \<and> (fst (worker_main px R P (n, q)) = 2 \<longleftrightarrow> snd (Load P RoleWorker) \<noteq> None)
   \<and> snd (api_main E px discover C parseUUID P listenErr shutdownErr n)
       \<in> (if fst (api_main E px discover C parseUUID P listenErr shutdownErr n) = 1 then {n, Suc n} else {n})
   \<and> fst (snd (worker_main px R P (n, q))) \<in> (if fst (worker_main px R P (n, q)) = 1 then {n, Suc n} else {n})"
proof -
  have o: "n1 = (case x of Inl _ \<Rightarrow> n | Inr _ \<Rightarrow> Suc n)" if "Open px cfg role n = (x, n1)" for cfg role x n1
    using that by (auto simp: Open_def bindE_def mapErr_def new_pool_def close_pool_def split: sum.splits option.splits)
  have api: "(fst (api_main E px discover C parseUUID P listenErr shutdownErr n) = 2 \<longleftrightarrow> snd (Load P RoleAPI) \<noteq> None)
     \<and> snd (api_main E px discover C parseUUID P listenErr shutdownErr n)
       \<in> (if fst (api_main E px discover C parseUUID P listenErr shutdownErr n) = 1 then {n, Suc n} else {n})"
    by (cases "Load P RoleAPI"; cases "Open px (c_Database (fst (Load P RoleAPI))) RoleAPI n")
      (auto simp: api_main_def api_startup_def dest!: o split: sum.splits)
  have "(fst (worker_main px R P (n, q)) = 2 \<longleftrightarrow> snd (Load P RoleWorker) \<noteq> None)
     \<and> fst (snd (worker_main px R P (n, q))) \<in> (if fst (worker_main px R P (n, q)) = 1 then {n, Suc n} else {n})"
    by (cases "Load P RoleWorker"; cases "Open px (c_Database (fst (Load P RoleWorker))) RoleWorker n")
      (auto simp: worker_main_def dest!: o split: sum.splits prod.splits option.splits)
  then show ?thesis using api by blast
qed

text \<open>An API that cannot listen, because its address is in use, ends with code 0.\<close>

lemma listen_failure_exits_zero:
  assumes "api_startup E px discover C parseUUID P n = (Inr x, n')"
  shows "fst (api_main E px discover C parseUUID P (Some err) None n) = 0"
  using assms by (simp add: api_main_def)



end
