(* ===== verification/Ledger_Refinement.thy ===== *)
theory Ledger_Refinement
  imports Idempotency
begin

text \<open>
  The idempotency store against its specification: a finite map from a key (principal, scope, key) to
  the digest of the request and, once it is done, its answer. \<open>Begin\<close> and \<open>Complete\<close> implement the two
  operations of the map; the byte comparison implements equality.
\<close>

type_synonym ledger_key = "string \<times> string \<times> string"
type_synonym ledger_map = "ledger_key \<rightharpoonup> string \<times> (int \<times> string) option"

datatype claim_result = Claimed | Answered int string | Busy | Mismatch

definition claim_spec :: "ledger_key \<Rightarrow> string \<Rightarrow> ledger_map \<Rightarrow> claim_result \<times> ledger_map" where
  "claim_spec k h m =
     (case m k of
        None \<Rightarrow> (Claimed, m(k \<mapsto> (h, None)))
      | Some (h', a) \<Rightarrow>
          if h' \<noteq> h then (Mismatch, m)
          else case a of None \<Rightarrow> (Busy, m) | Some (st, b) \<Rightarrow> (Answered st b, m))"

definition complete_spec :: "ledger_key \<Rightarrow> int \<Rightarrow> string \<Rightarrow> ledger_map \<Rightarrow> bool \<times> ledger_map" where
  "complete_spec k st b m =
     (case m k of
        Some (h, None) \<Rightarrow> (True, m(k \<mapsto> (h, Some (st, b))))
      | _ \<Rightarrow> (False, m))"

text \<open>The abstraction, and the answer of the code for each result of the specification.\<close>

definition ledger_of :: "tables \<Rightarrow> ledger_map" where
  "ledger_of d k = map_option (\<lambda>row. (k_request_hash row, answer_of row))
     (find (\<lambda>row. key_of row = k) (idempotency_keys d))"

fun claim_answer :: "claim_result \<Rightarrow> goerr + Record" where
  "claim_answer Claimed = Inr zero_Record"
| "claim_answer (Answered st b) = Inr \<lparr>Replay = True, ResponseStatus = st, ResponseBody = b\<rparr>"
| "claim_answer Busy = Inl ErrInProgress"
| "claim_answer Mismatch = Inl ErrKeyConflict"

lemma same_key_fun: "same_key pid scope key = (\<lambda>row. key_of row = (pid, scope, key))"
  by (simp add: fun_eq_iff same_key_iff)

lemma ledger_of_append:
  assumes "ledger_of d (key_of row) = None"
  shows "ledger_of (d\<lparr>idempotency_keys := idempotency_keys d @ [row]\<rparr>)
     = (ledger_of d)(key_of row \<mapsto> (k_request_hash row, answer_of row))"
  using assms by (auto simp: ledger_of_def fun_eq_iff find_append split: option.split)

lemma key_of_new_key_row [simp]: "key_of (new_key_row E pid scope key h now) = (pid, scope, key)"
  by (simp add: key_of_def new_key_row_def)

lemma answer_of_new_key_row [simp]: "answer_of (new_key_row E pid scope key h now) = None"
  by (simp add: answer_of_def)

lemma Begin_claims:
  assumes "connected E w" and "env_uuid E principalID = Some pid" and "env_text E scope" and "env_text E key"
    and "ledger_of (db w) (pid, scope, key) = None"
  shows "Begin E principalID scope key h now w = (Inr zero_Record, w\<lparr>calls := Suc (calls w),
     db := (db w)\<lparr>idempotency_keys := idempotency_keys (db w) @ [new_key_row E pid scope key h now]\<rparr>\<rparr>)"
proof -
  have "\<not> list_ex (same_key pid scope key) (idempotency_keys (db w))"
    using assms(5) by (simp add: ledger_of_def same_key_fun find_None_list_ex)
  then have "insert_key E principalID scope key h now (db w)
     = Inr (1, (db w)\<lparr>idempotency_keys := idempotency_keys (db w) @ [new_key_row E pid scope key h now]\<rparr>)"
    using assms(2-4) by (simp add: insert_key_Inr)
  then have "call E (insert_key E principalID scope key h now) w = (Inr 1, w\<lparr>calls := Suc (calls w),
     db := (db w)\<lparr>idempotency_keys := idempotency_keys (db w) @ [new_key_row E pid scope key h now]\<rparr>\<rparr>)"
    using assms(1) by (simp add: call_NoFault)
  then show ?thesis by (simp add: Begin_def bindE_def mapErr_def)
qed

lemma find_map_key:
  "(\<And>r. key (f r) = key r) \<Longrightarrow> find (\<lambda>r. key r = k) (map f rows) = map_option f (find (\<lambda>r. key r = k) rows)"
  by (induction rows) auto

lemma filter_eq_singleton:
  assumes "distinct xs" and "x \<in> set xs" and "\<And>y. y \<in> set xs \<Longrightarrow> P y \<longleftrightarrow> y = x"
  shows "filter P xs = [x]"
proof -
  have "filter P xs = filter (\<lambda>y. y = x) xs" using assms(3) by (rule filter_cong [OF refl])
  also have "\<dots> = [x]" using assms(1,2) by (induction xs) (auto simp: filter_empty_conv)
  finally show ?thesis .
qed

text \<open>A row is pending while it is being processed and has no answer, and only then.\<close>

definition statuses_ok :: "tables \<Rightarrow> bool" where
  "statuses_ok d \<longleftrightarrow> (\<forall>row \<in> set (idempotency_keys d). k_status row \<noteq> ''PROCESSING'' \<longrightarrow> answer_of row \<noteq> None)"

lemma pending_iff:
  "statuses_ok d \<Longrightarrow> row \<in> set (idempotency_keys d) \<Longrightarrow> k_status row = ''PROCESSING'' \<longleftrightarrow> answer_of row = None"
  using answer_of_PROCESSING by (auto simp: statuses_ok_def)

lemma ledger_of_complete:
  assumes "find (\<lambda>r. key_of r = (pid, scope, key)) (idempotency_keys d) = Some row" and "k_status row = ''PROCESSING''"
  shows "ledger_of (d\<lparr>idempotency_keys := map (\<lambda>r. if same_key pid scope key r \<and> k_status r = ''PROCESSING''
       then complete_row st stored t r else r) (idempotency_keys d)\<rparr>)
     = (ledger_of d)((pid, scope, key) \<mapsto> (k_request_hash row, Some (st, stored)))"
proof
  let ?f = "\<lambda>r. if same_key pid scope key r \<and> k_status r = ''PROCESSING'' then complete_row st stored t r else r"
  fix k
  have f: "find (\<lambda>r. key_of r = k) (map ?f (idempotency_keys d))
      = map_option ?f (find (\<lambda>r. key_of r = k) (idempotency_keys d))"
    by (rule find_map_key) simp
  show "ledger_of (d\<lparr>idempotency_keys := map ?f (idempotency_keys d)\<rparr>) k
      = ((ledger_of d)((pid, scope, key) \<mapsto> (k_request_hash row, Some (st, stored)))) k"
  proof (cases "k = (pid, scope, key)")
    case True
    then show ?thesis using f assms find_SomeD [OF assms(1)] by (simp add: ledger_of_def same_key_iff)
  next
    case False
    then have "?f r = r" if "find (\<lambda>r. key_of r = k) (idempotency_keys d) = Some r" for r
      using find_SomeD [OF that] by (auto simp: same_key_iff)
    then show ?thesis using False f
      by (cases "find (\<lambda>r. key_of r = k) (idempotency_keys d)") (simp_all add: ledger_of_def)
  qed
qed

lemma pending_hit:
  assumes "keys_ok E d" and "statuses_ok d" and "find (\<lambda>r. key_of r = k) (idempotency_keys d) = Some row"
  shows "filter (\<lambda>r. key_of r = k \<and> k_status r = ''PROCESSING'') (idempotency_keys d)
     = (if answer_of row = None then [row] else [])"
proof -
  have row: "row \<in> set (idempotency_keys d)" "key_of row = k" using find_SomeD [OF assms(3)] by auto
  have uniq: "r = row" if "r \<in> set (idempotency_keys d)" "key_of r = k" for r
    using that row assms(1) by (auto simp: keys_ok_def distinct_map inj_on_def)
  have hit: "key_of r = k \<and> k_status r = ''PROCESSING'' \<longleftrightarrow> r = row \<and> answer_of row = None"
    if "r \<in> set (idempotency_keys d)" for r
    using that uniq row pending_iff [OF assms(2)] by blast
  show ?thesis
  proof (cases "answer_of row = None")
    case True
    have "distinct (idempotency_keys d)" using assms(1) by (auto simp: keys_ok_def distinct_map)
    then show ?thesis using row(1) hit True by (simp add: filter_eq_singleton)
  next
    case False
    then show ?thesis using hit by (auto simp: filter_empty_conv)
  qed
qed

section \<open>Properties\<close>

text \<open>
  C29. \<open>Begin\<close> implements the claim of the specification: over a connection that answers and for values
  the server accepts, its result is the one the map prescribes (claimed, the stored answer, in progress,
  conflict) and the table it leaves is the map the specification leaves; no other table changes.
\<close>

theorem begin_refines:
  assumes "keys_ok E (db w)" and "connected E w" and "env_uuid E principalID = Some pid"
    and "env_text E scope" and "env_text E key"
    and "claim_spec (pid, scope, key) h (ledger_of (db w)) = (res, m)"
  shows "\<exists>w'. Begin E principalID scope key h now w = (claim_answer res, w') \<and> ledger_of (db w') = m
     \<and> (db w')\<lparr>idempotency_keys := []\<rparr> = (db w)\<lparr>idempotency_keys := []\<rparr>"
proof (cases "ledger_of (db w) (pid, scope, key)")
  case None
  then show ?thesis
    using assms(6) Begin_claims [OF assms(2-5) None, of h now]
      ledger_of_append [of "db w" "new_key_row E pid scope key h now"]
    by (auto simp: claim_spec_def)
next
  case (Some e)
  then obtain row where row: "find (same_key pid scope key) (idempotency_keys (db w)) = Some row"
    "e = (k_request_hash row, answer_of row)"
    by (auto simp: ledger_of_def same_key_fun)
  then show ?thesis
    using assms(6) Some Begin_stored_answer [OF assms(1-3) row(1), of h now]
    by (auto simp: claim_spec_def split: if_splits option.splits)
qed

theorem begin_refines_witness:
  "\<exists>w'. Begin sample_env ''bob'' ''s'' ''k'' ''h'' 0 (world_of empty_tables) = (Inr zero_Record, w')
     \<and> ledger_of (db w') = (ledger_of empty_tables)((''bob'', ''s'', ''k'') \<mapsto> (''h'', None))"
proof -
  have "claim_spec (''bob'', ''s'', ''k'') ''h'' (ledger_of empty_tables)
     = (Claimed, (ledger_of empty_tables)((''bob'', ''s'', ''k'') \<mapsto> (''h'', None)))"
    by (simp add: claim_spec_def ledger_of_def empty_tables_def)
  then show ?thesis
    using begin_refines [of sample_env "world_of empty_tables" "''bob''" "''bob''" "''s''" "''k''" "''h''" _ _ 0]
    by (auto simp: keys_ok_def empty_tables_def connected_def ascii_valid_utf8)
qed

text \<open>
  C30. \<open>Complete\<close> implements completion: it succeeds exactly when the key is claimed and not yet
  answered, stores the answer (the body as the server keeps it) under that key only, and is refused as in
  progress otherwise, with the map unchanged.
\<close>

theorem complete_refines:
  assumes "keys_ok E (db w)" and "statuses_ok (db w)" and "connected E w" and "env_uuid E principalID = Some pid"
    and "env_jsonb E body = Some stored"
    and "complete_spec (pid, scope, key) st stored (ledger_of (db w)) = (ok, m)"
  shows "\<exists>w'. Complete E principalID scope key st body now w = (if ok then Inr () else Inl ErrInProgress, w')
     \<and> ledger_of (db w') = m"
proof -
  let ?rows = "idempotency_keys (db w)"
  let ?hit = "\<lambda>r. same_key pid scope key r \<and> k_status r = ''PROCESSING''"
  let ?f = "\<lambda>r. if ?hit r then complete_row st stored (env_ts E now) r else r"
  have "call E (update_key E principalID scope key st body now) w
      = (Inr (length (filter ?hit ?rows)), w\<lparr>calls := Suc (calls w), db := (db w)\<lparr>idempotency_keys := map ?f ?rows\<rparr>\<rparr>)"
    using assms(3-5) by (simp add: call_NoFault update_key_def cast_uuid_def Let_def)
  then have run: "Complete E principalID scope key st body now w
      = (if length (filter ?hit ?rows) = 1 then Inr () else Inl ErrInProgress,
         w\<lparr>calls := Suc (calls w), db := (db w)\<lparr>idempotency_keys := map ?f ?rows\<rparr>\<rparr>)"
    by (simp add: Complete_def bindE_def mapErr_def)
  have same: "map ?f ?rows = ?rows" if "filter ?hit ?rows = []"
    using that by (auto simp: filter_empty_conv intro!: map_idI)
  show ?thesis
  proof (cases "find (\<lambda>r. key_of r = (pid, scope, key)) ?rows")
    case None
    then have "filter ?hit ?rows = []" by (auto simp: find_None_iff filter_empty_conv same_key_iff)
    then show ?thesis using assms(6) run same None by (simp add: complete_spec_def ledger_of_def)
  next
    case (Some row)
    have hits: "filter ?hit ?rows = (if answer_of row = None then [row] else [])"
      using pending_hit [OF assms(1,2) Some] by (simp add: same_key_iff)
    show ?thesis
    proof (cases "answer_of row")
      case None
      then have "k_status row = ''PROCESSING''" using pending_iff [OF assms(2)] find_SomeD [OF Some] by blast
      then show ?thesis
        using assms(6) run hits None ledger_of_complete [OF Some, of st stored "env_ts E now"] Some
        by (simp add: complete_spec_def ledger_of_def)
    next
      case (Some a)
      then show ?thesis
        using assms(6) run hits same \<open>find _ ?rows = Some row\<close> by (simp add: complete_spec_def ledger_of_def)
    qed
  qed
qed

theorem complete_refines_witness:
  "\<exists>w'. Complete sample_env ''bob'' ''s'' ''k'' 201 ''{}'' 0
       (world_of (empty_tables\<lparr>idempotency_keys := [new_key_row sample_env ''bob'' ''s'' ''k'' ''h'' 0]\<rparr>)) = (Inr (), w')
     \<and> ledger_of (db w') (''bob'', ''s'', ''k'') = Some (''h'', Some (201, ''{}''))"
proof -
  let ?d = "empty_tables\<lparr>idempotency_keys := [new_key_row sample_env ''bob'' ''s'' ''k'' ''h'' 0]\<rparr>"
  have m: "complete_spec (''bob'', ''s'', ''k'') 201 ''{}'' (ledger_of ?d)
     = (True, (ledger_of ?d)((''bob'', ''s'', ''k'') \<mapsto> (''h'', Some (201, ''{}''))))"
    by (simp add: complete_spec_def ledger_of_def)
  have "keys_ok sample_env ?d"
    by (simp add: keys_ok_def) (simp add: new_key_row_def ascii_valid_utf8)
  then show ?thesis
    using complete_refines [of sample_env "world_of ?d" "''bob''" "''bob''" "''{}''" "''{}''" "''s''" "''k''" 201 True
        "(ledger_of ?d)((''bob'', ''s'', ''k'') \<mapsto> (''h'', Some (201, ''{}'')))" 0] m
    by (fastforce simp: statuses_ok_def connected_def ascii_valid_utf8)
qed

text \<open>
  C31. The comparison of digests, a loop that ORs the XOR of every pair of bytes on eight bits and never
  stops early, is equality of the two byte strings.
\<close>

theorem equal_bytes_exact: "equalBytes l r \<longleftrightarrow> l = r"
  by (auto simp: equalBytes_def xor_loop_0_iff)

end
