(* ===== verification/Approval.thy ===== *)
theory Approval
  imports Identity_Domain
begin

text \<open>
  The rules of approval and of access to sites (\<open>internal/identity/domain/authorization.go\<close>) against
  their declarative reading.
\<close>

text \<open>An authority that covers a request: not revoked, held by the subject, in scope, for at least this
  risk and inside its window.\<close>

definition covers :: "(nat \<Rightarrow> nat) \<Rightarrow> ApprovalAuthority \<Rightarrow> string \<Rightarrow> ApprovalRequest \<Rightarrow> bool" where
  "covers tbl a subj r \<longleftrightarrow> auth_RevokedAt a = None \<and> auth_SubjectID a = subj \<and> in_scope tbl a r
     \<and> req_Risk r \<le> auth_MaximumRisk a \<and> in_window a (req_At r)"

lemma CanApprove_iff:
  "CanApprove tbl p perm as r \<longleftrightarrow> perm \<in> prin_Permissions p \<and> (\<exists>a \<in> set as. covers tbl a (prin_ID p) r)"
  by (simp add: CanApprove_def Has_def authority_loop_ex Matches_iff covers_def)

text \<open>
  C32. Approval is decided by the permission and one covering authority: revoked or foreign authorities
  never count, a blank scope field does not restrict, the validity window is half open, and the order or
  repetition of the authorities is irrelevant.
\<close>

theorem can_approve_exact:
  "CanApprove tbl p perm as r \<longleftrightarrow>
     perm \<in> prin_Permissions p
     \<and> (\<exists>a \<in> set as. auth_RevokedAt a = None \<and> auth_SubjectID a = prin_ID p
          \<and> auth_OrganizationID a = req_OrganizationID r
          \<and> (auth_SiteID a = [] \<or> auth_SiteID a = req_SiteID r)
          \<and> (auth_ScopeKind a = [] \<or> EqualFold tbl (auth_ScopeKind a) (req_ScopeKind r))
          \<and> (auth_ScopeID a = [] \<or> auth_ScopeID a = req_ScopeID r)
          \<and> (auth_Competency a = [] \<or> EqualFold tbl (auth_Competency a) (req_Competency r))
          \<and> req_Risk r \<le> auth_MaximumRisk a
          \<and> (auth_ValidFrom a = 0 \<or> auth_ValidFrom a \<le> req_At r)
          \<and> (auth_ValidUntil a = 0 \<or> req_At r < auth_ValidUntil a))"
  unfolding CanApprove_iff covers_def in_scope_def in_window_def by (rule conj_cong [OF refl]) auto

text \<open>
  Approval is monotone: a principal that may approve a request may approve one of lower risk, and
  further authorities or permissions never take the approval away.
\<close>

lemma can_approve_monotone:
  assumes "CanApprove tbl p perm as r" and "set as \<subseteq> set bs" and "prin_Permissions p \<subseteq> prin_Permissions q"
    and "prin_ID q = prin_ID p" and "risk \<le> req_Risk r"
  shows "CanApprove tbl q perm bs (r\<lparr>req_Risk := risk\<rparr>)"
proof -
  obtain a where a: "a \<in> set as" "covers tbl a (prin_ID p) r" using assms(1) by (auto simp: CanApprove_iff)
  then have "covers tbl a (prin_ID q) (r\<lparr>req_Risk := risk\<rparr>)"
    using assms(4,5) by (auto simp: covers_def in_scope_def)
  then show ?thesis using a(1) assms(1-3) by (auto simp: CanApprove_iff)
qed

end
