(* ===== verification/Go_Filepath.thy ===== *)
theory Go_Filepath
  imports Go_Strings
begin

text \<open>
  The parts of \<open>path/filepath\<close> the packaging tool uses, on a system with slashes: \<open>Clean\<close>, \<open>Join\<close>, \<open>Dir\<close>,
  \<open>Base\<close> and \<open>IsAbs\<close>. A path is read as a list of elements; \<open>Clean\<close> drops empty elements and dots and
  resolves a double dot against the element before it.
\<close>

abbreviation slash :: char where "slash \<equiv> CHR ''/''"

fun join_slash :: "string list \<Rightarrow> string" where
  "join_slash [] = []"
| "join_slash [x] = x"
| "join_slash (x # xs) = x @ slash # join_slash xs"

definition rooted :: "string \<Rightarrow> bool" where
  "rooted path \<longleftrightarrow> prefix ''/'' path"

text \<open>One element added to the elements so far, of a rooted path or not.\<close>

definition add_element :: "bool \<Rightarrow> string \<Rightarrow> string list \<Rightarrow> string list" where
  "add_element r c cs =
     (if c = [] \<or> c = ''.'' then cs
      else if c = ''..'' then
        (if cs \<noteq> [] \<and> last cs \<noteq> ''..'' then butlast cs
         else if r then cs else cs @ [''..''])
      else cs @ [c])"

definition elements :: "bool \<Rightarrow> string \<Rightarrow> string list" where
  "elements r path = fold (add_element r) (split_on slash path) []"

definition path_of :: "bool \<Rightarrow> string list \<Rightarrow> string" where
  "path_of r cs = (if cs = [] then (if r then ''/'' else ''.'') else (if r then ''/'' else []) @ join_slash cs)"

definition Clean :: "string \<Rightarrow> string" where
  "Clean path = path_of (rooted path) (elements (rooted path) path)"

definition Join_path :: "string list \<Rightarrow> string" where
  "Join_path elems = (case dropWhile (\<lambda>e. e = []) elems of [] \<Rightarrow> [] | es \<Rightarrow> Clean (join_slash es))"

text \<open>The path up to and with its last slash, and what follows it.\<close>

definition dir_part :: "string \<Rightarrow> string" where
  "dir_part path = rev (dropWhile (\<lambda>c. c \<noteq> slash) (rev path))"

definition file_part :: "string \<Rightarrow> string" where
  "file_part path = rev (takeWhile (\<lambda>c. c \<noteq> slash) (rev path))"

definition Dir :: "string \<Rightarrow> string" where
  "Dir path = Clean (dir_part path)"

definition Base :: "string \<Rightarrow> string" where
  "Base path =
     (if path = [] then ''.''
      else let p = rev (dropWhile (\<lambda>c. c = slash) (rev path)) in
        if p = [] then ''/'' else file_part p)"

definition IsAbs_path :: "string \<Rightarrow> bool" where
  "IsAbs_path path \<longleftrightarrow> prefix ''/'' path"

section \<open>Laws\<close>

lemma dir_file_part: "dir_part path @ file_part path = path"
  unfolding dir_part_def file_part_def rev_append [symmetric] takeWhile_dropWhile_id by simp

lemma dir_part_append: "slash \<notin> set v \<Longrightarrow> dir_part (p @ slash # v) = p @ ''/''"
  by (simp add: dir_part_def dropWhile_append3 dropWhile_append)

lemma file_part_append: "slash \<notin> set v \<Longrightarrow> file_part (p @ slash # v) = v"
  by (simp add: file_part_def takeWhile_append)

lemma join_slash_snoc: "cs \<noteq> [] \<Longrightarrow> join_slash (cs @ [v]) = join_slash cs @ slash # v"
  by (induction cs rule: join_slash.induct) auto

text \<open>Elements of a clean path: no separator, not empty, no dot, and a double dot only in front of a
  path that is not rooted.\<close>

definition clean_elements :: "bool \<Rightarrow> string list \<Rightarrow> bool" where
  "clean_elements r cs \<longleftrightarrow> (\<forall>c \<in> set cs. c \<noteq> [] \<and> c \<noteq> ''.'' \<and> slash \<notin> set c)
     \<and> (\<exists>n ds. cs = replicate n ''..'' @ ds \<and> ''..'' \<notin> set ds \<and> (r \<longrightarrow> n = 0))"

lemma clean_elementsI:
  "cs = replicate n ''..'' @ ds \<Longrightarrow> ''..'' \<notin> set ds \<Longrightarrow> (r \<longrightarrow> n = 0)
    \<Longrightarrow> (\<And>c. c \<in> set cs \<Longrightarrow> c \<noteq> [] \<and> c \<noteq> ''.'' \<and> slash \<notin> set c) \<Longrightarrow> clean_elements r cs"
  unfolding clean_elements_def by blast

lemma clean_elementsD: "clean_elements r cs \<Longrightarrow> c \<in> set cs \<Longrightarrow> c \<noteq> [] \<and> c \<noteq> ''.'' \<and> slash \<notin> set c"
  unfolding clean_elements_def by blast

lemma clean_elements_Nil [simp]: "clean_elements r []"
  by (simp add: clean_elements_def)

lemma clean_elements_snoc:
  assumes "clean_elements r cs" and "c \<noteq> []" "c \<noteq> ''.''" "c \<noteq> ''..''" "slash \<notin> set c"
  shows "clean_elements r (cs @ [c])"
proof -
  obtain n ds where "cs = replicate n ''..'' @ ds" "''..'' \<notin> set ds" "r \<longrightarrow> n = 0"
    using assms(1) unfolding clean_elements_def by blast
  then have "cs @ [c] = replicate n ''..'' @ (ds @ [c])" "''..'' \<notin> set (ds @ [c])" "r \<longrightarrow> n = 0"
    using assms(4) by auto
  then show ?thesis
    by (rule clean_elementsI) (use assms clean_elementsD [OF assms(1)] in auto)
qed

lemma add_element_clean:
  assumes "clean_elements r cs" and "slash \<notin> set c"
  shows "clean_elements r (add_element r c cs)"
proof -
  obtain n ds where cs: "cs = replicate n ''..'' @ ds" "''..'' \<notin> set ds" "r \<longrightarrow> n = 0"
    and el: "\<forall>c \<in> set cs. c \<noteq> [] \<and> c \<noteq> ''.'' \<and> slash \<notin> set c"
    using assms(1) unfolding clean_elements_def by blast
  consider "c = [] \<or> c = ''.''" | "c = ''..''" | "c \<noteq> [] \<and> c \<noteq> ''.'' \<and> c \<noteq> ''..''" by blast
  then show ?thesis
  proof cases
    case 1
    then show ?thesis using assms(1) by (simp add: add_element_def)
  next
    case 2
    show ?thesis
    proof (cases "ds = []")
      case True
      then have l: "\<not> (cs \<noteq> [] \<and> last cs \<noteq> ''..'')" using cs(1) by (cases n) auto
      show ?thesis
      proof (cases r)
        case True
        then show ?thesis using 2 l assms(1) by (auto simp: add_element_def)
      next
        case False
        then have e: "add_element r c cs = replicate (Suc n) ''..'' @ []"
          using 2 l cs(1) \<open>ds = []\<close> by (auto simp: add_element_def replicate_append_same)
        then show ?thesis by (rule clean_elementsI) (use False e in auto)
      qed
    next
      case False
      then have "last cs \<noteq> ''..''" "cs \<noteq> []" using cs by (auto dest: last_in_set)
      then have e: "add_element r c cs = replicate n ''..'' @ butlast ds"
        using 2 False cs(1) by (simp add: add_element_def butlast_append)
      moreover have "''..'' \<notin> set (butlast ds)" using cs(2) by (auto dest: in_set_butlastD)
      ultimately show ?thesis using cs(3)
        by (rule clean_elementsI) (use e el cs(1) in \<open>auto dest: in_set_butlastD\<close>)
    qed
  next
    case 3
    then have "add_element r c cs = cs @ [c]" by (auto simp: add_element_def)
    then show ?thesis using clean_elements_snoc [OF assms(1)] 3 assms(2) by simp
  qed
qed

lemma fold_add_element_clean:
  "clean_elements r cs \<Longrightarrow> (\<And>c. c \<in> set es \<Longrightarrow> slash \<notin> set c) \<Longrightarrow> clean_elements r (fold (add_element r) es cs)"
  by (induction es arbitrary: cs) (auto intro: add_element_clean)

lemma elements_clean: "clean_elements r (elements r path)"
  unfolding elements_def by (rule fold_add_element_clean) (auto dest: split_on_no_sep)

text \<open>Clean elements are read back as they are.\<close>

lemma split_join_slash:
  "cs \<noteq> [] \<Longrightarrow> (\<And>c. c \<in> set cs \<Longrightarrow> slash \<notin> set c) \<Longrightarrow> split_on slash (join_slash cs) = cs"
  by (induction cs rule: join_slash.induct) (auto simp: split_on_append_sep split_on_plain)

lemma fold_add_element_id:
  assumes "clean_elements r (ds @ es)"
  shows "fold (add_element r) es ds = ds @ es"
  using assms
proof (induction es arbitrary: ds)
  case (Cons c es)
  obtain n us where u: "ds @ c # es = replicate n ''..'' @ us" "''..'' \<notin> set us" "r \<longrightarrow> n = 0"
    and el: "\<forall>c \<in> set (ds @ c # es). c \<noteq> [] \<and> c \<noteq> ''.'' \<and> slash \<notin> set c"
    using Cons.prems unfolding clean_elements_def by blast
  have "add_element r c ds = ds @ [c]"
  proof (cases "c = ''..''")
    case True
    have "length ds < n"
    proof (rule ccontr)
      assume "\<not> length ds < n"
      then have "c \<in> set us"
        using arg_cong [OF u(1), of "\<lambda>xs. xs ! length ds"] arg_cong [OF u(1), of length]
        by (auto simp: nth_append)
      then show False using u(2) True by simp
    qed
    then have "ds = replicate (length ds) ''..''"
      using arg_cong [OF u(1), of "take (length ds)"] by (simp add: min_def)
    then have "ds = [] \<or> last ds = ''..''" by (metis last_replicate length_0_conv)
    moreover have "\<not> r" using \<open>length ds < n\<close> u(3) by auto
    ultimately show ?thesis using True by (auto simp: add_element_def)
  qed (use el in \<open>auto simp: add_element_def\<close>)
  then show ?case using Cons.IH [of "ds @ [c]"] Cons.prems by simp
qed simp

text \<open>The path of clean elements, with a slash at its end or not, is read back as these elements.\<close>

lemma rooted_path_of: "clean_elements r cs \<Longrightarrow> rooted (path_of r cs @ xs) = r"
proof -
  assume c: "clean_elements r cs"
  show ?thesis
  proof (cases cs)
    case (Cons d ds)
    then have "d \<noteq> []" "slash \<notin> set d" using clean_elementsD [OF c, of d] by auto
    moreover have "\<exists>ys. join_slash (d # ds) = d @ ys" by (cases ds) auto
    ultimately show ?thesis using Cons by (cases d) (auto simp: path_of_def rooted_def)
  qed (simp add: path_of_def rooted_def)
qed

lemma add_element_Nil [simp]: "add_element r [] cs = cs" "add_element r ''.'' cs = cs"
  by (simp_all add: add_element_def)

lemma elements_path_of:
  assumes "clean_elements r cs"
  shows "elements r (path_of r cs) = cs" and "elements r (path_of r cs @ ''/'') = cs"
    and "slash \<notin> set v \<Longrightarrow> elements r (path_of r cs @ slash # v) = add_element r v cs"
proof -
  have j: "split_on slash (join_slash cs) = cs" if "cs \<noteq> []"
    using that clean_elementsD [OF assms] by (intro split_join_slash) auto
  have f: "fold (add_element r) cs [] = cs" using fold_add_element_id [of r "[]" cs] assms by simp
  have s: "fold (add_element r) (split_on slash (path_of r cs)) [] = cs"
    using j f split_on_append_sep [of slash "[]" "join_slash cs"]
    by (cases "cs = []") (auto simp: path_of_def)
  then show "elements r (path_of r cs) = cs" by (simp add: elements_def)
  show v: "slash \<notin> set v \<Longrightarrow> elements r (path_of r cs @ slash # v) = add_element r v cs" for v
    using s by (simp add: elements_def split_on_append_sep split_on_plain)
  show "elements r (path_of r cs @ ''/'') = cs" using v [of "[]"] by simp
qed

lemma Clean_path_of: "clean_elements r cs \<Longrightarrow> Clean (path_of r cs) = path_of r cs"
  using rooted_path_of [of r cs "[]"] by (simp add: Clean_def elements_path_of)

lemma Clean_idem: "Clean (Clean p) = Clean p"
  unfolding Clean_def [of p] by (rule Clean_path_of) (rule elements_clean)

lemma rooted_append: "p \<noteq> [] \<Longrightarrow> rooted (p @ q) = rooted p"
  by (cases p) (auto simp: rooted_def)

text \<open>One more plain element.\<close>

lemma Join_plain:
  assumes "p \<noteq> []" and "v \<notin> {[], ''.'', ''..''}" and "slash \<notin> set v"
  shows "Join_path [p, v] = path_of (rooted p) (elements (rooted p) p @ [v])"
proof -
  have "elements (rooted p) (p @ slash # v) = elements (rooted p) p @ [v]"
    using assms(2,3) by (simp add: elements_def split_on_append_sep split_on_plain add_element_def)
  then show ?thesis
    using assms(1) rooted_append [OF assms(1), of "slash # v"] by (simp add: Join_path_def Clean_def)
qed

lemma path_of_snoc:
  "path_of r (cs @ [v]) = (if cs = [] then (if r then ''/'' else []) @ v else path_of r cs @ slash # v)"
  by (cases "cs = []") (auto simp: path_of_def join_slash_snoc)

lemma trim_slashes: "x \<noteq> [] \<Longrightarrow> last x \<noteq> slash \<Longrightarrow> rev (dropWhile (\<lambda>c. c = slash) (rev x)) = x"
  by (cases x rule: rev_cases) auto

lemma Base_plain:
  assumes "v \<noteq> []" and "slash \<notin> set v"
  shows "Base (p @ slash # v) = v" and "Base v = v"
proof -
  have l: "last v \<noteq> slash" using assms last_in_set by metis
  then show "Base (p @ slash # v) = v"
    using trim_slashes [of "p @ slash # v"] file_part_append [OF assms(2), of p] assms(1)
    by (simp add: Base_def Let_def)
  have tw: "takeWhile (\<lambda>c. c \<noteq> slash) (rev v) = rev v"
    using assms(2) unfolding takeWhile_eq_all_conv by auto
  have "file_part v = v" by (simp only: file_part_def tw rev_rev_ident)
  then show "Base v = v" using trim_slashes [OF assms(1) l] assms(1) by (simp add: Base_def Let_def)
qed

lemma Dir_Base_path_of:
  assumes "clean_elements r cs" and "v \<notin> {[], ''.'', ''..''}" and "slash \<notin> set v"
  shows "Dir (path_of r (cs @ [v])) = path_of r cs" and "Base (path_of r (cs @ [v])) = v"
proof -
  show "Dir (path_of r (cs @ [v])) = path_of r cs"
  proof (cases "cs = []")
    case True
    show ?thesis
    proof (cases r)
      case True
      then show ?thesis
        using \<open>cs = []\<close> dir_part_append [OF assms(3), of "[]"] Clean_path_of [of True "[]"]
        by (simp add: path_of_def Dir_def)
    next
      case False
      have "dir_part v = []" using assms(3) by (auto simp: dir_part_def dropWhile_eq_Nil_conv)
      then show ?thesis using False \<open>cs = []\<close> by (simp add: path_of_def Dir_def Clean_def rooted_def elements_def)
    qed
  next
    case False
    then show ?thesis
      using dir_part_append [OF assms(3), of "path_of r cs"] elements_path_of(2) [OF assms(1)]
        rooted_path_of [OF assms(1), of "''/''"]
      by (simp add: path_of_snoc Dir_def Clean_def)
  qed
  have "(\<exists>p. path_of r (cs @ [v]) = p @ slash # v) \<or> path_of r (cs @ [v]) = v"
    by (cases "cs = []"; cases r) (auto simp: path_of_def join_slash_snoc)
  then show "Base (path_of r (cs @ [v])) = v"
    using Base_plain [of v] assms(2,3) by auto
qed

section \<open>Lengths\<close>

definition cost :: "string list \<Rightarrow> nat" where
  "cost cs = sum_list (map (\<lambda>c. Suc (length c)) cs)"

lemma cost_simps [simp]: "cost [] = 0" "cost (c # cs) = Suc (length c) + cost cs" "cost (cs @ ds) = cost cs + cost ds"
  by (simp_all add: cost_def)

lemma cost_split_on: "cost (split_on c s) = Suc (length s)"
  by (induction s) (auto split: list.split)

lemma cost_butlast: "cost (butlast cs) \<le> cost cs"
  by (induction cs) auto

lemma cost_add_element: "cost (add_element r c cs) \<le> cost cs + (if c = [] then 0 else Suc (length c))"
  using cost_butlast [of cs] by (auto simp: add_element_def intro: trans_le_add1)

lemma cost_fold: "cost (fold (add_element r) es cs) \<le> cost cs + cost es"
proof (induction es arbitrary: cs)
  case (Cons e es)
  have "cost (fold (add_element r) es (add_element r e cs)) \<le> cost (add_element r e cs) + cost es" by (rule Cons.IH)
  also have "\<dots> \<le> cost cs + cost (e # es)" using cost_add_element [of r e cs] by (auto split: if_splits)
  finally show ?case by simp
qed simp

lemma length_join_slash: "cs \<noteq> [] \<Longrightarrow> Suc (length (join_slash cs)) = cost cs"
  by (induction cs rule: join_slash.induct) auto

lemma length_Clean:
  assumes "q \<noteq> []"
  shows "length (Clean q) \<le> length q"
proof (cases "rooted q")
  case True
  then obtain q' where q: "q = slash # q'" using assms by (cases q) (auto simp: rooted_def)
  have "elements True q = fold (add_element True) (split_on slash q') []" by (simp add: elements_def q)
  then have "cost (elements True q) \<le> length q" using cost_fold [of True "split_on slash q'" "[]"] by (simp add: cost_split_on q)
  then show ?thesis
    using True assms length_join_slash [of "elements True q"]
    by (cases "elements True q = []") (auto simp: Clean_def path_of_def Suc_le_eq)
next
  case False
  have "cost (elements False q) \<le> Suc (length q)"
    using cost_fold [of False "split_on slash q" "[]"] by (simp add: cost_split_on elements_def)
  then show ?thesis
    using False assms length_join_slash [of "elements False q"]
    by (cases "elements False q = []") (auto simp: Clean_def path_of_def Suc_le_eq)
qed

lemma Clean_not_Nil: "Clean q \<noteq> []"
proof -
  have "join_slash (d # ds) \<noteq> []" if "d \<noteq> []" for d ds using that by (cases ds) auto
  then show ?thesis
    using clean_elementsD [OF elements_clean, of _ "rooted q" q]
    by (cases "elements (rooted q) q") (auto simp: Clean_def path_of_def)
qed

lemma Clean_slash: "p \<noteq> [] \<Longrightarrow> Clean (p @ ''/'') = Clean p"
  using split_on_append_sep [of slash p "[]"] by (simp add: Clean_def rooted_append elements_def)

text \<open>The parent of a path is shorter, until it is the path itself.\<close>

definition depth :: "string \<Rightarrow> nat" where
  "depth p = (if p = ''.'' then 0 else if p = [] then 1 else length p)"

lemma depth_Dir:
  assumes "Dir p \<noteq> p"
  shows "depth (Dir p) < depth p"
proof (cases "slash \<in> set p")
  case False
  then have "dir_part p = []" by (auto simp: dir_part_def dropWhile_eq_Nil_conv)
  then have "Dir p = ''.''" by (simp add: Dir_def Clean_def rooted_def elements_def path_of_def)
  then show ?thesis using assms by (auto simp: depth_def)
next
  case True
  then obtain q v where p: "p = q @ slash # v" "slash \<notin> set v"
    using split_list_last by metis
  have d: "Dir p = Clean (q @ ''/'')" using dir_part_append [OF p(2), of q] by (simp add: Dir_def p(1))
  have "length (Dir p) < length p"
  proof (cases "v = []")
    case v: True
    then have "q \<noteq> []" using assms d p Clean_path_of [of True "[]"] by (auto simp: path_of_def)
    then show ?thesis using d length_Clean [of q] p Clean_slash [of q] by simp
  next
    case False
    then show ?thesis using d length_Clean [of "q @ ''/''"] p by (cases v) auto
  qed
  moreover have "p \<noteq> ''.''" "p \<noteq> []" using True by auto
  moreover have "Dir p \<noteq> []" using d Clean_not_Nil by simp
  ultimately show ?thesis by (simp add: depth_def)
qed

end
