(* ===== verification/File_Tree.thy ===== *)
theory File_Tree
  imports Main "HOL-Library.AList" "HOL-Library.Sublist" "HOL-Library.List_Lexorder" "HOL-Library.Char_ord"
begin

text \<open>
  A file system as a tree, for the packaging tool: files with their bytes, mode and time, directories with
  their entries. A path is the list of its elements from the root. The laws say what the operations
  leave as it was: a file that is not at or below the path they act on.
\<close>

datatype node = File string nat int | Directory int "(string \<times> node) list"

fun node_at :: "string list \<Rightarrow> node \<Rightarrow> node option" where
  "node_at [] n = Some n"
| "node_at (c # cs) (Directory t es) = (case map_of es c of None \<Rightarrow> None | Some n \<Rightarrow> node_at cs n)"
| "node_at (c # cs) (File b m t) = None"

fun put_at :: "string list \<Rightarrow> node \<Rightarrow> node \<Rightarrow> node option" where
  "put_at [c] new (Directory t es) = Some (Directory t (AList.update c new es))"
| "put_at (c # d # cs) new (Directory t es) =
     (case map_of es c of
        None \<Rightarrow> None
      | Some n \<Rightarrow> map_option (\<lambda>n'. Directory t (AList.update c n' es)) (put_at (d # cs) new n))"
| "put_at _ _ _ = None"

fun mkdir_all :: "string list \<Rightarrow> node \<Rightarrow> node option" where
  "mkdir_all _ (File b m t) = None"
| "mkdir_all [] (Directory t es) = Some (Directory t es)"
| "mkdir_all (c # cs) (Directory t es) =
     (case map_of es c of
        None \<Rightarrow> map_option (\<lambda>n'. Directory t (AList.update c n' es)) (mkdir_all cs (Directory 0 []))
      | Some n \<Rightarrow> map_option (\<lambda>n'. Directory t (AList.update c n' es)) (mkdir_all cs n))"

fun remove_all :: "string list \<Rightarrow> node \<Rightarrow> node" where
  "remove_all [c] (Directory t es) = Directory t (AList.delete c es)"
| "remove_all (c # d # cs) (Directory t es) =
     (case map_of es c of
        None \<Rightarrow> Directory t es
      | Some n \<Rightarrow> Directory t (AList.update c (remove_all (d # cs) n) es))"
| "remove_all _ n = n"

section \<open>Laws\<close>

lemma node_at_append: "node_at (p @ q) n = Option.bind (node_at p n) (node_at q)"
  by (induction p n rule: node_at.induct) (auto split: option.splits)

lemma node_at_below_File: "node_at p n = Some (File b m t) \<Longrightarrow> node_at (p @ q) n = (if q = [] then Some (File b m t) else None)"
  by (cases q) (auto simp: node_at_append)

lemma node_at_above: "node_at p n \<noteq> None \<Longrightarrow> prefix q p \<Longrightarrow> node_at q n \<noteq> None"
  by (auto simp: node_at_append prefix_def split: bind_splits)

lemma put_at_same: "put_at p new n = Some n' \<Longrightarrow> node_at p n' = Some new"
  by (induction p new n arbitrary: n' rule: put_at.induct) (auto simp: update_conv' split: option.splits)

lemma put_at_other:
  "put_at p new n = Some n' \<Longrightarrow> \<not> prefix p q \<Longrightarrow> \<not> prefix q p \<Longrightarrow> node_at q n' = node_at q n"
proof (induction p new n arbitrary: n' q rule: put_at.induct)
  case (1 c new t es)
  then show ?case by (cases q) (auto simp: update_conv')
next
  case (2 c d cs new t es)
  then show ?case by (cases q) (auto simp: update_conv' split: option.splits)
qed auto

lemma put_at_file:
  assumes "put_at p new n = Some n'" "\<not> prefix p q" "node_at q n = Some (File b m t)"
  shows "node_at q n' = Some (File b m t)"
  using assms
proof (induction p new n arbitrary: n' q rule: put_at.induct)
  case (1 c new t es)
  then show ?case by (cases q) (auto simp: update_conv')
next
  case (2 c d cs new t es)
  then show ?case by (cases q) (auto simp: update_conv' split: option.splits)
qed auto

lemma mkdir_all_file:
  "mkdir_all p n = Some n' \<Longrightarrow> node_at q n = Some (File b m t) \<Longrightarrow> node_at q n' = Some (File b m t)"
proof (induction p n arbitrary: n' q rule: mkdir_all.induct)
  case (3 c cs t es)
  then show ?case by (cases q) (auto simp: update_conv' split: option.splits)
qed auto

lemma remove_all_file:
  "\<not> prefix p q \<Longrightarrow> node_at q n = Some (File b m t) \<Longrightarrow> node_at q (remove_all p n) = Some (File b m t)"
proof (induction p n arbitrary: q rule: remove_all.induct)
  case (1 c t es)
  then show ?case by (cases q) (auto simp: delete_conv')
next
  case (2 c d cs t es)
  then show ?case by (cases q) (auto simp: update_conv' split: option.splits)
qed auto

section \<open>Trees up to times and the order of entries\<close>

fun canon :: "node \<Rightarrow> node" where
  "canon (File b m t) = File b m 0"
| "canon (Directory t es) = Directory 0 (sort_key fst (map (\<lambda>(name, n). (name, canon n)) es))"

end
