(* ===== verification/Packaging.thy ===== *)
theory Packaging
  imports Go_Filepath Go_Url Go_Json File_Tree
begin

text \<open>
  \<open>tools/package/main.go\<close>: the tool that cross compiles the three commands for six targets, packs each
  into an archive and writes the checksums. The file system is a tree; every operation on it may fail.
  The compiler, the archive formats, the hash and the reading of times are arguments; an archive is the
  list of its entries. Paths are absolute, as the working directory and the temporary directory are. The staging directory is private to the process, so a file that was walked is read
  as it was walked.
\<close>

section \<open>The system\<close>

record entry =
  en_Name :: string
  en_Modified :: int
  en_Mode :: nat
  en_IsDir :: bool
  en_Deflate :: bool
  en_Owner :: string
  en_Content :: string

record command =
  cm_Args :: "string list"
  cm_Dir :: string
  cm_Env :: "string list"

record osenv =
  os_fault :: "nat \<Rightarrow> goerr option"
  os_cwd :: "goerr + string"
  os_environ :: "string list"
  os_temp :: "nat \<Rightarrow> string"
  os_now :: int
  os_parse_time :: "string \<Rightarrow> goerr + int"
  os_owner :: string
  os_format_time :: "int \<Rightarrow> string"
  os_sha256 :: "string \<Rightarrow> string"
  os_exec :: "command \<Rightarrow> node \<Rightarrow> goerr option \<times> node"
  os_zip :: "entry list \<Rightarrow> string"
  os_targz :: "int \<Rightarrow> entry list \<Rightarrow> string"

record osw =
  os_root :: node
  os_calls :: nat
  os_out :: "string list"

type_synonym 'a os_prog = "(osw, goerr, 'a) act"

definition ErrNotExist :: goerr where
  "ErrNotExist = Errorf ''file does not exist''"

text \<open>A system call: it fails, or acts on the tree.\<close>

definition sys :: "osenv \<Rightarrow> (node \<Rightarrow> goerr + 'a \<times> node) \<Rightarrow> 'a os_prog" where
  "sys S f w =
     (let w1 = w\<lparr>os_calls := Suc (os_calls w)\<rparr> in
      case os_fault S (os_calls w) of
        Some err \<Rightarrow> (Inl err, w1)
      | None \<Rightarrow> (case f (os_root w) of Inl err \<Rightarrow> (Inl err, w1) | Inr (x, n) \<Rightarrow> (Inr x, w1\<lparr>os_root := n\<rparr>)))"

definition abs_elements :: "string \<Rightarrow> string list" where
  "abs_elements path = elements True path"

definition Stat :: "string \<Rightarrow> node \<Rightarrow> goerr + node \<times> node" where
  "Stat path n = (case node_at (abs_elements path) n of None \<Rightarrow> Inl ErrNotExist | Some x \<Rightarrow> Inr (x, n))"

definition ReadFile :: "string \<Rightarrow> node \<Rightarrow> goerr + string \<times> node" where
  "ReadFile path n =
     (case node_at (abs_elements path) n of
        Some (File b m t) \<Rightarrow> Inr (b, n)
      | Some (Directory _ _) \<Rightarrow> Inl (Errorf ''is a directory'')
      | None \<Rightarrow> Inl ErrNotExist)"

definition WriteFile :: "string \<Rightarrow> string \<Rightarrow> node \<Rightarrow> goerr + unit \<times> node" where
  "WriteFile path content n =
     (let put = (\<lambda>m. case put_at (abs_elements path) (File content m 0) n of None \<Rightarrow> Inl ErrNotExist | Some n' \<Rightarrow> Inr ((), n')) in
      case node_at (abs_elements path) n of
        Some (Directory _ _) \<Rightarrow> Inl (Errorf ''is a directory'')
      | Some (File _ m _) \<Rightarrow> put m
      | None \<Rightarrow> put 420)"

definition MkdirAll :: "string \<Rightarrow> node \<Rightarrow> goerr + unit \<times> node" where
  "MkdirAll path n =
     (case mkdir_all (abs_elements path) n of None \<Rightarrow> Inl (Errorf ''not a directory'') | Some n' \<Rightarrow> Inr ((), n'))"

text \<open>\<open>os.MkdirTemp\<close> makes a directory that was not there.\<close>

definition MkdirTemp :: "string \<Rightarrow> node \<Rightarrow> goerr + unit \<times> node" where
  "MkdirTemp path n =
     (if node_at (abs_elements path) n \<noteq> None then Inl (Errorf ''file exists'')
      else case put_at (abs_elements path) (Directory 0 []) n of None \<Rightarrow> Inl ErrNotExist | Some n' \<Rightarrow> Inr ((), n'))"

definition RemoveAll :: "string \<Rightarrow> node \<Rightarrow> goerr + unit \<times> node" where
  "RemoveAll path n = Inr ((), remove_all (abs_elements path) n)"

definition Close :: "osenv \<Rightarrow> unit os_prog" where
  "Close S = sys S (\<lambda>n. Inr ((), n))"

definition println :: "string \<Rightarrow> unit os_prog" where
  "println s w = (Inr (), w\<lparr>os_out := os_out w @ [s]\<rparr>)"

section \<open>Targets and versions\<close>

definition buildInfoPackage :: string where
  "buildInfoPackage = ''github.com/ZekromNguyen/skawld-maintenance/internal/platform/buildinfo''"

record target =
  tg_goos :: string
  tg_goarch :: string
  tg_format :: string

definition targets :: "target list" where
  "targets =
     [\<lparr>tg_goos = ''windows'', tg_goarch = ''amd64'', tg_format = ''zip''\<rparr>,
      \<lparr>tg_goos = ''windows'', tg_goarch = ''arm64'', tg_format = ''zip''\<rparr>,
      \<lparr>tg_goos = ''darwin'', tg_goarch = ''amd64'', tg_format = ''tar.gz''\<rparr>,
      \<lparr>tg_goos = ''darwin'', tg_goarch = ''arm64'', tg_format = ''tar.gz''\<rparr>,
      \<lparr>tg_goos = ''linux'', tg_goarch = ''amd64'', tg_format = ''tar.gz''\<rparr>,
      \<lparr>tg_goos = ''linux'', tg_goarch = ''arm64'', tg_format = ''tar.gz''\<rparr>]"

text \<open>The regular expression \<open>\A[A-Za-z0-9][A-Za-z0-9._-]*\z\<close>.\<close>

definition safeVersion :: "string \<Rightarrow> bool" where
  "safeVersion v = (case v of [] \<Rightarrow> False
     | c # cs \<Rightarrow> is_alnum c \<and> list_all (\<lambda>d. is_alnum d \<or> d \<in> set ''._-'') cs)"

definition targetEnvironment :: "osenv \<Rightarrow> target \<Rightarrow> string list" where
  "targetEnvironment S t =
     filter (\<lambda>entry. \<not> (prefix ''GOOS='' entry \<or> prefix ''GOARCH='' entry \<or> prefix ''CGO_ENABLED='' entry)) (os_environ S)
     @ [''GOOS='' @ tg_goos t, ''GOARCH='' @ tg_goarch t, ''CGO_ENABLED=0'']"

section \<open>The root of the repository\<close>

function root_loop :: "osenv \<Rightarrow> string \<Rightarrow> string os_prog" where
  "root_loop S current w =
     (case sys S (Stat (Join_path [current, ''go.mod''])) w of
        (Inr _, w1) \<Rightarrow> (Inr current, w1)
      | (Inl _, w1) \<Rightarrow>
          if Dir current = current then (Inl (Errorf ''go.mod not found in current directory or parents''), w1)
          else root_loop S (Dir current) w1)"
  by pat_completeness auto

termination
  by (relation "measure (\<lambda>(S, current, w). depth current)") (simp_all add: depth_Dir)

declare root_loop.simps [simp del]

definition repositoryRoot :: "osenv \<Rightarrow> string os_prog" where
  "repositoryRoot S w =
     (case os_cwd S of
        Inl err \<Rightarrow> (Inl (Wrap ''get working directory'' err), w)
      | Inr current \<Rightarrow> root_loop S current w)"

section \<open>Copying and archiving\<close>

definition copyFile :: "osenv \<Rightarrow> string \<Rightarrow> string \<Rightarrow> unit os_prog" where
  "copyFile S source destination =
     bindE (wrapE (''open package file '' @ source) (sys S (Stat source))) (\<lambda>_.
     bindE (wrapE (''create package file '' @ destination) (sys S (WriteFile destination []))) (\<lambda>_.
     bindE (wrapE (''copy package file '' @ source)
              (bindE (sys S (ReadFile source)) (\<lambda>content. sys S (WriteFile destination content)))) (\<lambda>_.
       wrapE (''close package file '' @ destination) (Close S))))"

text \<open>\<open>filepath.Walk\<close>: the root, then the entries of each directory in the order of their names.\<close>

fun walk :: "string \<Rightarrow> node \<Rightarrow> (string \<times> node) list" where
  "walk path (File b m t) = [(path, File b m t)]"
| "walk path (Directory t es) =
     (path, Directory t es) #
     concat (map snd (sort_key fst (map (\<lambda>(name, n). (name, walk (Join_path [path, name]) n)) es)))"

text \<open>\<open>filepath.Rel\<close> of a path below the base.\<close>

definition Rel :: "string \<Rightarrow> string \<Rightarrow> goerr + string" where
  "Rel base path =
     (let b = (if base = ''/'' then base else base @ ''/'') in
      if prefix b path then Inr (drop (length b) path) else Inl (Errorf ''Rel''))"

type_synonym visitor = "string \<Rightarrow> node \<Rightarrow> entry os_prog"

text \<open>The walk visits its items in order and stops at the first error.\<close>

fun walk_items :: "string \<Rightarrow> visitor \<Rightarrow> (string \<times> node) list \<Rightarrow> osw \<Rightarrow> (goerr option \<times> entry list) \<times> osw" where
  "walk_items parent visit [] w = ((None, []), w)"
| "walk_items parent visit ((path, n) # items) w =
     (case Rel parent path of
        Inl err \<Rightarrow> ((Some err, []), w)
      | Inr archiveName \<Rightarrow>
          (case visit archiveName n w of
             (Inl err, w1) \<Rightarrow> ((Some err, []), w1)
           | (Inr en, w1) \<Rightarrow>
               (case walk_items parent visit items w1 of ((err, ens), w2) \<Rightarrow> ((err, en # ens), w2))))"

definition walkPackage :: "osenv \<Rightarrow> string \<Rightarrow> visitor \<Rightarrow> osw \<Rightarrow> (goerr option \<times> entry list) \<times> osw" where
  "walkPackage S source visit w =
     (case sys S (Stat source) w of
        (Inl err, w1) \<Rightarrow> ((Some err, []), w1)
      | (Inr n, w1) \<Rightarrow> walk_items (Dir source) visit (walk source n) w1)"

text \<open>Writing a header into the archive and copying a file after it, each of which may fail.\<close>

definition write_header :: "osenv \<Rightarrow> unit os_prog" where
  "write_header S = sys S (\<lambda>r. Inr ((), r))"

definition read_entry :: "osenv \<Rightarrow> string \<Rightarrow> string os_prog" where
  "read_entry S b = sys S (\<lambda>r. Inr (b, r))"

text \<open>A header is made from what the file system says of the file: its mode, its kind and, for a tar archive, the
  user and group that own it, which are those of the process. Name and times are set by the visitor.
  Directories have the mode they are made with.\<close>

definition zip_visit :: "osenv \<Rightarrow> int \<Rightarrow> visitor" where
  "zip_visit S modified archiveName n =
     bindE (write_header S) (\<lambda>_.
       case n of
         Directory t es \<Rightarrow> retE \<lparr>en_Name = archiveName @ ''/'', en_Modified = modified, en_Mode = 493, en_IsDir = True,
                                en_Deflate = False, en_Owner = [], en_Content = []\<rparr>
       | File b m t \<Rightarrow> bindE (read_entry S b) (\<lambda>content.
           retE \<lparr>en_Name = archiveName, en_Modified = modified, en_Mode = m, en_IsDir = False,
                 en_Deflate = True, en_Owner = [], en_Content = content\<rparr>))"

definition tar_visit :: "osenv \<Rightarrow> int \<Rightarrow> visitor" where
  "tar_visit S modified archiveName n =
     bindE (write_header S) (\<lambda>_.
       case n of
         Directory t es \<Rightarrow> retE \<lparr>en_Name = archiveName, en_Modified = modified, en_Mode = 493, en_IsDir = True,
                                en_Deflate = False, en_Owner = os_owner S, en_Content = []\<rparr>
       | File b m t \<Rightarrow> bindE (read_entry S b) (\<lambda>content.
           retE \<lparr>en_Name = archiveName, en_Modified = modified, en_Mode = m, en_IsDir = False,
                 en_Deflate = False, en_Owner = os_owner S, en_Content = content\<rparr>))"

text \<open>Closing every writer, whatever the others return, and joining the errors.\<close>

fun close_all :: "unit os_prog list \<Rightarrow> osw \<Rightarrow> goerr option list \<times> osw" where
  "close_all [] w = ([], w)"
| "close_all (c # cs) w =
     (case c w of (x, w1) \<Rightarrow> case close_all cs w1 of (errs, w2) \<Rightarrow>
        ((case x of Inl err \<Rightarrow> Some err | Inr _ \<Rightarrow> None) # errs, w2))"

definition joined :: "goerr option list \<times> osw \<Rightarrow> (goerr + unit) \<times> osw" where
  "joined r = (case r of (errs, w) \<Rightarrow> (case errors_Join errs of None \<Rightarrow> Inr () | Some err \<Rightarrow> Inl err, w))"

definition writeZip :: "osenv \<Rightarrow> string \<Rightarrow> string \<Rightarrow> int \<Rightarrow> unit os_prog" where
  "writeZip S destination source modified =
     bindE (wrapE ''create zip'' (sys S (WriteFile destination []))) (\<lambda>_ w.
       case walkPackage S source (zip_visit S modified) w of ((walkErr, entries), w1) \<Rightarrow>
         (case close_all [sys S (WriteFile destination (os_zip S entries)), Close S] w1 of
            (errs, w2) \<Rightarrow> joined (walkErr # errs, w2)))"

definition writeTarGzip :: "osenv \<Rightarrow> string \<Rightarrow> string \<Rightarrow> int \<Rightarrow> unit os_prog" where
  "writeTarGzip S destination source modified =
     bindE (wrapE ''create tar archive'' (sys S (WriteFile destination []))) (\<lambda>_ w.
       case walkPackage S source (tar_visit S modified) w of ((walkErr, entries), w1) \<Rightarrow>
         (case close_all [Close S, sys S (WriteFile destination (os_targz S modified entries)),
                          Close S] w1 of
            (errs, w2) \<Rightarrow> joined (walkErr # errs, w2)))"

section \<open>Building a target\<close>

definition binaries :: "string list" where
  "binaries = [''api'', ''worker'', ''migrate'']"

fun join_space :: "string list \<Rightarrow> string" where
  "join_space [] = []"
| "join_space [x] = x"
| "join_space (x # xs) = x @ CHR '' '' # join_space xs"

definition ldflags :: "osenv \<Rightarrow> string \<Rightarrow> string \<Rightarrow> int \<Rightarrow> string" where
  "ldflags S version commit builtAt = join_space
     [''-s'', ''-w'', ''-X'', buildInfoPackage @ ''.version='' @ version, ''-X'', buildInfoPackage @ ''.commit='' @ commit,
      ''-X'', buildInfoPackage @ ''.builtAt='' @ os_format_time S builtAt]"

definition build_binary :: "osenv \<Rightarrow> string \<Rightarrow> string \<Rightarrow> string \<Rightarrow> target \<Rightarrow> string \<Rightarrow> unit os_prog" where
  "build_binary S root staging flags t binary =
     (let outputPath = Join_path [staging, binary @ (if tg_goos t = ''windows'' then ''.exe'' else [])];
          cmd = \<lparr>cm_Args = [''go'', ''build'', ''-trimpath'', ''-buildvcs=false'', ''-ldflags='' @ flags, ''-o'', outputPath,
                           ''./cmd/'' @ binary], cm_Dir = root, cm_Env = targetEnvironment S t\<rparr> in
      bindE (wrapE (''build '' @ binary @ '' for '' @ tg_goos t @ ''/'' @ tg_goarch t)
               (\<lambda>w. case os_exec S cmd (os_root w) of
                  (Some err, n) \<Rightarrow> (Inl err, w\<lparr>os_root := n\<rparr>)
                | (None, n) \<Rightarrow> (Inr (), w\<lparr>os_root := n\<rparr>))) (\<lambda>_.
      bindE (wrapE (''inspect packaged binary '' @ binary) (sys S (Stat outputPath))) (\<lambda>info.
        case info of
          Directory _ _ \<Rightarrow> failE (Errorf (''packaged binary '' @ outputPath @ '' is not a regular file''))
        | File _ _ _ \<Rightarrow> retE ())))"

fun each :: "('a \<Rightarrow> 'b os_prog) \<Rightarrow> 'a list \<Rightarrow> 'b list os_prog" where
  "each f [] = retE []"
| "each f (x # xs) = bindE (f x) (\<lambda>y. bindE (each f xs) (\<lambda>ys. retE (y # ys)))"

definition buildTargetArchive ::
  "osenv \<Rightarrow> string \<Rightarrow> string \<Rightarrow> string \<Rightarrow> string \<Rightarrow> string \<Rightarrow> int \<Rightarrow> target \<Rightarrow> string os_prog" where
  "buildTargetArchive S root temporaryRoot releaseDir version commit builtAt t =
     (let packageName = ''skawld-maintenance_'' @ version @ ''_'' @ tg_goos t @ ''_'' @ tg_goarch t;
          staging = Join_path [temporaryRoot, packageName];
          archivePath = Join_path [releaseDir, packageName @ ''.'' @ tg_format t] in
      bindE (wrapE ''create staging directory'' (sys S (MkdirAll (Join_path [staging, ''contracts''])))) (\<lambda>_.
      bindE (each (build_binary S root staging (ldflags S version commit builtAt) t) binaries) (\<lambda>_.
      bindE (copyFile S (Join_path [root, ''deployments'', ''packages'', ''README.txt'']) (Join_path [staging, ''README.txt''])) (\<lambda>_.
      bindE (copyFile S (Join_path [root, ''.env.example'']) (Join_path [staging, ''.env.example''])) (\<lambda>_.
      bindE (copyFile S (Join_path [root, ''api'', ''openapi.yaml'']) (Join_path [staging, ''contracts'', ''openapi.yaml''])) (\<lambda>_.
      bindE (if tg_format t = ''zip'' then writeZip S archivePath staging builtAt
             else if tg_format t = ''tar.gz'' then writeTarGzip S archivePath staging builtAt
             else failE (Errorf ''unsupported archive format'')) (\<lambda>_.
      retE archivePath)))))))"

section \<open>Checksums\<close>

definition hex_text :: "string \<Rightarrow> string" where
  "hex_text s = concat (map (\<lambda>c. [hex_digit (byte c div 16), hex_digit (byte c mod 16)]) s)"

definition checksum_line :: "osenv \<Rightarrow> string \<Rightarrow> string \<Rightarrow> string" where
  "checksum_line S archivePath content = hex_text (os_sha256 S content) @ ''  '' @ Base archivePath @ [CHR 0x0A]"

text \<open>The content of an open file; the file is closed whatever reading gave, and the errors are joined.\<close>

definition read_closed :: "osenv \<Rightarrow> string \<Rightarrow> string os_prog" where
  "read_closed S path w =
     (case sys S (ReadFile path) w of (c, w1) \<Rightarrow>
      case close_all [Close S] w1 of (closeErrs, w2) \<Rightarrow>
        (case errors_Join ((case c of Inl err \<Rightarrow> Some err | Inr _ \<Rightarrow> None) # closeErrs) of
           Some err \<Rightarrow> Inl err
         | None \<Rightarrow> c, w2))"

fun checksum_loop :: "osenv \<Rightarrow> string \<Rightarrow> string list \<Rightarrow> string \<Rightarrow> unit os_prog" where
  "checksum_loop S sums [] acc = retE ()"
| "checksum_loop S sums (archivePath # rest) acc =
     bindE (wrapE ''open archive for checksum'' (sys S (Stat archivePath))) (\<lambda>_.
     bindE (wrapE ''hash archive'' (read_closed S archivePath)) (\<lambda>content.
     let acc' = acc @ checksum_line S archivePath content in
     bindE (wrapE ''write checksum manifest'' (sys S (WriteFile sums acc'))) (\<lambda>_.
       checksum_loop S sums rest acc')))"

definition writeChecksums :: "osenv \<Rightarrow> string \<Rightarrow> string list \<Rightarrow> unit os_prog" where
  "writeChecksums S releaseDir archives =
     (let sums = Join_path [releaseDir, ''SHA256SUMS''] in
      bindE (wrapE ''create checksum manifest'' (sys S (WriteFile sums []))) (\<lambda>_.
        checksum_loop S sums (sort archives) []))"

section \<open>The run\<close>

definition build_time :: "osenv \<Rightarrow> string \<Rightarrow> goerr + int" where
  "build_time S builtAt =
     (if builtAt = [] then Inr (os_now S - os_now S mod 1000000000)
      else case os_parse_time S builtAt of Inl err \<Rightarrow> Inl (Wrap ''parse built-at'' err) | Inr t \<Rightarrow> Inr t)"

text \<open>An existing version directory is replaced only on request.\<close>

definition prepare_release :: "osenv \<Rightarrow> string \<Rightarrow> bool \<Rightarrow> unit os_prog" where
  "prepare_release S releaseDir clean =
     bindE (\<lambda>w. case sys S (Stat releaseDir) w of
         (Inr _, w1) \<Rightarrow>
           if \<not> clean then (Inl (Errorf (releaseDir @ '' already exists; pass -clean to replace it'')), w1)
           else wrapE ''clean release directory'' (sys S (RemoveAll releaseDir)) w1
       | (Inl err, w1) \<Rightarrow>
           if errors_Is err ErrNotExist then (Inr (), w1) else (Inl (Wrap ''inspect release directory'' err), w1)) (\<lambda>_.
       wrapE ''create release directory'' (sys S (MkdirAll releaseDir)))"

definition build_release ::
  "osenv \<Rightarrow> string \<Rightarrow> string \<Rightarrow> string \<Rightarrow> string \<Rightarrow> int \<Rightarrow> string \<Rightarrow> unit os_prog" where
  "build_release S root releaseDir version commit buildTime temporaryRoot =
     bindE (each (\<lambda>t. bindE (buildTargetArchive S root temporaryRoot releaseDir version commit buildTime t) (\<lambda>archivePath.
         bindE (println (''created '' @ archivePath)) (\<lambda>_. retE archivePath))) targets) (\<lambda>archives.
     bindE (writeChecksums S releaseDir archives) (\<lambda>_.
       println (''checksums '' @ Join_path [releaseDir, ''SHA256SUMS''])))"

definition output_root :: "string \<Rightarrow> string \<Rightarrow> string" where
  "output_root root output = (if IsAbs_path output then output else Join_path [root, output])"

text \<open>After the release directory is prepared: the temporary directory is new, so what follows touches only
  it and the release directory.\<close>

definition staged_build ::
  "osenv \<Rightarrow> string \<Rightarrow> string \<Rightarrow> string \<Rightarrow> string \<Rightarrow> int \<Rightarrow> unit os_prog" where
  "staged_build S root rel version commit k w =
     (let temporaryRoot = os_temp S (os_calls w) in
      bindE (wrapE ''create temporary directory'' (sys S (MkdirTemp temporaryRoot))) (\<lambda>_ w1.
        case build_release S root rel version commit k temporaryRoot w1 of (x, w2) \<Rightarrow>
          (x, snd (sys S (RemoveAll temporaryRoot) w2))) w)"

definition run :: "osenv \<Rightarrow> string \<Rightarrow> string \<Rightarrow> string \<Rightarrow> string \<Rightarrow> bool \<Rightarrow> unit os_prog" where
  "run S version commit builtAt output clean =
     (if \<not> safeVersion version then failE (Errorf ''version contains unsupported characters'')
      else if TrimSpace commit = [] \<or> CHR 0x0D \<in> set commit \<or> CHR 0x0A \<in> set commit
        then failE (Errorf ''commit must be a non-empty single-line value'')
      else case build_time S builtAt of
        Inl err \<Rightarrow> failE err
      | Inr buildTime \<Rightarrow>
          bindE (repositoryRoot S) (\<lambda>root.
            let releaseDir = Join_path [output_root root output, version] in
            bindE (prepare_release S releaseDir clean) (\<lambda>_.
              staged_build S root releaseDir version commit buildTime)))"

section \<open>The command\<close>

text \<open>The exit status after the flags are read: an error is printed and ends the process with 1.\<close>

definition package_main :: "osenv \<Rightarrow> string \<Rightarrow> string \<Rightarrow> string \<Rightarrow> string \<Rightarrow> bool \<Rightarrow> osw \<Rightarrow> nat \<times> osw" where
  "package_main S version commit builtAt output clean w =
     (case run S version commit builtAt output clean w of (Inl _, w1) \<Rightarrow> (1, w1) | (Inr _, w1) \<Rightarrow> (0, w1))"

end
