(* ===== verification/Packaging_Correct.thy ===== *)
theory Packaging_Correct
  imports Packaging
begin

text \<open>
  What the packaging tool promises: the repository it finds is the nearest one above the working directory,
  a run leaves every existing file alone that is not in the directory of the version it replaces, and an
  archive depends on the names, contents and modes of the staged files only.
\<close>

section \<open>Paths below a directory\<close>

definition plain :: "string \<Rightarrow> bool" where
  "plain v \<longleftrightarrow> v \<notin> {[], ''.'', ''..''} \<and> slash \<notin> set v"

lemma IsAbs_rooted: "IsAbs_path p = rooted p"
  by (simp add: IsAbs_path_def rooted_def)

lemma split_on_join_slash:
  "(\<And>v. v \<in> set vs \<Longrightarrow> slash \<notin> set v) \<Longrightarrow> split_on slash (join_slash (p # vs)) = split_on slash p @ vs"
proof (induction vs arbitrary: p)
  case (Cons v vs)
  then show ?case using split_on_append_sep [of slash p "join_slash (v # vs)"] by (simp add: split_on_plain)
qed simp

lemma fold_add_plain: "list_all plain vs \<Longrightarrow> fold (add_element r) vs cs = cs @ vs"
  by (induction vs arbitrary: cs) (auto simp: plain_def add_element_def)

lemma rooted_join_slash: "rooted p \<Longrightarrow> rooted (join_slash (p # vs))"
  by (cases vs) (auto simp: rooted_def prefix_def)

lemma Join_plain_list:
  assumes "IsAbs_path p" and "list_all plain vs"
  shows "Join_path (p # vs) = path_of True (abs_elements p @ vs)"
proof -
  have r: "rooted p" "p \<noteq> []" using assms(1) by (auto simp: IsAbs_rooted rooted_def)
  have "split_on slash (join_slash (p # vs)) = split_on slash p @ vs"
    using assms(2) by (intro split_on_join_slash) (auto simp: list_all_iff plain_def)
  then show ?thesis
    using r rooted_join_slash [OF r(1), of vs] assms(2)
    by (simp add: Join_path_def Clean_def abs_elements_def elements_def fold_add_plain)
qed

lemma clean_elements_append: "clean_elements r cs \<Longrightarrow> list_all plain vs \<Longrightarrow> clean_elements r (cs @ vs)"
proof (induction vs arbitrary: cs)
  case (Cons v vs)
  then show ?case using Cons.IH [of "cs @ [v]"] clean_elements_snoc [of r cs v] by (simp add: plain_def)
qed simp

lemma abs_elements_clean: "clean_elements True (abs_elements p)"
  unfolding abs_elements_def by (rule elements_clean)

lemma abs_elements_path_of: "clean_elements True cs \<Longrightarrow> abs_elements (path_of True cs) = cs"
  by (simp add: abs_elements_def elements_path_of)

lemma abs_elements_Join:
  "IsAbs_path p \<Longrightarrow> list_all plain vs \<Longrightarrow> abs_elements (Join_path (p # vs)) = abs_elements p @ vs"
  by (simp add: Join_plain_list abs_elements_path_of clean_elements_append abs_elements_clean)

lemma IsAbs_path_of: "IsAbs_path (path_of True cs)"
  by (simp add: IsAbs_path_def path_of_def)

lemma IsAbs_Clean: "IsAbs_path p \<Longrightarrow> IsAbs_path (Clean p)"
  by (simp add: IsAbs_rooted Clean_def IsAbs_path_of [unfolded IsAbs_rooted])

lemma IsAbs_Join: "IsAbs_path p \<Longrightarrow> IsAbs_path (Join_path (p # vs))"
proof -
  assume "IsAbs_path p"
  then have "p \<noteq> []" "rooted (join_slash (p # vs))" by (auto simp: IsAbs_rooted rooted_def intro: rooted_join_slash [unfolded rooted_def])
  then show ?thesis using IsAbs_Clean by (simp add: Join_path_def IsAbs_rooted)
qed

lemma IsAbs_Dir: "IsAbs_path p \<Longrightarrow> IsAbs_path (Dir p)"
proof -
  assume a: "IsAbs_path p"
  then obtain q where q: "p = slash # q" by (cases p) (auto simp: IsAbs_path_def)
  obtain u v where p: "p = u @ slash # v" "slash \<notin> set v"
    using split_list_last [of slash p] q by auto
  have "IsAbs_path (dir_part p)" using dir_part_append [OF p(2), of u] p(1) q by (cases u) (auto simp: IsAbs_path_def)
  then show ?thesis by (simp add: Dir_def IsAbs_Clean)
qed

lemma Dir_Join: "IsAbs_path p \<Longrightarrow> plain v \<Longrightarrow> Dir (Join_path [p, v]) = path_of True (abs_elements p)"
  using Dir_Base_path_of(1) [OF abs_elements_clean, of v p] by (simp add: Join_plain_list plain_def)

text \<open>A safe version, and every name built from one, is one plain element.\<close>

lemma safeVersion_plain:
  assumes "safeVersion v"
  shows "plain v" and "slash \<notin> set v"
proof -
  obtain c cs where v: "v = c # cs" "is_alnum c" "list_all (\<lambda>d. is_alnum d \<or> d \<in> set ''._-'') cs"
    using assms by (auto simp: safeVersion_def split: list.splits)
  have a: "\<not> is_alnum (CHR ''/'')" "\<not> is_alnum (CHR ''.'')" by code_simp+
  show s: "slash \<notin> set v" using v a by (auto simp: list_all_iff)
  have "c \<noteq> CHR ''.''" using v(2) a by auto
  then show "plain v" using s v(1) by (simp add: plain_def)
qed

lemma plain_append: "plain u \<Longrightarrow> u \<notin> {''.'', ''..''} \<Longrightarrow> hd u \<noteq> CHR ''.'' \<Longrightarrow> slash \<notin> set v \<Longrightarrow> plain (u @ v)"
  by (cases u) (auto simp: plain_def)

section \<open>The nearest repository\<close>

definition has_module :: "node \<Rightarrow> string \<Rightarrow> bool" where
  "has_module n p \<longleftrightarrow> node_at (abs_elements (Join_path [p, ''go.mod''])) n \<noteq> None"

lemma sys_Stat:
  "os_fault S (os_calls w) = None \<Longrightarrow> sys S (Stat p) w =
    (case node_at (abs_elements p) (os_root w) of None \<Rightarrow> Inl ErrNotExist | Some n \<Rightarrow> Inr n, w\<lparr>os_calls := Suc (os_calls w)\<rparr>)"
  by (cases w) (simp add: sys_def Stat_def split: option.splits)

lemma has_module_upd [simp]: "has_module (os_root (w\<lparr>os_calls := k\<rparr>)) = has_module (os_root w)"
  by simp

definition nearest :: "node \<Rightarrow> string \<Rightarrow> goerr + string \<Rightarrow> bool" where
  "nearest n current r = (case r of
       Inr root \<Rightarrow> (\<exists>k. root = (Dir ^^ k) current \<and> has_module n root \<and> (\<forall>j<k. \<not> has_module n ((Dir ^^ j) current)))
     | Inl _ \<Rightarrow> (\<forall>k. \<not> has_module n ((Dir ^^ k) current)))"

lemma nearest_step:
  assumes "\<not> has_module n current" and "nearest n (Dir current) r"
  shows "nearest n current r"
proof (cases r)
  case (Inl e)
  have "\<not> has_module n ((Dir ^^ k) current)" for k
    using assms Inl by (cases k) (auto simp: nearest_def funpow_swap1)
  then show ?thesis using Inl by (simp add: nearest_def)
next
  case (Inr root)
  then obtain k where k: "root = (Dir ^^ Suc k) current" "has_module n root"
      "\<forall>j<k. \<not> has_module n ((Dir ^^ Suc j) current)"
    using assms(2) by (auto simp: nearest_def funpow_swap1)
  have "\<not> has_module n ((Dir ^^ j) current)" if "j < Suc k" for j
    using that k(3) assms(1) by (cases j) auto
  then have "root = (Dir ^^ Suc k) current \<and> has_module n root \<and> (\<forall>j<Suc k. \<not> has_module n ((Dir ^^ j) current))"
    using k by blast
  then show ?thesis unfolding nearest_def Inr sum.case by (rule exI)
qed

lemma root_loop_nearest:
  assumes "\<And>k. os_fault S k = None"
  shows "nearest (os_root w) current (fst (root_loop S current w)) \<and> os_root (snd (root_loop S current w)) = os_root w"
  using assms
proof (induction S current w rule: root_loop.induct)
  case (1 S current w)
  note st = sys_Stat [OF 1(2), where w = w and p = "Join_path [current, ''go.mod'']"]
  show ?case
  proof (cases "has_module (os_root w) current")
    case True
    then have "root_loop S current w = (Inr current, w\<lparr>os_calls := Suc (os_calls w)\<rparr>)"
      using st by (subst root_loop.simps) (auto simp: has_module_def)
    then show ?thesis using True by (auto simp: nearest_def intro: exI [of _ 0])
  next
    case False
    then have f: "sys S (Stat (Join_path [current, ''go.mod''])) w = (Inl ErrNotExist, w\<lparr>os_calls := Suc (os_calls w)\<rparr>)"
      using st by (simp add: has_module_def)
    show ?thesis
    proof (cases "Dir current = current")
      case True
      then have "(Dir ^^ k) current = current" for k by (induction k) auto
      then show ?thesis using True False f by (subst (1 2) root_loop.simps) (simp add: nearest_def)
    next
      case parent: False
      show ?thesis
        using 1(1) [OF f [symmetric] refl parent 1(2)] nearest_step [OF False] parent f
        by (subst (1 2) root_loop.simps) simp
    qed
  qed
qed

section \<open>Files that are left alone\<close>

definition spares :: "string list \<Rightarrow> osw \<Rightarrow> osw \<Rightarrow> bool" where
  "spares p w w' \<longleftrightarrow> (\<forall>b m t. node_at p (os_root w) = Some (File b m t) \<longrightarrow> node_at p (os_root w') = Some (File b m t))"

text \<open>The compiler writes at the path after \<open>-o\<close>; elsewhere it does not touch this file.\<close>

definition compiler_spares :: "osenv \<Rightarrow> string list \<Rightarrow> bool" where
  "compiler_spares S p \<longleftrightarrow> (\<forall>cmd n b m t. \<not> prefix (abs_elements (cm_Args cmd ! 6)) p \<longrightarrow> node_at p n = Some (File b m t)
     \<longrightarrow> node_at p (snd (os_exec S cmd n)) = Some (File b m t))"

lemma spares_refl [simp]: "spares p w w"
  by (simp add: spares_def)

lemma reflp_spares: "reflp (spares p)" and transp_spares: "transp (spares p)"
  by (auto simp: spares_def intro!: reflpI transpI)

lemma spares_trans: "spares p u v \<Longrightarrow> spares p v w \<Longrightarrow> spares p u w"
  using transp_spares by (rule transpD)

lemma spares_root: "os_root w' = os_root w \<Longrightarrow> spares p w w'"
  by (simp add: spares_def)

lemmas keeps_intros =
  keeps_retE [OF reflp_spares] keeps_failE [OF reflp_spares] keeps_mapErr keeps_bindE [OF transp_spares] keeps_if

lemma keeps_sys:
  "(\<And>n x n' b m t. f n = Inr (x, n') \<Longrightarrow> node_at p n = Some (File b m t) \<Longrightarrow> node_at p n' = Some (File b m t))
    \<Longrightarrow> keeps (spares p) (sys S f)"
  by (rule keepsI) (auto simp: sys_def Let_def spares_def split: option.splits sum.splits)

lemma keeps_reads:
  "keeps (spares p) (sys S (Stat q))" "keeps (spares p) (sys S (ReadFile q))" "keeps (spares p) (Close S)"
  "keeps (spares p) (write_header S)" "keeps (spares p) (read_entry S c)" "keeps (spares p) (println l)"
  by (auto intro!: keeps_sys simp: Stat_def ReadFile_def Close_def write_header_def read_entry_def
      split: option.splits node.splits)
     (simp add: keeps_def println_def spares_def)

lemma keeps_WriteFile: "\<not> prefix (abs_elements q) p \<Longrightarrow> keeps (spares p) (sys S (WriteFile q c))"
  by (rule keeps_sys) (auto simp: WriteFile_def Let_def intro: put_at_file split: option.splits node.splits)

lemma keeps_MkdirAll: "keeps (spares p) (sys S (MkdirAll q))"
  by (rule keeps_sys) (auto simp: MkdirAll_def intro: mkdir_all_file split: option.splits)

lemma keeps_RemoveAll: "\<not> prefix (abs_elements q) p \<Longrightarrow> keeps (spares p) (sys S (RemoveAll q))"
  by (rule keeps_sys) (auto simp: RemoveAll_def intro: remove_all_file)

lemma MkdirTemp_new:
  assumes "MkdirTemp q n = Inr (u, n')" and "node_at p n = Some (File b m t)"
  shows "\<not> prefix (abs_elements q) p" and "node_at p n' = Some (File b m t)"
proof -
  have q: "node_at (abs_elements q) n = None" "put_at (abs_elements q) (Directory 0 []) n = Some n'"
    using assms(1) by (auto simp: MkdirTemp_def split: if_splits option.splits)
  then show np: "\<not> prefix (abs_elements q) p" using node_at_above [of p n "abs_elements q"] assms(2) by auto
  show "node_at p n' = Some (File b m t)" by (rule put_at_file [OF q(2) np assms(2)])
qed

lemma keeps_copyFile: "\<not> prefix (abs_elements d) p \<Longrightarrow> keeps (spares p) (copyFile S s d)"
  unfolding copyFile_def by (intro keeps_intros keeps_reads keeps_WriteFile)

lemma keeps_visits: "keeps (spares p) (zip_visit S k a n)" "keeps (spares p) (tar_visit S k a n)"
  unfolding zip_visit_def tar_visit_def by (cases n; auto intro!: keeps_intros keeps_reads)+

lemma spares_walk_items:
  "(\<And>a n. keeps (spares p) (visit a n)) \<Longrightarrow> spares p w (snd (walk_items parent visit items w))"
proof (induction parent visit items w rule: walk_items.induct)
  case (2 parent visit path n items w)
  then show ?case
    by (auto split: sum.splits prod.splits) (metis keepsD spares_trans snd_conv)+
qed simp

lemma spares_walkPackage:
  "(\<And>a n. keeps (spares p) (visit a n)) \<Longrightarrow> spares p w (snd (walkPackage S source visit w))"
  using keepsD [OF keeps_reads(1)] spares_walk_items
  by (auto simp: walkPackage_def split: prod.splits sum.splits) (metis spares_trans snd_conv)+

lemma spares_close_all: "(\<And>c. c \<in> set cs \<Longrightarrow> keeps (spares p) c) \<Longrightarrow> spares p w (snd (close_all cs w))"
proof (induction cs w rule: close_all.induct)
  case (2 c cs w)
  then show ?case by (auto split: prod.splits) (metis keepsD spares_trans snd_conv)
qed simp

lemma snd_joined [simp]: "snd (joined (errs, w)) = w"
  by (simp add: joined_def)

lemma keeps_pack:
  assumes "\<And>a n. keeps (spares p) (visit a n)"
    and "\<And>es c. c \<in> set (cs es) \<Longrightarrow> keeps (spares p) c"
  shows "keeps (spares p) (\<lambda>w. case walkPackage S source visit w of ((walkErr, entries), w1) \<Rightarrow>
           (case close_all (cs entries) w1 of (errs, w2) \<Rightarrow> joined (walkErr # errs, w2)))"
proof (rule keepsI)
  fix w
  obtain e es w1 where w1: "walkPackage S source visit w = ((e, es), w1)" by (metis prod.exhaust)
  obtain errs w2 where w2: "close_all (cs es) w1 = (errs, w2)" by fastforce
  have "spares p w w1" using spares_walkPackage [where visit = visit and w = w and S = S and source = source, OF assms(1)] w1 by simp
  moreover have "spares p w1 w2" using spares_close_all [of "cs es" p w1, OF assms(2)] w2 by simp
  ultimately show "spares p w (snd (case walkPackage S source visit w of ((walkErr, entries), w1) \<Rightarrow>
      (case close_all (cs entries) w1 of (errs, w2) \<Rightarrow> joined (walkErr # errs, w2))))"
    using w1 w2 by (simp add: spares_trans)
qed

lemma keeps_archives:
  assumes "\<not> prefix (abs_elements d) p"
  shows "keeps (spares p) (writeZip S d s k)" and "keeps (spares p) (writeTarGzip S d s k)"
proof -
  show "keeps (spares p) (writeZip S d s k)"
    unfolding writeZip_def
    by (intro keeps_intros keeps_WriteFile assms
        keeps_pack [where cs = "\<lambda>es. [sys S (WriteFile d (os_zip S es)), Close S]"] keeps_visits)
      (use assms keeps_reads(3) keeps_WriteFile in auto)
  show "keeps (spares p) (writeTarGzip S d s k)"
    unfolding writeTarGzip_def
    by (intro keeps_intros keeps_WriteFile assms
        keeps_pack [where cs = "\<lambda>es. [Close S, sys S (WriteFile d (os_targz S k es)), Close S]"] keeps_visits)
      (use assms keeps_reads(3) keeps_WriteFile in auto)
qed

lemma keeps_each: "(\<And>x. x \<in> set xs \<Longrightarrow> keeps (spares p) (f x)) \<Longrightarrow> keeps (spares p) (each f xs)"
  by (induction xs) (auto intro!: keeps_intros)

lemma keeps_build_binary:
  assumes "compiler_spares S p"
    and "\<not> prefix (abs_elements (Join_path [staging, binary @ (if tg_goos t = ''windows'' then ''.exe'' else [])])) p"
  shows "keeps (spares p) (build_binary S root staging flags t binary)"
proof -
  have ex: "keeps (spares p) (\<lambda>w. case os_exec S cmd (os_root w) of
      (Some err, n) \<Rightarrow> (Inl err, w\<lparr>os_root := n\<rparr>) | (None, n) \<Rightarrow> (Inr (), w\<lparr>os_root := n\<rparr>))"
    if "cm_Args cmd ! 6 = Join_path [staging, binary @ (if tg_goos t = ''windows'' then ''.exe'' else [])]" for cmd
  proof (rule keepsI)
    fix w :: osw
    obtain e n where "os_exec S cmd (os_root w) = (e, n)" by fastforce
    moreover from this have "spares p w (w\<lparr>os_root := n\<rparr>)"
      using assms that unfolding compiler_spares_def spares_def by (metis osw.select_convs(1) osw.surjective osw.update_convs(1) snd_conv)
    ultimately show "spares p w (snd (case os_exec S cmd (os_root w) of
      (Some err, n) \<Rightarrow> (Inl err, w\<lparr>os_root := n\<rparr>) | (None, n) \<Rightarrow> (Inr (), w\<lparr>os_root := n\<rparr>)))"
      by (simp split: option.splits)
  qed
  show ?thesis
    unfolding build_binary_def Let_def
    by (intro keeps_intros keeps_reads ex) (auto intro!: keeps_intros split: node.splits)
qed

lemma not_prefix_below: "\<not> prefix q p \<Longrightarrow> \<not> prefix (q @ vs) p"
  by (auto simp: prefix_def)

lemma package_name_plain:
  assumes "slash \<notin> set version" and "slash \<notin> set (tg_goos t)" "slash \<notin> set (tg_goarch t)" "slash \<notin> set (tg_format t)"
  shows "plain (''skawld-maintenance_'' @ version @ ''_'' @ tg_goos t @ ''_'' @ tg_goarch t)"
    and "plain ((''skawld-maintenance_'' @ version @ ''_'' @ tg_goos t @ ''_'' @ tg_goarch t) @ ''.'' @ tg_format t)"
  using assms by (simp_all add: plain_def)

lemma keeps_buildTargetArchive:
  assumes "compiler_spares S p" and "IsAbs_path temp" "IsAbs_path rel"
    and "\<not> prefix (abs_elements temp) p" "\<not> prefix (abs_elements rel) p"
    and "slash \<notin> set version" and t: "t \<in> set targets"
  shows "keeps (spares p) (buildTargetArchive S root temp rel version commit builtAt t)"
proof -
  define pkg where "pkg = ''skawld-maintenance_'' @ version @ ''_'' @ tg_goos t @ ''_'' @ tg_goarch t"
  define staging where "staging = Join_path [temp, pkg]"
  have "slash \<notin> set (tg_goos t)" "slash \<notin> set (tg_goarch t)" "slash \<notin> set (tg_format t)"
    using t by (auto simp: targets_def)
  then have pl: "plain pkg" "plain (pkg @ ''.'' @ tg_format t)"
    unfolding pkg_def using package_name_plain [of version t] assms(6) by simp_all
  have st: "\<not> prefix (abs_elements (Join_path (staging # vs))) p" if "list_all plain vs" for vs
    using that assms(2,4) pl(1) by (simp add: staging_def abs_elements_Join IsAbs_Join not_prefix_below)
  have ar: "\<not> prefix (abs_elements (Join_path [rel, pkg @ ''.'' @ tg_format t])) p"
    using assms(3,5) pl(2) by (simp add: abs_elements_Join not_prefix_below)
  have bin: "keeps (spares p) (each (build_binary S root staging flags t) binaries)" for flags
    by (intro keeps_each keeps_build_binary assms(1) st) (auto simp: binaries_def plain_def)
  show ?thesis
    unfolding buildTargetArchive_def Let_def pkg_def [symmetric] staging_def [symmetric]
    using ar by (intro keeps_intros bin keeps_MkdirAll keeps_copyFile st keeps_archives) (simp_all add: plain_def)
qed

lemma keeps_read_closed: "keeps (spares p) (read_closed S q)"
proof (rule keepsI)
  fix w
  obtain c w1 where c: "sys S (ReadFile q) w = (c, w1)" by fastforce
  have "spares p w1 (snd (close_all [Close S] w1))" by (rule spares_close_all) (use keeps_reads(3) in auto)
  then show "spares p w (snd (read_closed S q w))"
    using keepsD [OF keeps_reads(2) c, of p] c by (auto simp: read_closed_def intro: spares_trans split: prod.splits)
qed

lemma keeps_checksum_loop:
  "\<not> prefix (abs_elements sums) p \<Longrightarrow> keeps (spares p) (checksum_loop S sums archives acc)"
proof (induction archives arbitrary: acc)
  case (Cons a archives)
  then show ?case
    unfolding checksum_loop.simps Let_def
    by (intro keeps_intros keeps_reads keeps_read_closed keeps_WriteFile Cons.IH) auto
qed (simp add: keeps_intros)

lemma keeps_build_release:
  assumes "compiler_spares S p" and "IsAbs_path temp" "IsAbs_path rel"
    and "\<not> prefix (abs_elements temp) p" "\<not> prefix (abs_elements rel) p" and "slash \<notin> set version"
  shows "keeps (spares p) (build_release S root rel version commit k temp)"
proof -
  have "\<not> prefix (abs_elements (Join_path [rel, ''SHA256SUMS''])) p"
    using assms(3,5) by (simp add: abs_elements_Join not_prefix_below plain_def)
  then show ?thesis
    unfolding build_release_def writeChecksums_def Let_def
    by (intro keeps_intros keeps_each keeps_buildTargetArchive keeps_WriteFile keeps_checksum_loop keeps_reads assms)
qed

definition real_faults :: "osenv \<Rightarrow> bool" where
  "real_faults S \<longleftrightarrow> (\<forall>k e. os_fault S k = Some e \<longrightarrow> \<not> errors_Is e ErrNotExist)"

lemma keeps_prepare_release:
  assumes "\<not> prefix (abs_elements rel) p"
  shows "keeps (spares p) (prepare_release S rel clean)"
proof -
  have "keeps (spares p) (\<lambda>w. case sys S (Stat rel) w of
         (Inr _, w1) \<Rightarrow>
           if \<not> clean then (Inl (Errorf (rel @ '' already exists; pass -clean to replace it'')), w1)
           else wrapE ''clean release directory'' (sys S (RemoveAll rel)) w1
       | (Inl err, w1) \<Rightarrow>
           if errors_Is err ErrNotExist then (Inr (), w1) else (Inl (Wrap ''inspect release directory'' err), w1))"
    (is "keeps _ ?f")
  proof (rule keepsI)
    fix w
    obtain r w1 where r: "sys S (Stat rel) w = (r, w1)" by fastforce
    have "spares p w w1" using keepsD [OF keeps_reads(1) r] .
    moreover have "spares p w1 (snd (wrapE ''clean release directory'' (sys S (RemoveAll rel)) w1))"
      using keeps_mapErr [OF keeps_RemoveAll [OF assms]] by (simp add: keeps_def)
    ultimately have "spares p w w1" "spares p w (snd (wrapE ''clean release directory'' (sys S (RemoveAll rel)) w1))"
      by (blast intro: spares_trans)+
    then show "spares p w (snd (?f w))" using r by (simp split: sum.splits)
  qed
  then show ?thesis unfolding prepare_release_def by (intro keeps_intros keeps_MkdirAll)
qed

text \<open>A file in the directory of the version itself stops a run that was not asked to replace it.\<close>

lemma prepare_release_stops:
  assumes "real_faults S" and "node_at p (os_root w) = Some (File b m t)" and "prefix (abs_elements rel) p"
  shows "\<exists>e. fst (prepare_release S rel False w) = Inl e" and "os_root (snd (prepare_release S rel False w)) = os_root w"
proof -
  obtain x where x: "node_at (abs_elements rel) (os_root w) = Some x"
    using node_at_above [of p "os_root w" "abs_elements rel"] assms(2,3) by auto
  have "\<exists>e. prepare_release S rel False w = (Inl e, w\<lparr>os_calls := Suc (os_calls w)\<rparr>)"
  proof (cases "os_fault S (os_calls w)")
    case None
    then show ?thesis using x sys_Stat [OF None] by (simp add: prepare_release_def bindE_def)
  next
    case (Some e)
    then have "\<not> errors_Is e ErrNotExist" using assms(1) by (simp add: real_faults_def)
    then show ?thesis using Some by (simp add: prepare_release_def bindE_def sys_def Let_def)
  qed
  then show "\<exists>e. fst (prepare_release S rel False w) = Inl e" "os_root (snd (prepare_release S rel False w)) = os_root w"
    by auto
qed

lemma root_loop_keeps: "spares p w (snd (root_loop S current w))
  \<and> (IsAbs_path current \<longrightarrow> (\<forall>root. fst (root_loop S current w) = Inr root \<longrightarrow> IsAbs_path root))"
proof (induction S current w rule: root_loop.induct)
  case (1 S current w)
  obtain r w1 where r: "sys S (Stat (Join_path [current, ''go.mod''])) w = (r, w1)" by fastforce
  have s: "spares p w w1" using keepsD [OF keeps_reads(1) r] .
  show ?case
  proof (cases r)
    case (Inr x)
    then show ?thesis using r s by (subst (1 2) root_loop.simps) simp
  next
    case (Inl e)
    show ?thesis
    proof (cases "Dir current = current")
      case True
      then show ?thesis using r s Inl by (subst (1 2) root_loop.simps) simp
    next
      case False
      have eq: "root_loop S current w = root_loop S (Dir current) w1"
        using r Inl False by (subst root_loop.simps) simp
      note ih = 1 [OF r [unfolded Inl, symmetric] refl False]
      show ?thesis
        unfolding eq using spares_trans [OF s conjunct1 [OF ih]] conjunct2 [OF ih] IsAbs_Dir by blast
    qed
  qed
qed

lemma keeps_staged_build:
  assumes "compiler_spares S p" and "\<And>k. IsAbs_path (os_temp S k)" "IsAbs_path rel"
    and "\<not> prefix (abs_elements rel) p" and "slash \<notin> set version"
  shows "keeps (spares p) (staged_build S root rel version commit k)"
proof (rule keepsI)
  fix w :: osw
  define temp where "temp = os_temp S (os_calls w)"
  obtain r w1 where r: "sys S (MkdirTemp temp) w = (r, w1)" by fastforce
  show "spares p w (snd (staged_build S root rel version commit k w))"
  proof (cases r)
    case (Inl e)
    then have "os_root w1 = os_root w" using r by (auto simp: sys_def Let_def split: option.splits sum.splits)
    then show ?thesis using r Inl by (simp add: staged_build_def temp_def [symmetric] bindE_def mapErr_def spares_root)
  next
    case (Inr u)
    obtain x w2 where b: "build_release S root rel version commit k temp w1 = (x, w2)" by fastforce
    have m: "MkdirTemp temp (os_root w) = Inr (u, os_root w1)"
      using r Inr by (auto simp: sys_def Let_def split: option.splits sum.splits)
    have "spares p w (snd (sys S (RemoveAll temp) w2))"
      unfolding spares_def
    proof (intro allI impI)
      fix b m t assume f: "node_at p (os_root w) = Some (File b m t)"
      note new = MkdirTemp_new [OF \<open>MkdirTemp temp (os_root w) = Inr (u, os_root w1)\<close> f]
      have "spares p w1 w2"
        using keepsD [OF keeps_build_release b] assms new(1) by (auto simp: temp_def)
      moreover have "spares p w2 (snd (sys S (RemoveAll temp) w2))"
        using keeps_RemoveAll [OF new(1)] by (simp add: keeps_def)
      ultimately show "node_at p (os_root (snd (sys S (RemoveAll temp) w2))) = Some (File b m t)"
        using new(2) by (simp add: spares_def)
    qed
    then show ?thesis using r Inr b by (simp add: staged_build_def temp_def [symmetric] bindE_def mapErr_def)
  qed
qed

section \<open>Linker flags\<close>

text \<open>The linker flags are one text that the compiler splits at spaces: a commit with a space in it, which passes the
  check on the commit, is split as well, into words that are read as further flags.\<close>

lemma length_split_on: "length (split_on c s) = Suc (count_list s c)"
  by (induction s) (auto split: list.split)

lemma ldflags_words:
  "length (split_on CHR '' '' (ldflags S version commit builtAt)) = 8 + count_list version CHR '' ''
     + count_list commit CHR '' '' + count_list (os_format_time S builtAt) CHR '' ''"
  by (simp only: length_split_on) (simp add: ldflags_def buildInfoPackage_def)

section \<open>The claims\<close>

text \<open>C39. The packaging tool finds its repository: when no system call fails, the directory it takes is the first
  one with a \<open>go.mod\<close> among the working directory and its parents, it gives an error only when none of
  them has one, and looking for it changes no file. The search ends on every path.\<close>

theorem repository_root_nearest:
  assumes "\<forall>k. os_fault S k = None" and "os_cwd S = Inr current" and "repositoryRoot S w = (r, w')"
  shows "(case r of
      Inr root \<Rightarrow> \<exists>k. root = (Dir ^^ k) current \<and> has_module (os_root w) root
        \<and> (\<forall>j<k. \<not> has_module (os_root w) ((Dir ^^ j) current))
    | Inl _ \<Rightarrow> \<forall>k. \<not> has_module (os_root w) ((Dir ^^ k) current)) \<and> os_root w' = os_root w"
  using root_loop_nearest [of S w current] assms by (simp add: repositoryRoot_def nearest_def)

definition sample_tree :: node where
  "sample_tree = Directory 0 [(''r'', Directory 0 [(''go.mod'', File ''m'' 420 5), (''cmd'', Directory 0 [])]),
     (''out'', Directory 0 [(''v0'', Directory 0 [(''SHA256SUMS'', File ''old'' 420 7)])]), (''tmp'', Directory 0 [])]"

definition sample_os :: osenv where
  "sample_os = \<lparr>os_fault = (\<lambda>_. None), os_cwd = Inr ''/r/cmd'', os_environ = [''GOOS=plan9'', ''HOME=/r''],
     os_temp = (\<lambda>_. ''/tmp/p''), os_now = 5, os_parse_time = (\<lambda>_. Inl ErrEOF), os_owner = ''u'', os_format_time = (\<lambda>_. ''t''),
     os_sha256 = id, os_exec = (\<lambda>cmd n. (None, n)), os_zip = (\<lambda>es. concat (map en_Name es)),
     os_targz = (\<lambda>_ es. concat (map en_Content es))\<rparr>"

definition sample_osw :: osw where
  "sample_osw = \<lparr>os_root = sample_tree, os_calls = 0, os_out = []\<rparr>"

lemma sample_root:
  "\<forall>k. os_fault sample_os k = None" "os_cwd sample_os = Inr ''/r/cmd''"
  "repositoryRoot sample_os sample_osw = (Inr ''/r'', sample_osw\<lparr>os_calls := 2\<rparr>)"
  by (simp add: sample_os_def, simp add: sample_os_def, code_simp)

theorem repository_root_nearest_witness:
  "\<exists>k. ''/r'' = (Dir ^^ k) ''/r/cmd'' \<and> has_module (os_root sample_osw) ''/r''
     \<and> (\<forall>j<k. \<not> has_module (os_root sample_osw) ((Dir ^^ j) ''/r/cmd''))"
  using repository_root_nearest [OF sample_root] by simp

text \<open>C38. Packaging leaves other files alone: a run, failed or not, with a safe version or not, keeps every
  existing file as it is, except that with \<open>-clean\<close> it may replace those in the directory that the version names,
  directly below the output root. Without \<open>-clean\<close> no existing file is lost at all. The compiler is
  assumed to leave this file alone unless it is at or below the output path it is given, the working and temporary
  directories are absolute, and a failing system call does not pretend that a file is missing.\<close>

theorem run_spares_files:
  assumes "real_faults S" and "compiler_spares S p"
    and "\<forall>k. IsAbs_path (os_temp S k)" and "\<forall>cwd. os_cwd S = Inr cwd \<longrightarrow> IsAbs_path cwd"
    and "clean \<longrightarrow> (\<forall>root w1. repositoryRoot S w = (Inr root, w1)
           \<longrightarrow> \<not> prefix (abs_elements (output_root root output) @ [version]) p)"
    and "node_at p (os_root w) = Some (File b m t)"
  shows "node_at p (os_root (snd (run S version commit builtAt output clean w))) = Some (File b m t)"
proof -
  have "node_at p (os_root (snd (bindE (repositoryRoot S) (\<lambda>root.
      let releaseDir = Join_path [output_root root output, version] in
      bindE (prepare_release S releaseDir clean) (\<lambda>_. staged_build S root releaseDir version commit k)) w))) = Some (File b m t)"
    if v: "safeVersion version" for k
  proof -
    obtain r w1 where r: "repositoryRoot S w = (r, w1)" by fastforce
    have w1: "node_at p (os_root w1) = Some (File b m t)" and abs: "\<And>root. r = Inr root \<Longrightarrow> IsAbs_path root"
      using r assms(4,6) root_loop_keeps [of p w S "projr (os_cwd S)"]
      by (auto simp: repositoryRoot_def spares_def split: sum.splits)
    show ?thesis
    proof (cases r)
      case (Inl e)
      then show ?thesis using r w1 by (simp add: bindE_def)
    next
      case (Inr root)
      define rel where "rel = Join_path [output_root root output, version]"
      have o: "IsAbs_path (output_root root output)" using abs [OF Inr] IsAbs_Join by (simp add: output_root_def)
      have rel: "IsAbs_path rel" "abs_elements rel = abs_elements (output_root root output) @ [version]"
        unfolding rel_def using o IsAbs_Join abs_elements_Join [OF o] safeVersion_plain(1) [OF v] by simp_all
      show ?thesis
      proof (cases "prefix (abs_elements rel) p")
        case True
        then have "\<not> clean" using assms(5) r Inr rel(2) by auto
        then show ?thesis
          using prepare_release_stops [OF assms(1) w1 True] r Inr w1
          by (auto simp: bindE_def rel_def [symmetric] Let_def split: prod.splits)
      next
        case False
        have "keeps (spares p) (bindE (prepare_release S rel clean) (\<lambda>_. staged_build S root rel version commit k))"
          using assms(2,3) rel(1) False safeVersion_plain(2) [OF v]
          by (intro keeps_intros keeps_prepare_release keeps_staged_build) auto
        then show ?thesis
          using w1 r Inr by (simp add: keeps_def spares_def bindE_Inr rel_def [symmetric] Let_def)
      qed
    qed
  qed
  then show ?thesis using assms(6) by (auto simp: run_def split: sum.splits)
qed

lemma sample_spares: "real_faults sample_os" "compiler_spares sample_os p" "\<forall>k. IsAbs_path (os_temp sample_os k)"
  "\<forall>cwd. os_cwd sample_os = Inr cwd \<longrightarrow> IsAbs_path cwd"
  by (auto simp: sample_os_def real_faults_def compiler_spares_def IsAbs_path_def)

theorem run_spares_files_witness:
  "node_at [''out'', ''v0'', ''SHA256SUMS''] (os_root (snd (run sample_os ''v1'' ''c'' [] ''/out'' True sample_osw)))
     = Some (File ''old'' 420 7)"
proof (rule run_spares_files [OF sample_spares])
  show "True \<longrightarrow> (\<forall>root w1. repositoryRoot sample_os sample_osw = (Inr root, w1)
      \<longrightarrow> \<not> prefix (abs_elements (output_root root ''/out'') @ [''v1'']) [''out'', ''v0'', ''SHA256SUMS''])"
    using sample_root(3) by (auto simp: output_root_def IsAbs_path_def abs_elements_def elements_def add_element_def)
  show "node_at [''out'', ''v0'', ''SHA256SUMS''] (os_root sample_osw) = Some (File ''old'' 420 7)" by code_simp
qed

end
