(* ===== verification/Packaging_Archive.thy ===== *)
theory Packaging_Archive
  imports Packaging_Correct
begin

text \<open>
  What an archive of the packaging tool holds, and what the checksum file holds: an archive is a function of the
  names, contents and modes of the staged files and of the build time, whatever directory they were staged in,
  whenever they were written and in whatever order the directories list them.
\<close>

section \<open>Sorting by name\<close>

lemma insort_key_map: "(\<And>x. fst (g x) = fst x) \<Longrightarrow> insort_key fst (g x) (map g xs) = map g (insort_key fst x xs)"
  by (induction xs) auto

lemma sort_key_map: "(\<And>x. fst (g x) = fst x) \<Longrightarrow> sort_key fst (map g xs) = map g (sort_key fst xs)"
  by (induction xs) (auto simp: insort_key_map)

lemma sort_key_map_pair: "sort_key fst (map (\<lambda>(a, b). (a, f a b)) xs) = map (\<lambda>(a, b). (a, f a b)) (sort_key fst xs)"
  by (rule sort_key_map) auto

section \<open>The walk of a tree, relative to its root\<close>

fun rel_walk :: "string list \<Rightarrow> node \<Rightarrow> (string list \<times> node) list" where
  "rel_walk q (File b m t) = [(q, File b m t)]"
| "rel_walk q (Directory t es) =
     (q, Directory t es) # concat (map snd (sort_key fst (map (\<lambda>(name, n). (name, rel_walk (q @ [name]) n)) es)))"

fun plain_names :: "node \<Rightarrow> bool" where
  "plain_names (File b m t) = True"
| "plain_names (Directory t es) = list_all (\<lambda>(name, n). plain name \<and> plain_names n) es"

text \<open>What a visitor sees of a node.\<close>

definition shape :: "node \<Rightarrow> node" where
  "shape n = (case n of File b m t \<Rightarrow> File b m 0 | Directory t es \<Rightarrow> Directory 0 [])"

lemma map_rel_walk_Directory:
  "map f (rel_walk q (Directory t es)) = f (q, Directory t es) #
     concat (map snd (sort_key fst (map (\<lambda>(name, n). (name, map f (rel_walk (q @ [name]) n))) es)))"
proof -
  have a: "map f (concat (map snd xs)) = concat (map snd (map (\<lambda>(a, b). (a, map f b)) xs))"
    for xs :: "(string \<times> (string list \<times> node) list) list" by (induction xs) auto
  have b: "map (\<lambda>(a, b). (a, map f b)) (sort_key fst xs) = sort_key fst (map (\<lambda>(a, b). (a, map f b)) xs)"
    for xs :: "(string \<times> (string list \<times> node) list) list" by (rule sort_key_map_pair [symmetric])
  have c: "map (\<lambda>(a, b). (a, map f b)) (map (\<lambda>(name, n). (name, rel_walk (q @ [name]) n)) es)
      = map (\<lambda>(name, n). (name, map f (rel_walk (q @ [name]) n))) es" by auto
  show ?thesis by (simp only: rel_walk.simps list.map a b c)
qed

lemma sort_key_twice: "sort_key fst (map (\<lambda>(a, b). (a, f a b)) (sort_key fst xs)) = sort_key fst (map (\<lambda>(a, b). (a, f a b)) xs)"
  unfolding sort_key_map_pair [symmetric] by (simp add: sort_key_id_if_sorted)

lemma rel_walk_canon: "map (apsnd shape) (rel_walk q (canon n)) = map (apsnd shape) (rel_walk q n)"
proof (induction n arbitrary: q rule: canon.induct)
  case (2 t es)
  have c: "map (\<lambda>(name, n). (name, map (apsnd shape) (rel_walk (q @ [name]) n))) (map (\<lambda>(name, n). (name, canon n)) es)
      = map (\<lambda>(name, n). (name, map (apsnd shape) (rel_walk (q @ [name]) n))) es"
    using 2 by (auto simp: comp_def case_prod_unfold)
  show ?case
    unfolding canon.simps map_rel_walk_Directory sort_key_twice c by (simp add: shape_def)
qed (simp add: shape_def)

lemma rel_walk_shift: "rel_walk (cs @ q) n = map (apfst ((@) cs)) (rel_walk q n)"
proof (induction q n rule: rel_walk.induct)
  case (2 q t es)
  then show ?case unfolding map_rel_walk_Directory
    by (auto intro!: arg_cong [where f = concat] arg_cong [where f = "map snd"] arg_cong [where f = "sort_key fst"])
qed simp

lemma walk_rel:
  "clean_elements True cs \<Longrightarrow> plain_names n \<Longrightarrow> walk (path_of True cs) n = map (apfst (path_of True)) (rel_walk cs n)"
proof (induction n arbitrary: cs rule: canon.induct)
  case (2 t es)
  have "walk (Join_path [path_of True cs, name]) n = map (apfst (path_of True)) (rel_walk (cs @ [name]) n)"
    if "(name, n) \<in> set es" for name n
  proof -
    have p: "plain name" "plain_names n" using 2(3) that by (auto simp: list_all_iff)
    have "Join_path [path_of True cs, name] = path_of True (cs @ [name])"
      using p(1) 2(2) by (simp add: Join_plain_list IsAbs_path_of abs_elements_path_of)
    then show ?thesis
      using 2(1) [of "(name, n)" name n "cs @ [name]"] that p clean_elements_append [OF 2(2), of "[name]"] by simp
  qed
  then show ?case unfolding map_rel_walk_Directory
    by (auto intro!: arg_cong [where f = concat] arg_cong [where f = "map snd"] arg_cong [where f = "sort_key fst"])
qed simp

section \<open>Entries\<close>

definition zip_entry :: "int \<Rightarrow> string \<Rightarrow> node \<Rightarrow> entry" where
  "zip_entry k name n = (case n of
     Directory t es \<Rightarrow> \<lparr>en_Name = name @ ''/'', en_Modified = k, en_Mode = 493, en_IsDir = True, en_Deflate = False, en_Owner = [], en_Content = []\<rparr>
   | File b m t \<Rightarrow> \<lparr>en_Name = name, en_Modified = k, en_Mode = m, en_IsDir = False, en_Deflate = True, en_Owner = [], en_Content = b\<rparr>)"

definition tar_entry :: "string \<Rightarrow> int \<Rightarrow> string \<Rightarrow> node \<Rightarrow> entry" where
  "tar_entry owner k name n = (case n of
     Directory t es \<Rightarrow> \<lparr>en_Name = name, en_Modified = k, en_Mode = 493, en_IsDir = True, en_Deflate = False, en_Owner = owner, en_Content = []\<rparr>
   | File b m t \<Rightarrow> \<lparr>en_Name = name, en_Modified = k, en_Mode = m, en_IsDir = False, en_Deflate = False, en_Owner = owner, en_Content = b\<rparr>)"

text \<open>The entries of a package: the names begin with the package's name.\<close>

definition package_entries :: "(string \<Rightarrow> node \<Rightarrow> entry) \<Rightarrow> string \<Rightarrow> node \<Rightarrow> entry list" where
  "package_entries entry pkg n = map (\<lambda>(q, x). entry (join_slash (pkg # q)) x) (rel_walk [] n)"

lemma entry_shape: "zip_entry k name n = zip_entry k name (shape n)" "tar_entry owner k name n = tar_entry owner k name (shape n)"
  by (cases n; simp add: zip_entry_def tar_entry_def shape_def)+

lemma package_entries_canon:
  assumes "\<And>name n. entry name n = entry name (shape n)"
  shows "package_entries entry pkg (canon n) = package_entries entry pkg n"
proof -
  have "package_entries entry pkg x = map (\<lambda>(q, x). entry (join_slash (pkg # q)) x) (map (apsnd shape) (rel_walk [] x))" for x
    using assms by (auto simp: package_entries_def case_prod_unfold)
  then show ?thesis by (simp only: rel_walk_canon)
qed

section \<open>What a successful call has done\<close>

lemma sys_InrD: "sys S f w = (Inr x, w') \<Longrightarrow> f (os_root w) = Inr (x, os_root w')"
  by (auto simp: sys_def Let_def split: option.splits sum.splits)

definition visits :: "visitor \<Rightarrow> (string \<Rightarrow> node \<Rightarrow> entry) \<Rightarrow> bool" where
  "visits visit entry \<longleftrightarrow> (\<forall>a n w en w1. visit a n w = (Inr en, w1) \<longrightarrow> en = entry a n \<and> os_root w1 = os_root w)"

lemma visitors: "visits (zip_visit S k) (zip_entry k)" "visits (tar_visit S k) (tar_entry (os_owner S) k)"
  by (auto simp: visits_def zip_visit_def tar_visit_def zip_entry_def tar_entry_def write_header_def read_entry_def
      split: node.splits elim!: bindE_InrE dest!: sys_InrD)

lemma walk_items_entries:
  assumes "visits visit entry" and "\<And>q n. (q, n) \<in> set xs \<Longrightarrow> Rel parent (P q) = Inr (N q)"
    and "walk_items parent visit (map (apfst P) xs) w = ((None, es), w')"
  shows "es = map (\<lambda>(q, n). entry (N q) n) xs \<and> os_root w' = os_root w"
  using assms(2,3)
proof (induction xs arbitrary: w es)
  case (Cons x xs)
  obtain q n where x: "x = (q, n)" by fastforce
  have rel: "Rel parent (P q) = Inr (N q)" using Cons.prems(1) x by auto
  obtain en w1 es1 where v: "visit (N q) n w = (Inr en, w1)" and rest: "es = en # es1"
      "walk_items parent visit (map (apfst P) xs) w1 = ((None, es1), w')"
    using Cons.prems(2) by (auto simp: x rel split: prod.splits sum.splits)
  have "en = entry (N q) n" "os_root w1 = os_root w" using assms(1) v unfolding visits_def by blast+
  moreover have "es1 = map (\<lambda>(q, n). entry (N q) n) xs \<and> os_root w' = os_root w1"
    by (rule Cons.IH [OF _ rest(2)]) (use Cons.prems(1) in auto)
  ultimately show ?case using rest(1) x by simp
qed simp

lemma join_slash_append: "cs \<noteq> [] \<Longrightarrow> ds \<noteq> [] \<Longrightarrow> join_slash (cs @ ds) = join_slash cs @ slash # join_slash ds"
proof (induction cs rule: join_slash.induct)
  case (2 x)
  then show ?case by (cases ds) auto
qed auto

lemma Rel_below:
  assumes "clean_elements True cs" and "ds \<noteq> []"
  shows "Rel (path_of True cs) (path_of True (cs @ ds)) = Inr (join_slash ds)"
proof (cases "cs = []")
  case True
  then show ?thesis using assms(2) by (simp add: Rel_def path_of_def)
next
  case False
  then obtain d cs' where cs: "cs = d # cs'" by (cases cs) auto
  have "d \<noteq> []" using clean_elementsD [OF assms(1), of d] cs by simp
  then have "join_slash cs \<noteq> []" unfolding cs by (cases cs') auto
  then show ?thesis using False assms(2) by (simp add: Rel_def path_of_def join_slash_append)
qed

lemma walkPackage_entries:
  assumes "IsAbs_path temp" "plain pkg" and "visits visit entry"
    and "walkPackage S (Join_path [temp, pkg]) visit w = ((None, es), w')"
  obtains n where "node_at (abs_elements (Join_path [temp, pkg])) (os_root w) = Some n"
    and "plain_names n \<Longrightarrow> es = package_entries entry pkg n" and "plain_names n \<Longrightarrow> os_root w' = os_root w"
proof -
  define cs where "cs = abs_elements temp"
  have cl: "clean_elements True cs" "clean_elements True (cs @ [pkg])"
    unfolding cs_def using abs_elements_clean clean_elements_append [OF abs_elements_clean, of "[pkg]"] assms(2) by auto
  have src: "Join_path [temp, pkg] = path_of True (cs @ [pkg])"
    using assms(1,2) by (simp add: Join_plain_list cs_def)
  have dir: "Dir (Join_path [temp, pkg]) = path_of True cs" using assms(1,2) by (simp add: Dir_Join cs_def)
  obtain n w1 where st: "sys S (Stat (Join_path [temp, pkg])) w = (Inr n, w1)"
      and wi: "walk_items (path_of True cs) visit (walk (path_of True (cs @ [pkg])) n) w1 = ((None, es), w')"
    using assms(4) dir src by (auto simp: walkPackage_def split: prod.splits sum.splits)
  have n: "node_at (abs_elements (Join_path [temp, pkg])) (os_root w) = Some n" "os_root w1 = os_root w"
    using sys_InrD [OF st] by (auto simp: Stat_def split: option.splits)
  have "es = package_entries entry pkg n \<and> os_root w' = os_root w" if p: "plain_names n"
  proof -
    have "walk (path_of True (cs @ [pkg])) n = map (apfst (\<lambda>q. path_of True ((cs @ [pkg]) @ q))) (rel_walk [] n)"
      using walk_rel [OF cl(2) p] rel_walk_shift [of "cs @ [pkg]" "[]" n] by (simp add: comp_def apfst_def map_prod_def case_prod_unfold)
    moreover have "Rel (path_of True cs) (path_of True ((cs @ [pkg]) @ q)) = Inr (join_slash (pkg # q))" for q
      using Rel_below [OF cl(1), of "pkg # q"] by simp
    ultimately show ?thesis
      using walk_items_entries [OF assms(3), of "rel_walk [] n" "path_of True cs" "\<lambda>q. path_of True ((cs @ [pkg]) @ q)"
          "\<lambda>q. join_slash (pkg # q)"] wi n(2) by (simp add: package_entries_def)
  qed
  then show thesis using that n(1) by blast
qed

definition content_of :: "string \<Rightarrow> node \<Rightarrow> string option" where
  "content_of path n = (case node_at (abs_elements path) n of Some (File b m t) \<Rightarrow> Some b | _ \<Rightarrow> None)"

lemma WriteFile_put: "WriteFile d c n = Inr (u, n') \<Longrightarrow> \<exists>m. put_at (abs_elements d) (File c m 0) n = Some n'"
  by (auto simp: WriteFile_def Let_def split: option.splits node.splits)

lemma WriteFile_content: "WriteFile d c n = Inr (u, n') \<Longrightarrow> content_of d n' = Some c"
  using WriteFile_put [of d c n u n'] by (auto simp: content_of_def dest: put_at_same)

lemma WriteFile_source:
  assumes "WriteFile d c n = Inr (u, n')" and "\<not> prefix src (abs_elements d)" and "node_at src n' = Some x"
  shows "node_at src n = Some x"
proof -
  obtain m where put: "put_at (abs_elements d) (File c m 0) n = Some n'" using WriteFile_put [OF assms(1)] by blast
  have "\<not> prefix (abs_elements d) src"
  proof
    assume "prefix (abs_elements d) src"
    then obtain q where "src = abs_elements d @ q" "q \<noteq> []" using assms(2) by (auto simp: prefix_def)
    then show False using node_at_below_File [OF put_at_same [OF put], of q] assms(3) by simp
  qed
  then show ?thesis using put_at_other [OF put _ assms(2)] assms(3) by simp
qed

lemma joined_Inr_iff: "joined (errs, w) = (Inr u, w') \<longleftrightarrow> w' = w \<and> (\<forall>e \<in> set errs. e = None)"
  using errors_Join_None [of errs] by (auto simp: joined_def split: option.splits)

text \<open>The part the two archive writers share: create, walk, close.\<close>

lemma archive_entries:
  assumes "bindE (wrapE msg (sys S (WriteFile d []))) (\<lambda>_ w.
       case walkPackage S (Join_path [temp, pkg]) visit w of ((walkErr, entries), w1) \<Rightarrow>
         (case close_all (cs entries) w1 of (errs, w2) \<Rightarrow> joined (walkErr # errs, w2))) w = (Inr (), w')"
    and "visits visit entry" and "IsAbs_path temp" "plain pkg"
    and "node_at (abs_elements (Join_path [temp, pkg])) (os_root w) = Some n" "plain_names n"
    and "\<not> prefix (abs_elements (Join_path [temp, pkg])) (abs_elements d)"
  obtains w1 errs where "close_all (cs (package_entries entry pkg n)) w1 = (errs, w')" and "\<forall>e \<in> set errs. e = None"
proof -
  obtain w0 where w0: "sys S (WriteFile d []) w = (Inr (), w0)"
      and rest: "(case walkPackage S (Join_path [temp, pkg]) visit w0 of ((walkErr, entries), w1) \<Rightarrow>
         (case close_all (cs entries) w1 of (errs, w2) \<Rightarrow> joined (walkErr # errs, w2))) = (Inr (), w')"
    using assms(1) by (auto elim!: bindE_InrE)
  obtain es w1 errs where wp: "walkPackage S (Join_path [temp, pkg]) visit w0 = ((None, es), w1)"
      and cl: "close_all (cs es) w1 = (errs, w')" "\<forall>e \<in> set errs. e = None"
    using rest by (auto simp: joined_Inr_iff split: prod.splits)
  obtain x where x: "node_at (abs_elements (Join_path [temp, pkg])) (os_root w0) = Some x"
      "plain_names x \<Longrightarrow> es = package_entries entry pkg x"
    using walkPackage_entries [OF assms(3,4,2) wp] by metis
  have "x = n" using WriteFile_source [OF sys_InrD [OF w0] assms(7) x(1)] assms(5) by simp
  then show thesis using that cl x(2) assms(6) by simp
qed

lemma close_all_Cons:
  "close_all (c # cs) w = (errs, w') \<Longrightarrow> \<forall>e \<in> set errs. e = None
    \<Longrightarrow> \<exists>w1 errs'. c w = (Inr (), w1) \<and> close_all cs w1 = (errs', w') \<and> (\<forall>e \<in> set errs'. e = None)"
  by (auto split: prod.splits sum.splits)

lemma Close_root: "Close S w = (Inr (), w') \<Longrightarrow> os_root w' = os_root w"
  unfolding Close_def by (drule sys_InrD) simp

lemma archive_content:
  assumes "IsAbs_path temp" "plain pkg"
    and "node_at (abs_elements (Join_path [temp, pkg])) (os_root w) = Some n" "plain_names n"
    and "\<not> prefix (abs_elements (Join_path [temp, pkg])) (abs_elements d)"
  shows "writeZip S d (Join_path [temp, pkg]) k w = (Inr (), w')
      \<Longrightarrow> content_of d (os_root w') = Some (os_zip S (package_entries (zip_entry k) pkg n))"
    and "writeTarGzip S d (Join_path [temp, pkg]) k w = (Inr (), w')
      \<Longrightarrow> content_of d (os_root w') = Some (os_targz S k (package_entries (tar_entry (os_owner S) k) pkg n))"
proof -
  assume a: "writeZip S d (Join_path [temp, pkg]) k w = (Inr (), w')"
  obtain w1 errs where c: "close_all [sys S (WriteFile d (os_zip S (package_entries (zip_entry k) pkg n))), Close S] w1 = (errs, w')"
      "\<forall>e \<in> set errs. e = None"
    using archive_entries [OF a [unfolded writeZip_def] visitors(1) assms] by blast
  obtain w2 errs2 where w2: "sys S (WriteFile d (os_zip S (package_entries (zip_entry k) pkg n))) w1 = (Inr (), w2)"
      and c2: "close_all [Close S] w2 = (errs2, w')" "\<forall>e \<in> set errs2. e = None"
    using close_all_Cons [OF c] by blast
  have "os_root w' = os_root w2" using close_all_Cons [OF c2] by (auto dest: Close_root)
  then show "content_of d (os_root w') = Some (os_zip S (package_entries (zip_entry k) pkg n))"
    using WriteFile_content [OF sys_InrD [OF w2]] by simp
next
  assume a: "writeTarGzip S d (Join_path [temp, pkg]) k w = (Inr (), w')"
  obtain w1 errs where c: "close_all [Close S, sys S (WriteFile d (os_targz S k (package_entries (tar_entry (os_owner S) k) pkg n))), Close S] w1
      = (errs, w')" "\<forall>e \<in> set errs. e = None"
    using archive_entries [OF a [unfolded writeTarGzip_def] visitors(2) assms] by blast
  obtain w2 errs2 where c2: "close_all [sys S (WriteFile d (os_targz S k (package_entries (tar_entry (os_owner S) k) pkg n))), Close S] w2
      = (errs2, w')" "\<forall>e \<in> set errs2. e = None"
    using close_all_Cons [OF c] by blast
  obtain w3 errs3 where w3: "sys S (WriteFile d (os_targz S k (package_entries (tar_entry (os_owner S) k) pkg n))) w2 = (Inr (), w3)"
      and c3: "close_all [Close S] w3 = (errs3, w')" "\<forall>e \<in> set errs3. e = None"
    using close_all_Cons [OF c2] by blast
  have "os_root w' = os_root w3" using close_all_Cons [OF c3] by (auto dest: Close_root)
  then show "content_of d (os_root w') = Some (os_targz S k (package_entries (tar_entry (os_owner S) k) pkg n))"
    using WriteFile_content [OF sys_InrD [OF w3]] by simp
qed

section \<open>Checksums\<close>

lemma read_closed_content:
  "read_closed S path w = (Inr c, w') \<Longrightarrow> content_of path (os_root w) = Some c \<and> os_root w' = os_root w"
proof -
  assume r: "read_closed S path w = (Inr c, w')"
  obtain x w1 where x: "sys S (ReadFile path) w = (x, w1)" by fastforce
  obtain errs w2 where cl: "close_all [Close S] w1 = (errs, w2)" by fastforce
  have e: "x = Inr c" "w2 = w'" "\<forall>e \<in> set errs. e = None"
    using r x cl errors_Join_None [of "(case x of Inl err \<Rightarrow> Some err | Inr _ \<Rightarrow> None) # errs"]
    by (auto simp: read_closed_def split: option.splits sum.splits)
  have "os_root w' = os_root w1" using close_all_Cons [OF cl e(3)] e(2) by (auto dest: Close_root)
  then show ?thesis using sys_InrD [OF x [unfolded e(1)]] by (auto simp: ReadFile_def content_of_def split: option.splits node.splits)
qed

lemma WriteFile_content_other:
  assumes "WriteFile d c n = Inr (u, n')" and "\<not> prefix (abs_elements a) (abs_elements d)" and "content_of a n' = Some x"
  shows "content_of a n = Some x"
  using WriteFile_source [OF assms(1,2)] assms(3) by (auto simp: content_of_def split: option.splits node.splits)

lemma checksum_loop_content:
  assumes "checksum_loop S sums as acc w = (Inr (), w')" and "content_of sums (os_root w) = Some acc"
    and "\<forall>a \<in> set as. \<not> prefix (abs_elements a) (abs_elements sums)"
  shows "\<exists>cs. list_all2 (\<lambda>a c. content_of a (os_root w) = Some c) as cs
    \<and> content_of sums (os_root w') = Some (acc @ concat (map2 (checksum_line S) as cs))"
  using assms
proof (induction as arbitrary: acc w)
  case (Cons a as)
  obtain x w1 c w2 w3 where st: "sys S (Stat a) w = (Inr x, w1)" and rd: "read_closed S a w1 = (Inr c, w2)"
      and wr: "sys S (WriteFile sums (acc @ checksum_line S a c)) w2 = (Inr (), w3)"
      and rest: "checksum_loop S sums as (acc @ checksum_line S a c) w3 = (Inr (), w')"
    using Cons.prems(1) by (auto simp: Let_def elim!: bindE_InrE)
  have root: "os_root w2 = os_root w" "content_of a (os_root w) = Some c"
    using sys_InrD [OF st] read_closed_content [OF rd] by (auto simp: Stat_def split: option.splits)
  note put = sys_InrD [OF wr, unfolded root(1)]
  obtain cs where cs: "list_all2 (\<lambda>a c. content_of a (os_root w3) = Some c) as cs"
      "content_of sums (os_root w') = Some ((acc @ checksum_line S a c) @ concat (map2 (checksum_line S) as cs))"
    using Cons.IH [OF rest WriteFile_content [OF put]] Cons.prems(3) by auto
  have "list_all2 (\<lambda>a c. content_of a (os_root w) = Some c) as cs"
    using cs(1) Cons.prems(3) WriteFile_content_other [OF put] by (auto simp: list_all2_conv_all_nth)
  then show ?case using cs(2) root(2) by (intro exI [of _ "c # cs"]) simp
qed simp

text \<open>A tar archive does depend on who built it: with another owner the entries differ.\<close>

lemma tar_entries_owner:
  "package_entries (tar_entry owner k) pkg n = package_entries (tar_entry owner' k) pkg n \<Longrightarrow> owner = owner'"
  by (cases n) (auto simp: package_entries_def tar_entry_def)

text \<open>The checksum file has one line for each archive, in the order of the sorted paths, of the archive as it is.\<close>

lemma writeChecksums_exact:
  assumes "writeChecksums S rel archives w = (Inr (), w')"
    and "\<forall>a \<in> set archives. \<not> prefix (abs_elements a) (abs_elements (Join_path [rel, ''SHA256SUMS'']))"
  shows "\<exists>cs. list_all2 (\<lambda>a c. content_of a (os_root w) = Some c) (sort archives) cs
    \<and> content_of (Join_path [rel, ''SHA256SUMS'']) (os_root w') = Some (concat (map2 (checksum_line S) (sort archives) cs))"
proof -
  obtain w1 where w1: "sys S (WriteFile (Join_path [rel, ''SHA256SUMS'']) []) w = (Inr (), w1)"
      and l: "checksum_loop S (Join_path [rel, ''SHA256SUMS'']) (sort archives) [] w1 = (Inr (), w')"
    using assms(1) by (auto simp: writeChecksums_def Let_def elim!: bindE_InrE)
  note put = sys_InrD [OF w1]
  obtain cs where cs: "list_all2 (\<lambda>a c. content_of a (os_root w1) = Some c) (sort archives) cs"
      "content_of (Join_path [rel, ''SHA256SUMS'']) (os_root w') = Some (concat (map2 (checksum_line S) (sort archives) cs))"
    using checksum_loop_content [OF l WriteFile_content [OF put]] assms(2) by auto
  have "list_all2 (\<lambda>a c. content_of a (os_root w) = Some c) (sort archives) cs"
    by (rule list.rel_mono_strong [OF cs(1)]) (use assms(2) WriteFile_content_other [OF put] in auto)
  then show ?thesis using cs(2) by blast
qed

section \<open>The claim\<close>

text \<open>C40. Archives are reproducible: two successful runs of an archive writer, zip or tar, over packages of the
  same name give the same bytes whenever the staged trees agree up to the times of their files and the order in
  which directories list their entries, in whatever temporary directories they were staged; for tar archives, by the
  same user, whose identity their headers carry.\<close>

theorem archives_reproducible:
  assumes "IsAbs_path temp1" "IsAbs_path temp2" "plain pkg"
    and "node_at (abs_elements (Join_path [temp1, pkg])) (os_root w1) = Some n1" "plain_names n1"
    and "node_at (abs_elements (Join_path [temp2, pkg])) (os_root w2) = Some n2" "plain_names n2"
    and "canon n1 = canon n2"
    and "\<not> prefix (abs_elements (Join_path [temp1, pkg])) (abs_elements d1)"
    and "\<not> prefix (abs_elements (Join_path [temp2, pkg])) (abs_elements d2)"
    and "os_zip S1 = os_zip S2" "os_targz S1 = os_targz S2" "os_owner S1 = os_owner S2"
  shows "(writeZip S1 d1 (Join_path [temp1, pkg]) k w1 = (Inr (), v1)
      \<and> writeZip S2 d2 (Join_path [temp2, pkg]) k w2 = (Inr (), v2)
      \<longrightarrow> (\<exists>bytes. content_of d1 (os_root v1) = Some bytes \<and> content_of d2 (os_root v2) = Some bytes))
    \<and> (writeTarGzip S1 d1 (Join_path [temp1, pkg]) k w1 = (Inr (), v1)
      \<and> writeTarGzip S2 d2 (Join_path [temp2, pkg]) k w2 = (Inr (), v2)
      \<longrightarrow> (\<exists>bytes. content_of d1 (os_root v1) = Some bytes \<and> content_of d2 (os_root v2) = Some bytes))"
proof -
  have same: "package_entries entry pkg n1 = package_entries entry pkg n2"
    if "\<And>name n. entry name n = entry name (shape n)" for entry
    using package_entries_canon [of entry pkg n1, OF that] package_entries_canon [of entry pkg n2, OF that] assms(8) by simp
  note c1 = archive_content [OF assms(1,3,4,5,9)] and c2 = archive_content [OF assms(2,3,6,7,10)]
  have "writeZip S1 d1 (Join_path [temp1, pkg]) k w1 = (Inr (), v1)
      \<and> writeZip S2 d2 (Join_path [temp2, pkg]) k w2 = (Inr (), v2)
      \<longrightarrow> (\<exists>bytes. content_of d1 (os_root v1) = Some bytes \<and> content_of d2 (os_root v2) = Some bytes)"
    using c1(1) [where S = S1 and k = k and w' = v1] c2(1) [where S = S2 and k = k and w' = v2] same [of "zip_entry k", OF entry_shape(1)] assms(11) by auto
  moreover have "writeTarGzip S1 d1 (Join_path [temp1, pkg]) k w1 = (Inr (), v1)
      \<and> writeTarGzip S2 d2 (Join_path [temp2, pkg]) k w2 = (Inr (), v2)
      \<longrightarrow> (\<exists>bytes. content_of d1 (os_root v1) = Some bytes \<and> content_of d2 (os_root v2) = Some bytes)"
    using c1(2) [where S = S1 and k = k and w' = v1] c2(2) [where S = S2 and k = k and w' = v2] same [of "tar_entry (os_owner S2) k", OF entry_shape(2)] assms(12,13) by auto
  ultimately show ?thesis ..
qed

definition staged_w :: osw where
  "staged_w = \<lparr>os_root = Directory 0 [(''out'', Directory 0 []), (''tmp'', Directory 0
     [(''a'', Directory 0 [(''p'', Directory 3 [(''x'', File ''1'' 420 3), (''c'', Directory 4 [(''y'', File ''2'' 420 5)])])]),
      (''b'', Directory 0 [(''p'', Directory 8 [(''c'', Directory 7 [(''y'', File ''2'' 420 9)]), (''x'', File ''1'' 420 6)])])])],
     os_calls = 0, os_out = []\<rparr>"

definition staged_node :: "string \<Rightarrow> node" where
  "staged_node name = the (node_at [''tmp'', name, ''p''] (os_root staged_w))"

lemma staged_facts:
  "IsAbs_path ''/tmp/a''" "IsAbs_path ''/tmp/b''" "plain ''p''"
  "node_at (abs_elements (Join_path [''/tmp/a'', ''p''])) (os_root staged_w) = Some (staged_node ''a'')" "plain_names (staged_node ''a'')"
  "node_at (abs_elements (Join_path [''/tmp/b'', ''p''])) (os_root staged_w) = Some (staged_node ''b'')" "plain_names (staged_node ''b'')"
  "canon (staged_node ''a'') = canon (staged_node ''b'')"
  "\<not> prefix (abs_elements (Join_path [''/tmp/a'', ''p''])) (abs_elements ''/out/p.zip'')"
  "\<not> prefix (abs_elements (Join_path [''/tmp/b'', ''p''])) (abs_elements ''/out/p.zip'')"
  by code_simp+

lemma staged_runs:
  "writeZip sample_os ''/out/p.zip'' (Join_path [''/tmp/a'', ''p'']) 9 staged_w
     = (Inr (), snd (writeZip sample_os ''/out/p.zip'' (Join_path [''/tmp/a'', ''p'']) 9 staged_w))"
  "writeZip sample_os ''/out/p.zip'' (Join_path [''/tmp/b'', ''p'']) 9 staged_w
     = (Inr (), snd (writeZip sample_os ''/out/p.zip'' (Join_path [''/tmp/b'', ''p'']) 9 staged_w))"
  by (rule prod_eqI, code_simp, simp)+

theorem archives_reproducible_witness:
  "\<exists>bytes. content_of ''/out/p.zip'' (os_root (snd (writeZip sample_os ''/out/p.zip'' (Join_path [''/tmp/a'', ''p'']) 9 staged_w))) = Some bytes
     \<and> content_of ''/out/p.zip'' (os_root (snd (writeZip sample_os ''/out/p.zip'' (Join_path [''/tmp/b'', ''p'']) 9 staged_w))) = Some bytes"
  by (rule conjunct1 [OF archives_reproducible [OF staged_facts refl refl refl], rule_format, OF conjI [OF staged_runs]])

end
