(* ===== verification/Concurrent_Create.thy ===== *)
theory Concurrent_Create
  imports Api_Correct
begin

text \<open>
  Creates that run at the same time: the transactions of \<open>organization_store.go\<close> statement by statement, on a
  server that shows a statement the committed rows and the transaction's own, and lets an INSERT wait
  for a transaction that holds a row with the same unique value. Every interleaving has the effect and
  the answers of running the same creates one after the other, in the order they end; so identical
  commands at the same time create one organization.
\<close>

section \<open>A create, statement by statement\<close>

text \<open>A request, with the positions of its identifiers and its time: a transaction draws three identifiers.\<close>

record creation =
  cr_prin :: Principal
  cr_key :: string
  cr_cmd :: CreateOrganization
  cr_id :: nat
  cr_tick :: nat

datatype outcome = Done tables | Failed goerr | Taken

definition cr_now :: "env \<Rightarrow> creation \<Rightarrow> gotime" where
  "cr_now E p = env_now E (cr_tick p)"

definition run_sql :: "string \<Rightarrow> goerr + 'a \<times> tables \<Rightarrow> outcome" where
  "run_sql msg r = (case r of Inl e \<Rightarrow> Failed (Wrap msg e) | Inr (_, d) \<Rightarrow> Done d)"

definition claim_stmt :: "env \<Rightarrow> creation \<Rightarrow> tables \<Rightarrow> outcome" where
  "claim_stmt E p d =
     (case insert_key E (prin_ID (cr_prin p)) createOrganizationScope (cr_key p) (request_hash E (cr_cmd p)) (cr_now E p) d of
        Inl e \<Rightarrow> Failed (Wrap ''insert idempotency key'' e)
      | Inr (n, d') \<Rightarrow> if n = 1 then Done d' else Taken)"

definition cr_organization :: "env \<Rightarrow> creation \<Rightarrow> goerr + Organization" where
  "cr_organization E p = NewOrganization (env_id E (cr_id p)) (cmd_Name (cr_cmd p)) (cr_now E p)"

definition with_organization :: "env \<Rightarrow> creation \<Rightarrow> (Organization \<Rightarrow> outcome) \<Rightarrow> outcome" where
  "with_organization E p f = (case cr_organization E p of Inl e \<Rightarrow> Failed e | Inr orga \<Rightarrow> f orga)"

definition complete_stmt :: "env \<Rightarrow> creation \<Rightarrow> Organization \<Rightarrow> tables \<Rightarrow> outcome" where
  "complete_stmt E p orga d =
     (case update_key E (prin_ID (cr_prin p)) createOrganizationScope (cr_key p) 201
             (json_text (result_json (result_of orga))) (cr_now E p) d of
        Inl e \<Rightarrow> Failed (Wrap ''complete idempotency key'' e)
      | Inr (n, d') \<Rightarrow> if n \<noteq> 1 then Failed ErrInProgress else Done d')"

text \<open>The statements of a create that found its key free.\<close>

definition statement :: "env \<Rightarrow> creation \<Rightarrow> nat \<Rightarrow> tables \<Rightarrow> outcome" where
  "statement E p k d =
     (if k = 0 then claim_stmt E p d
      else with_organization E p (\<lambda>orga.
        if k = 1 then run_sql ''insert organization'' (insert_organization E orga d)
        else if k = 2 then run_sql ''insert bootstrap administrator membership''
          (insert_membership E (env_id E (cr_id p + 1)) (prin_ID (cr_prin p)) (org_ID orga) (cr_now E p) d)
        else if k = 3 then run_sql ''append audit event''
          (insert_audit E (created_event (env_id E (cr_id p + 2)) (cr_prin p) orga (result_json (result_of orga)) (cr_now E p)) d)
        else complete_stmt E p orga d))"

fun exec :: "env \<Rightarrow> creation \<Rightarrow> nat \<Rightarrow> tables \<Rightarrow> tables option" where
  "exec E p 0 d = Some d"
| "exec E p (Suc k) d = (case exec E p k d of
     None \<Rightarrow> None | Some d1 \<Rightarrow> (case statement E p k d1 of Done d2 \<Rightarrow> Some d2 | _ \<Rightarrow> None))"

text \<open>The answer to a request whose key is taken, from the row of the key.\<close>

definition taken_answer :: "env \<Rightarrow> creation \<Rightarrow> key_row \<Rightarrow> goerr + CreateOrganizationResult \<times> bool" where
  "taken_answer E p row =
     (if \<not> equalBytes (k_request_hash row) (request_hash E (cr_cmd p)) then Inl ErrKeyConflict
      else case k_response_status row of
        None \<Rightarrow> Inl ErrInProgress
      | Some _ \<Rightarrow>
          if k_status row \<noteq> ''COMPLETED'' then Inl ErrInProgress
          else case unmarshal_result (coalesce_empty (k_response_body row)) of
            None \<Rightarrow> Inl (Wrap ''decode idempotent response'' (Errorf ''json''))
          | Some replayed \<Rightarrow> Inr (replayed, True))"

section \<open>The statements are the transaction\<close>

definition calm :: "env \<Rightarrow> bool" where
  "calm E \<longleftrightarrow> (\<forall>n. env_fault E n = NoFault)"

lemma call_calm:
  "calm E \<Longrightarrow> call E q w = (case q (db w) of
      Inl e \<Rightarrow> (Inl e, w\<lparr>calls := Suc (calls w)\<rparr>)
    | Inr (x, d) \<Rightarrow> (Inr x, w\<lparr>calls := Suc (calls w), db := d\<rparr>))"
  by (simp add: call_NoFault calm_def)

lemma InTx_calm:
  "calm E \<Longrightarrow> InTx E fn w = (case fn (w\<lparr>calls := Suc (calls w)\<rparr>) of
      (Inl e, w2) \<Rightarrow> (Inl e, w2\<lparr>db := db w\<rparr>)
    | (Inr x, w2) \<Rightarrow> (Inr x, w2\<lparr>calls := Suc (calls w2)\<rparr>))"
  by (simp add: InTx_unfold calm_def split: prod.splits sum.splits)

definition starts :: "creation \<Rightarrow> tables \<Rightarrow> world \<Rightarrow> bool" where
  "starts p d w \<longleftrightarrow> db w = d \<and> ids w = cr_id p \<and> ticks w = cr_tick p"

definition create_from :: "env \<Rightarrow> creation \<Rightarrow> tables \<Rightarrow> (goerr + CreateOrganizationResult \<times> bool) \<Rightarrow> tables \<Rightarrow> bool" where
  "create_from E p d x d' \<longleftrightarrow> (\<forall>w. starts p d w \<longrightarrow>
     (\<exists>w'. Create E all_deps (cr_prin p) (cr_key p) (cr_cmd p) w = (x, w') \<and> db w' = d'))"

lemmas create_run_defs =
  Create_all_deps InTx_calm create_tx_def Begin_def Append_def Complete_def call_calm bindE_def mapErr_def starts_def

lemma select_key_db: "select_key E p sc k d = Inr (row, d') \<Longrightarrow> d' = d"
  by (auto simp: select_key_def split: sum.splits option.splits)

lemma create_from_taken:
  assumes "calm E" and "claim_stmt E p d = Taken"
    and "select_key E (prin_ID (cr_prin p)) createOrganizationScope (cr_key p) d = Inr (row, d)"
  shows "create_from E p d (taken_answer E p row) d"
proof -
  obtain n where n: "insert_key E (prin_ID (cr_prin p)) createOrganizationScope (cr_key p) (request_hash E (cr_cmd p)) (cr_now E p) d
      = Inr (n, d)" "n \<noteq> 1"
    using assms(2) by (auto simp: claim_stmt_def insert_key_def split: sum.splits if_splits)
  show ?thesis
    unfolding create_from_def
  proof (intro allI impI)
    fix w assume "starts p d w"
    then show "\<exists>w'. Create E all_deps (cr_prin p) (cr_key p) (cr_cmd p) w = (taken_answer E p row, w') \<and> db w' = d"
      using n assms(1,3) by (simp add: create_run_defs cr_now_def taken_answer_def split: option.splits)
  qed
qed

lemma exec_Suc: "exec E p (Suc k) d = Some d2 \<longleftrightarrow> (\<exists>d1. exec E p k d = Some d1 \<and> statement E p k d1 = Done d2)"
  by (auto split: option.splits outcome.splits)

lemma claim_Done:
  "claim_stmt E p d = Done d' \<Longrightarrow>
    insert_key E (prin_ID (cr_prin p)) createOrganizationScope (cr_key p) (request_hash E (cr_cmd p)) (cr_now E p) d = Inr (1, d')"
  by (auto simp: claim_stmt_def split: sum.splits if_splits)

lemma run_sql_Done: "run_sql msg (r :: goerr + unit \<times> tables) = Done d \<Longrightarrow> r = Inr ((), d)"
  by (auto simp: run_sql_def split: sum.splits)

lemma run_sql_Failed: "run_sql msg r = Failed e \<Longrightarrow> \<exists>e'. r = Inl e' \<and> e = Wrap msg e'"
  by (auto simp: run_sql_def split: sum.splits)

lemma complete_Done:
  "complete_stmt E p orga d = Done d' \<Longrightarrow> update_key E (prin_ID (cr_prin p)) createOrganizationScope (cr_key p) 201
             (json_text (result_json (result_of orga))) (cr_now E p) d = Inr (1, d')"
  by (auto simp: complete_stmt_def split: sum.splits if_splits)

text \<open>What the transaction does from each of its statements on.\<close>

definition fin_part :: "env \<Rightarrow> creation \<Rightarrow> Organization \<Rightarrow> (CreateOrganizationResult \<times> bool) prog" where
  "fin_part E p orga = bindE (Complete E (prin_ID (cr_prin p)) createOrganizationScope (cr_key p) 201
     (json_text (result_json (result_of orga))) (cr_now E p)) (\<lambda>_. retE (result_of orga, False))"

definition audit_part :: "env \<Rightarrow> creation \<Rightarrow> Organization \<Rightarrow> (CreateOrganizationResult \<times> bool) prog" where
  "audit_part E p orga = bindE (New E) (\<lambda>eventID.
     bindE (Append E (created_event eventID (cr_prin p) orga (result_json (result_of orga)) (cr_now E p))) (\<lambda>_. fin_part E p orga))"

definition member_part :: "env \<Rightarrow> creation \<Rightarrow> Organization \<Rightarrow> (CreateOrganizationResult \<times> bool) prog" where
  "member_part E p orga = bindE (New E) (\<lambda>membershipID. bindE (wrapE ''insert bootstrap administrator membership''
     (call E (insert_membership E membershipID (prin_ID (cr_prin p)) (org_ID orga) (cr_now E p)))) (\<lambda>_. audit_part E p orga))"

definition organization_part :: "env \<Rightarrow> creation \<Rightarrow> (CreateOrganizationResult \<times> bool) prog" where
  "organization_part E p = bindE (New E) (\<lambda>organizationID.
     case NewOrganization organizationID (cmd_Name (cr_cmd p)) (cr_now E p) of
       Inl e \<Rightarrow> failE e
     | Inr orga \<Rightarrow> bindE (wrapE ''insert organization'' (call E (insert_organization E orga))) (\<lambda>_. member_part E p orga))"

lemma create_tx_parts:
  "ticks w = cr_tick p \<Longrightarrow> create_tx E (cr_prin p) (cr_key p) (cr_cmd p) (request_hash E (cr_cmd p)) w =
     bindE (Begin E (prin_ID (cr_prin p)) createOrganizationScope (cr_key p) (request_hash E (cr_cmd p)) (cr_now E p)) (\<lambda>record.
       if Replay record then
         (case unmarshal_result (ResponseBody record) of
            None \<Rightarrow> failE (Wrap ''decode idempotent response'' (Errorf ''json''))
          | Some replayed \<Rightarrow> retE (replayed, True))
       else organization_part E p) (w\<lparr>ticks := Suc (ticks w)\<rparr>)"
  unfolding create_tx_def organization_part_def member_part_def audit_part_def fin_part_def Let_def cr_now_def
  by (simp add: bindE_Inr [where m = "Now E"])

text \<open>How a part goes on after its statement: with the next part, or to the error.\<close>

definition goes :: "('a prog) \<Rightarrow> world \<Rightarrow> outcome \<Rightarrow> ('a prog) \<Rightarrow> nat \<Rightarrow> bool" where
  "goes m w r m' n = (case r of
       Done d \<Rightarrow> \<exists>w'. m w = m' w' \<and> db w' = d \<and> ids w' = n
     | Failed e \<Rightarrow> \<exists>w'. m w = (Inl e, w')
     | Taken \<Rightarrow> True)"

lemma wrap_call_goes:
  assumes "calm E"
  shows "goes (bindE (wrapE msg (call E q)) (\<lambda>_. m)) w (run_sql msg (q (db w))) m (ids w)"
  using assms by (auto simp: goes_def run_sql_def bindE_def mapErr_def call_calm split: sum.splits)

lemma goes_New: "goes (f (env_id E (ids w))) (w\<lparr>ids := Suc (ids w)\<rparr>) r m' n \<Longrightarrow> goes (bindE (New E) f) w r m' n"
  by (simp add: goes_def bindE_def)

lemma organization_goes:
  assumes "calm E" and "ids w = cr_id p"
  shows "goes (organization_part E p) w (statement E p 1 (db w)) (member_part E p (projr (cr_organization E p))) (cr_id p + 1)"
  unfolding organization_part_def
proof (rule goes_New)
  show "goes (case NewOrganization (env_id E (ids w)) (cmd_Name (cr_cmd p)) (cr_now E p) of
       Inl e \<Rightarrow> failE e
     | Inr orga \<Rightarrow> bindE (wrapE ''insert organization'' (call E (insert_organization E orga))) (\<lambda>_. member_part E p orga))
     (w\<lparr>ids := Suc (ids w)\<rparr>) (statement E p 1 (db w)) (member_part E p (projr (cr_organization E p))) (cr_id p + 1)"
  proof (cases "cr_organization E p")
    case (Inl e)
    then show ?thesis using assms(2) by (simp add: statement_def with_organization_def cr_organization_def goes_def)
  next
    case (Inr orga)
    then have "NewOrganization (env_id E (ids w)) (cmd_Name (cr_cmd p)) (cr_now E p) = Inr orga"
      using assms(2) by (simp add: cr_organization_def)
    then show ?thesis
      using wrap_call_goes [OF assms(1), of "''insert organization''" "insert_organization E orga" "member_part E p orga"
          "w\<lparr>ids := Suc (ids w)\<rparr>"] Inr assms(2)
      by (simp add: statement_def with_organization_def)
  qed
qed

lemma member_goes:
  assumes "calm E" and "cr_organization E p = Inr orga" and "ids w = cr_id p + 1"
  shows "goes (member_part E p orga) w (statement E p 2 (db w)) (audit_part E p orga) (cr_id p + 2)"
  unfolding member_part_def
  using wrap_call_goes [OF assms(1), of _ _ "audit_part E p orga" "w\<lparr>ids := Suc (ids w)\<rparr>"] assms(2,3)
  by (intro goes_New) (simp add: statement_def with_organization_def)

lemma audit_goes:
  assumes "calm E" and "cr_organization E p = Inr orga" and "ids w = cr_id p + 2"
  shows "goes (audit_part E p orga) w (statement E p 3 (db w)) (fin_part E p orga) (cr_id p + 3)"
  unfolding audit_part_def Append_def
  using wrap_call_goes [OF assms(1), of _ _ "fin_part E p orga" "w\<lparr>ids := Suc (ids w)\<rparr>"] assms(2,3)
  by (intro goes_New) (simp add: statement_def with_organization_def numeral_3_eq_3)

lemma fin_goes:
  assumes "calm E" and "cr_organization E p = Inr orga"
  shows "goes (fin_part E p orga) w (statement E p 4 (db w)) (retE (result_of orga, False)) (ids w)"
  using assms
  by (auto simp: fin_part_def Complete_def goes_def bindE_def mapErr_def call_calm statement_def with_organization_def
      complete_stmt_def split: sum.splits)

lemma begin_goes:
  assumes "calm E"
  shows "goes (bindE (Begin E (prin_ID (cr_prin p)) createOrganizationScope (cr_key p) (request_hash E (cr_cmd p)) (cr_now E p)) (\<lambda>record.
       if Replay record then f record else organization_part E p)) w (statement E p 0 (db w)) (organization_part E p) (ids w)"
  using assms
  by (auto simp: Begin_def goes_def bindE_def mapErr_def call_calm statement_def claim_stmt_def zero_Record_def split: sum.splits)

definition part :: "env \<Rightarrow> creation \<Rightarrow> nat \<Rightarrow> (CreateOrganizationResult \<times> bool) prog" where
  "part E p k =
     (let orga = projr (cr_organization E p) in
      if k = 0 then
        bindE (Begin E (prin_ID (cr_prin p)) createOrganizationScope (cr_key p) (request_hash E (cr_cmd p)) (cr_now E p)) (\<lambda>record.
          if Replay record then
            (case unmarshal_result (ResponseBody record) of
               None \<Rightarrow> failE (Wrap ''decode idempotent response'' (Errorf ''json''))
             | Some replayed \<Rightarrow> retE (replayed, True))
          else organization_part E p)
      else if k = 1 then organization_part E p
      else if k = 2 then member_part E p orga
      else if k = 3 then audit_part E p orga
      else if k = 4 then fin_part E p orga
      else retE (result_of orga, False))"

definition drawn :: "nat \<Rightarrow> nat" where
  "drawn k = (if k \<le> 1 then 0 else if k = 5 then 3 else k - 1)"

lemma part_goes:
  assumes "calm E" and "k \<le> 4" and "2 \<le> k \<Longrightarrow> cr_organization E p = Inr orga" and "ids w = cr_id p + drawn k"
  shows "goes (part E p k) w (statement E p k (db w)) (part E p (Suc k)) (cr_id p + drawn (Suc k))"
proof -
  have "k = 0 \<or> k = 1 \<or> k = 2 \<or> k = 3 \<or> k = 4" using assms(2) by linarith
  then consider "k = 0" | "k = 1" | "k = 2" | "k = 3" | "k = 4" by blast
  then show ?thesis
  proof cases
    case 1
    then show ?thesis using begin_goes [OF assms(1), of p _ w] assms(4) by (simp add: part_def drawn_def)
  next
    case 2
    then show ?thesis using organization_goes [OF assms(1), of w p] assms(4) by (simp add: part_def drawn_def Let_def numeral_2_eq_2)
  next
    case 3
    then show ?thesis using member_goes [OF assms(1), of p orga w] assms(3,4) by (simp add: part_def drawn_def)
  next
    case 4
    then show ?thesis using audit_goes [OF assms(1), of p orga w] assms(3,4) by (simp add: part_def drawn_def)
  next
    case 5
    then show ?thesis using fin_goes [OF assms(1), of p orga w] assms(3,4) by (simp add: part_def drawn_def)
  qed
qed

lemma exec_organization: "exec E p k d = Some d' \<Longrightarrow> 2 \<le> k \<Longrightarrow> \<exists>orga. cr_organization E p = Inr orga"
proof (induction k arbitrary: d')
  case (Suc k)
  obtain d1 where "exec E p k d = Some d1" and st: "statement E p k d1 = Done d'" using Suc.prems(1) unfolding exec_Suc by blast
  have "k \<noteq> 0" using Suc.prems(2) by simp
  then show ?case using st by (auto simp: statement_def with_organization_def split: sum.splits)
qed simp

lemma exec_part:
  assumes "calm E" and "exec E p k d = Some d'" and "k \<le> 5" and "db w = d" "ids w = cr_id p"
  shows "\<exists>w'. part E p 0 w = part E p k w' \<and> db w' = d' \<and> ids w' = cr_id p + drawn k"
  using assms(2,3)
proof (induction k arbitrary: d')
  case 0
  then show ?case using assms(4,5) by (auto simp: drawn_def)
next
  case (Suc k)
  obtain d1 where d1: "exec E p k d = Some d1" "statement E p k d1 = Done d'" using Suc.prems(1) unfolding exec_Suc by blast
  obtain w' where w': "part E p 0 w = part E p k w'" "db w' = d1" "ids w' = cr_id p + drawn k"
    using Suc.IH [OF d1(1)] Suc.prems(2) by auto
  have "goes (part E p k) w' (statement E p k (db w')) (part E p (Suc k)) (cr_id p + drawn (Suc k))"
    using part_goes [OF assms(1), of k p "projr (cr_organization E p)" w'] exec_organization [OF d1(1)] w'(3) Suc.prems(2) by force
  then show ?case using d1(2) w' by (auto simp: goes_def)
qed

text \<open>The transaction alone: it creates when all its statements succeed and fails with the error of the first that does not.\<close>

lemma create_runs_part:
  assumes "starts p d w"
  shows "create_tx E (cr_prin p) (cr_key p) (cr_cmd p) (request_hash E (cr_cmd p)) (w\<lparr>calls := Suc (calls w)\<rparr>)
    = part E p 0 (w\<lparr>calls := Suc (calls w), ticks := Suc (ticks w)\<rparr>)"
  using assms create_tx_parts [of "w\<lparr>calls := Suc (calls w)\<rparr>" p E] by (simp add: starts_def part_def)

lemma create_from_failed:
  assumes "calm E" and "exec E p k d = Some d'" and "k \<le> 4" and "statement E p k d' = Failed e"
  shows "create_from E p d (Inl e) d"
  unfolding create_from_def
proof (intro allI impI)
  fix w assume w: "starts p d w"
  let ?w = "w\<lparr>calls := Suc (calls w), ticks := Suc (ticks w)\<rparr>"
  obtain w1 where w1: "part E p 0 ?w = part E p k w1" "db w1 = d'" "ids w1 = cr_id p + drawn k"
    using exec_part [OF assms(1,2), of ?w] assms(3) w by (auto simp: starts_def)
  have "goes (part E p k) w1 (statement E p k (db w1)) (part E p (Suc k)) (cr_id p + drawn (Suc k))"
    using part_goes [OF assms(1,3), of p "projr (cr_organization E p)" w1] exec_organization [OF assms(2)] w1(3) by force
  then obtain w2 where "part E p 0 ?w = (Inl e, w2)" using w1 assms(4) by (auto simp: goes_def)
  then show "\<exists>w'. Create E all_deps (cr_prin p) (cr_key p) (cr_cmd p) w = (Inl e, w') \<and> db w' = d"
    using w create_runs_part [OF w, of E] assms(1) by (simp add: Create_all_deps InTx_calm starts_def)
qed

lemma create_from_done:
  assumes "calm E" and "exec E p 5 d = Some d'"
  shows "create_from E p d (Inr (new_result E (cr_id p) (cr_cmd p), False)) d'"
  unfolding create_from_def
proof (intro allI impI)
  fix w assume w: "starts p d w"
  let ?w = "w\<lparr>calls := Suc (calls w), ticks := Suc (ticks w)\<rparr>"
  obtain orga where orga: "cr_organization E p = Inr orga" using exec_organization [OF assms(2)] by auto
  obtain w1 where w1: "part E p 0 ?w = part E p 5 w1" "db w1 = d'"
    using exec_part [OF assms, of ?w] w by (auto simp: starts_def)
  then have "part E p 0 ?w = (Inr (result_of orga, False), w1)" using orga by (simp add: part_def)
  moreover have "result_of orga = new_result E (cr_id p) (cr_cmd p)"
    using orga by (auto simp: cr_organization_def NewOrganization_Inr result_of_def new_result_def)
  ultimately show "\<exists>w'. Create E all_deps (cr_prin p) (cr_key p) (cr_cmd p) w
      = (Inr (new_result E (cr_id p) (cr_cmd p), False), w') \<and> db w' = d'"
    using create_runs_part [OF w, of E] assms(1) w1(2) by (simp add: Create_all_deps InTx_calm)
qed

section \<open>Rows of a transaction that is not committed\<close>

record writes =
  wr_organizations :: "organization_row list"
  wr_memberships :: "membership_row list"
  wr_audit_events :: "audit_row list"
  wr_keys :: "key_row list"

definition no_writes :: writes where
  "no_writes = \<lparr>wr_organizations = [], wr_memberships = [], wr_audit_events = [], wr_keys = []\<rparr>"

text \<open>What a statement of the transaction sees: the committed rows and its own.\<close>

definition view :: "tables \<Rightarrow> writes \<Rightarrow> tables" where
  "view d ws = d\<lparr>organizations := organizations d @ wr_organizations ws, memberships := memberships d @ wr_memberships ws,
     idempotency_keys := idempotency_keys d @ wr_keys ws, audit_events := audit_events d @ wr_audit_events ws\<rparr>"

text \<open>Its own rows after a statement. (A create changes no committed row: \<open>statement_writes\<close> below.)\<close>

definition writes_of :: "tables \<Rightarrow> tables \<Rightarrow> writes" where
  "writes_of d v = \<lparr>wr_organizations = drop (length (organizations d)) (organizations v),
     wr_memberships = drop (length (memberships d)) (memberships v),
     wr_audit_events = drop (length (audit_events d)) (audit_events v),
     wr_keys = drop (length (idempotency_keys d)) (idempotency_keys v)\<rparr>"

text \<open>The entries of unique indexes that its rows hold.\<close>

datatype lock = Key "string \<times> string \<times> string" | OrganizationId string | MembershipId string | AuditId string

definition locks :: "writes \<Rightarrow> lock set" where
  "locks ws = (\<lambda>r. Key (key_of r)) ` set (wr_keys ws) \<union> (\<lambda>r. OrganizationId (o_id r)) ` set (wr_organizations ws)
     \<union> (\<lambda>r. MembershipId (m_id r)) ` set (wr_memberships ws) \<union> (\<lambda>r. AuditId (a_id r)) ` set (wr_audit_events ws)"

lemma lock_iff:
  "Key k \<in> locks ws \<longleftrightarrow> (\<exists>r \<in> set (wr_keys ws). key_of r = k)"
  "OrganizationId i \<in> locks ws \<longleftrightarrow> (\<exists>r \<in> set (wr_organizations ws). o_id r = i)"
  "MembershipId i \<in> locks ws \<longleftrightarrow> (\<exists>r \<in> set (wr_memberships ws). m_id r = i)"
  "AuditId i \<in> locks ws \<longleftrightarrow> (\<exists>r \<in> set (wr_audit_events ws). a_id r = i)"
  by (auto simp: locks_def)

lemma writes_of_view [simp]: "writes_of d (view d ws) = ws"
  by (simp add: writes_of_def view_def)

lemma view_no_writes [simp]: "view d no_writes = d"
  by (simp add: view_def no_writes_def)

lemma locks_no_writes [simp]: "locks no_writes = {}"
  by (simp add: locks_def no_writes_def)

text \<open>The committed tables after others have committed: rows \<open>g\<close> are new, and principals are still there.\<close>

definition grown :: "writes \<Rightarrow> tables \<Rightarrow> tables \<Rightarrow> bool" where
  "grown g d d' \<longleftrightarrow> organizations d' = organizations d @ wr_organizations g \<and> memberships d' = memberships d @ wr_memberships g
     \<and> idempotency_keys d' = idempotency_keys d @ wr_keys g \<and> audit_events d' = audit_events d @ wr_audit_events g
     \<and> p_id ` set (principals d) \<subseteq> p_id ` set (principals d')"

lemma grown_view: "grown g d (view d g)"
  by (simp add: grown_def view_def)

text \<open>A statement that succeeded adds rows only, and would succeed with the same rows after others have committed
  rows that hold none of the same entries.\<close>

definition stable :: "env \<Rightarrow> creation \<Rightarrow> nat \<Rightarrow> tables \<Rightarrow> writes \<Rightarrow> tables \<Rightarrow> bool" where
  "stable E p k d ws v \<longleftrightarrow> (\<exists>ws'. v = view d ws' \<and> locks ws \<subseteq> locks ws'
     \<and> (\<forall>d' g. grown g d d' \<and> locks ws' \<inter> locks g = {} \<longrightarrow> statement E p k (view d' ws) = Done (view d' ws')))"

lemma stableI:
  assumes "v = view d ws'" "locks ws \<subseteq> locks ws'"
    and "\<And>d' g. grown g d d' \<Longrightarrow> locks ws' \<inter> locks g = {} \<Longrightarrow> statement E p k (view d' ws) = Done (view d' ws')"
  shows "stable E p k d ws v"
  using assms unfolding stable_def by blast

lemma claim_Done_iff:
  "claim_stmt E p d = Done d' \<longleftrightarrow> (\<exists>pid. env_uuid E (prin_ID (cr_prin p)) = Some pid
     \<and> env_text E createOrganizationScope \<and> env_text E (cr_key p)
     \<and> \<not> list_ex (same_key pid createOrganizationScope (cr_key p)) (idempotency_keys d)
     \<and> d' = d\<lparr>idempotency_keys := idempotency_keys d @
          [new_key_row E pid createOrganizationScope (cr_key p) (request_hash E (cr_cmd p)) (cr_now E p)]\<rparr>)"
  by (auto simp: claim_stmt_def insert_key_def cast_uuid_def split: option.splits)

lemma claim_stable:
  assumes "statement E p 0 (view d ws) = Done v"
  shows "stable E p 0 d ws v"
proof -
  obtain pid where pid: "env_uuid E (prin_ID (cr_prin p)) = Some pid" "env_text E createOrganizationScope" "env_text E (cr_key p)"
      "\<not> list_ex (same_key pid createOrganizationScope (cr_key p)) (idempotency_keys d @ wr_keys ws)"
    and v: "v = (view d ws)\<lparr>idempotency_keys := (idempotency_keys d @ wr_keys ws) @
          [new_key_row E pid createOrganizationScope (cr_key p) (request_hash E (cr_cmd p)) (cr_now E p)]\<rparr>"
    using assms by (auto simp: statement_def claim_Done_iff view_def)
  let ?row = "new_key_row E pid createOrganizationScope (cr_key p) (request_hash E (cr_cmd p)) (cr_now E p)"
  show ?thesis
  proof (rule stableI [where ws' = "ws\<lparr>wr_keys := wr_keys ws @ [?row]\<rparr>"])
    fix d' g assume g: "grown g d d'" "locks (ws\<lparr>wr_keys := wr_keys ws @ [?row]\<rparr>) \<inter> locks g = {}"
    have "\<not> list_ex (same_key pid createOrganizationScope (cr_key p)) (wr_keys g)"
      using g(2) by (auto simp: locks_def list_ex_iff same_key_iff new_key_row_def key_of_def)
    then show "statement E p 0 (view d' ws) = Done (view d' (ws\<lparr>wr_keys := wr_keys ws @ [?row]\<rparr>))"
      using g(1) pid by (simp add: statement_def claim_Done_iff view_def grown_def)
  qed (auto simp: v view_def locks_def)
qed

lemma statement_Done_organization:
  assumes "statement E p (Suc k) d = Done v"
  obtains orga where "cr_organization E p = Inr orga"
  using assms by (auto simp: statement_def with_organization_def split: sum.splits)

lemma organization_stable:
  assumes "statement E p 1 (view d ws) = Done v"
  shows "stable E p 1 d ws v"
proof -
  obtain orga where orga: "cr_organization E p = Inr orga" using statement_Done_organization [of E p 0] assms by auto
  have ins: "insert_organization E orga (view d ws) = Inr ((), v)"
    using assms orga by (auto simp: statement_def with_organization_def dest: run_sql_Done)
  obtain oid where oid: "env_uuid E (org_ID orga) = Some oid" "env_text E (org_Name orga)" "env_text E (org_SourceOfTruth orga)"
      "btrim (org_Name orga) \<noteq> []" "org_SourceOfTruth orga = OwnedBySkawld" "org_Version orga > 0"
      "\<not> list_ex (\<lambda>r. o_id r = oid) (organizations d @ wr_organizations ws)"
    and v: "v = (view d ws)\<lparr>organizations := (organizations d @ wr_organizations ws) @ [new_organization_row E oid orga]\<rparr>"
    using ins by (auto simp: insert_organization_Inr view_def)
  let ?ws = "ws\<lparr>wr_organizations := wr_organizations ws @ [new_organization_row E oid orga]\<rparr>"
  show ?thesis
  proof (rule stableI [where ws' = ?ws])
    fix d' g assume g: "grown g d d'" "locks ?ws \<inter> locks g = {}"
    have "\<not> list_ex (\<lambda>r. o_id r = oid) (wr_organizations g)"
      using g(2) by (auto simp: locks_def list_ex_iff new_organization_row_def)
    then have "insert_organization E orga (view d' ws) = Inr ((), view d' ?ws)"
      using g(1) oid by (simp add: insert_organization_Inr view_def grown_def)
    then show "statement E p 1 (view d' ws) = Done (view d' ?ws)"
      using orga by (simp add: statement_def with_organization_def run_sql_def)
  qed (auto simp: v view_def locks_def)
qed

lemma membership_stable:
  assumes "statement E p 2 (view d ws) = Done v"
  shows "stable E p 2 d ws v"
proof -
  obtain orga where orga: "cr_organization E p = Inr orga" using statement_Done_organization [of E p 1] assms by (auto simp: numeral_2_eq_2)
  have ins: "insert_membership E (env_id E (cr_id p + 1)) (prin_ID (cr_prin p)) (org_ID orga) (cr_now E p) (view d ws) = Inr ((), v)"
    using assms orga by (auto simp: statement_def with_organization_def dest: run_sql_Done)
  have stI: "statement E p 2 x = Done y"
    if "insert_membership E (env_id E (cr_id p + 1)) (prin_ID (cr_prin p)) (org_ID orga) (cr_now E p) x = Inr ((), y)" for x y
    using that orga by (simp add: statement_def with_organization_def run_sql_def)
  obtain mid pid oid where ids: "env_uuid E (env_id E (cr_id p + 1)) = Some mid" "env_uuid E (prin_ID (cr_prin p)) = Some pid"
      "env_uuid E (org_ID orga) = Some oid"
    and rest: "if list_ex (\<lambda>r. m_id r = mid) (memberships (view d ws)) then v = view d ws
       else list_ex (\<lambda>r. p_id r = pid) (principals (view d ws)) \<and> list_ex (\<lambda>r. o_id r = oid) (organizations (view d ws))
         \<and> v = (view d ws)\<lparr>memberships := memberships (view d ws) @ [new_membership_row E mid pid oid (cr_now E p)]\<rparr>"
    using ins unfolding insert_membership_Inr by blast
  show ?thesis
  proof (cases "list_ex (\<lambda>r. m_id r = mid) (memberships (view d ws))")
    case True
    show ?thesis
    proof (rule stableI [where ws' = ws])
      fix d' g assume g: "grown g d d'"
      then have "list_ex (\<lambda>r. m_id r = mid) (memberships (view d' ws))" using True by (auto simp: view_def grown_def)
      then show "statement E p 2 (view d' ws) = Done (view d' ws)"
        by (intro stI) (simp add: insert_membership_Inr ids [simplified])
    qed (use rest True in auto)
  next
    case False
    let ?ws = "ws\<lparr>wr_memberships := wr_memberships ws @ [new_membership_row E mid pid oid (cr_now E p)]\<rparr>"
    show ?thesis
    proof (rule stableI [where ws' = ?ws])
      fix d' g assume g: "grown g d d'" "locks ?ws \<inter> locks g = {}"
      have "\<not> list_ex (\<lambda>r. m_id r = mid) (wr_memberships g)"
        using g(2) by (auto simp: locks_def list_ex_iff new_membership_row_def)
      then have free: "\<not> list_ex (\<lambda>r. m_id r = mid) (memberships (view d' ws))"
        using False g(1) by (auto simp: view_def grown_def)
      have "pid \<in> p_id ` set (principals d')" using False rest g(1) by (auto simp: list_ex_iff view_def grown_def)
      moreover have "list_ex (\<lambda>r. o_id r = oid) (organizations (view d' ws))"
        using False rest g(1) by (auto simp: view_def grown_def)
      moreover have "view d' ?ws = (view d' ws)\<lparr>memberships := memberships (view d' ws) @ [new_membership_row E mid pid oid (cr_now E p)]\<rparr>"
        by (simp add: view_def)
      ultimately show "statement E p 2 (view d' ws) = Done (view d' ?ws)"
        using free by (intro stI) (auto simp: insert_membership_Inr ids [simplified] list_ex_iff view_def)
    qed (use rest False in \<open>auto simp: view_def locks_def\<close>)
  qed
qed

lemma insert_audit_again:
  assumes "insert_audit E ev d = Inr (u, d')"
  obtains row where "d' = d\<lparr>audit_events := audit_events d @ [row]\<rparr>" "\<not> list_ex (\<lambda>r. a_id r = a_id row) (audit_events d)"
    and "\<And>d2. \<not> list_ex (\<lambda>r. a_id r = a_id row) (audit_events d2)
      \<Longrightarrow> insert_audit E ev d2 = Inr ((), d2\<lparr>audit_events := audit_events d2 @ [row]\<rparr>)"
proof -
  have ex: "\<exists>x. cast_uuid E (ev_ID ev) = Inr x" "\<exists>x. cast_uuid_null E (ev_OrganizationID ev) = Inr x"
      "\<exists>x. cast_uuid_null E (ev_SiteID ev) = Inr x" "\<exists>x. cast_uuid_null E (ev_ActorID ev) = Inr x"
      "check_text E [ev_Action ev, ev_EntityKind ev, ev_EntityID ev, ev_Reason ev, ev_RequestID ev, ev_ExecutionID ev,
        ev_WorkflowID ev, ev_ApprovalID ev] = Inr ()"
      "\<exists>x. cast_jsonb E (jsonOrNull (ev_AIInvolvement ev)) = Inr x" "\<exists>x. cast_jsonb E (jsonOrNull (ev_Before ev)) = Inr x"
      "\<exists>x. cast_jsonb E (jsonOrNull (ev_After ev)) = Inr x" "\<exists>x. cast_jsonb E (marshal_map (ev_Attributes ev)) = Inr x"
    using assms by (auto simp: insert_audit_def bindS_Inr_iff)
  obtain ident org site actor ai before after attributes where
    casts: "cast_uuid E (ev_ID ev) = Inr ident" "cast_uuid_null E (ev_OrganizationID ev) = Inr org"
      "cast_uuid_null E (ev_SiteID ev) = Inr site" "cast_uuid_null E (ev_ActorID ev) = Inr actor"
      "check_text E [ev_Action ev, ev_EntityKind ev, ev_EntityID ev, ev_Reason ev, ev_RequestID ev, ev_ExecutionID ev,
        ev_WorkflowID ev, ev_ApprovalID ev] = Inr ()"
      "cast_jsonb E (jsonOrNull (ev_AIInvolvement ev)) = Inr ai" "cast_jsonb E (jsonOrNull (ev_Before ev)) = Inr before"
      "cast_jsonb E (jsonOrNull (ev_After ev)) = Inr after" "cast_jsonb E (marshal_map (ev_Attributes ev)) = Inr attributes"
    using ex by blast
  define row where "row = \<lparr>a_id = ident, a_organization_id = org, a_site_id = site, a_actor_id = actor,
           a_action = ev_Action ev, a_entity_kind = ev_EntityKind ev,
           a_entity_id = ev_EntityID ev, a_reason = nullif_empty (ev_Reason ev),
           a_request_id = nullif_empty (ev_RequestID ev),
           a_execution_id = nullif_empty (ev_ExecutionID ev),
           a_workflow_id = nullif_empty (ev_WorkflowID ev),
           a_approval_id = nullif_empty (ev_ApprovalID ev),
           a_ai_involvement = ai, a_before_value = before, a_after_value = after,
           a_attributes = attributes, a_occurred_at = env_ts E (ev_OccurredAt ev)\<rparr>"
  have ins: "insert_audit E ev x = (if list_ex (\<lambda>r. a_id r = a_id row) (audit_events x) then Inl (PgError ''23505'')
      else Inr ((), x\<lparr>audit_events := audit_events x @ [row]\<rparr>))" for x
    by (simp only: insert_audit_def casts bindS_simps) (simp add: row_def)
  show ?thesis
    by (rule that [of row]) (use assms in \<open>auto simp: ins split: if_splits\<close>)
qed

lemma audit_stable:
  assumes "statement E p 3 (view d ws) = Done v"
  shows "stable E p 3 d ws v"
proof -
  obtain orga where orga: "cr_organization E p = Inr orga" using statement_Done_organization [of E p 2] assms by (auto simp: numeral_3_eq_3)
  let ?ev = "created_event (env_id E (cr_id p + 2)) (cr_prin p) orga (result_json (result_of orga)) (cr_now E p)"
  have "insert_audit E ?ev (view d ws) = Inr ((), v)"
    using assms orga by (auto simp: statement_def with_organization_def dest: run_sql_Done)
  then obtain row where row: "v = (view d ws)\<lparr>audit_events := audit_events (view d ws) @ [row]\<rparr>"
      "\<not> list_ex (\<lambda>r. a_id r = a_id row) (audit_events (view d ws))"
    and again: "\<And>d2. \<not> list_ex (\<lambda>r. a_id r = a_id row) (audit_events d2)
      \<Longrightarrow> insert_audit E ?ev d2 = Inr ((), d2\<lparr>audit_events := audit_events d2 @ [row]\<rparr>)"
    by (rule insert_audit_again) blast
  let ?ws = "ws\<lparr>wr_audit_events := wr_audit_events ws @ [row]\<rparr>"
  show ?thesis
  proof (rule stableI [where ws' = ?ws])
    fix d' g assume g: "grown g d d'" "locks ?ws \<inter> locks g = {}"
    have "AuditId (a_id row) \<in> locks ?ws" by (simp add: lock_iff)
    then have "AuditId (a_id row) \<notin> locks g" using g(2) by blast
    then have "\<not> list_ex (\<lambda>r. a_id r = a_id row) (wr_audit_events g)" by (auto simp: lock_iff list_ex_iff)
    then have "\<not> list_ex (\<lambda>r. a_id r = a_id row) (audit_events (view d' ws))"
      using row(2) g(1) by (auto simp: view_def grown_def)
    then show "statement E p 3 (view d' ws) = Done (view d' ?ws)"
      using orga again by (simp add: statement_def with_organization_def run_sql_def) (simp add: view_def)
  qed (auto simp: row(1) view_def locks_def)
qed

text \<open>The last statement changes the row of the key, which is the transaction's own.\<close>

definition own_key :: "env \<Rightarrow> creation \<Rightarrow> tables \<Rightarrow> writes \<Rightarrow> bool" where
  "own_key E p d ws \<longleftrightarrow> (\<exists>pid. env_uuid E (prin_ID (cr_prin p)) = Some pid
     \<and> \<not> list_ex (same_key pid createOrganizationScope (cr_key p)) (idempotency_keys d)
     \<and> Key (pid, createOrganizationScope, cr_key p) \<in> locks ws)"

lemma key_of_complete_row [simp]: "key_of (complete_row st b t r) = key_of r"
  by (simp add: complete_row_def key_of_def)

lemma complete_stable:
  assumes "statement E p 4 (view d ws) = Done v" and "own_key E p d ws"
  shows "stable E p 4 d ws v"
proof -
  obtain orga where orga: "cr_organization E p = Inr orga"
    using statement_Done_organization [of E p 3] assms(1) by (auto simp: eval_nat_numeral)
  obtain pid where pid: "env_uuid E (prin_ID (cr_prin p)) = Some pid"
      "\<not> list_ex (same_key pid createOrganizationScope (cr_key p)) (idempotency_keys d)"
      "Key (pid, createOrganizationScope, cr_key p) \<in> locks ws"
    using assms(2) unfolding own_key_def by blast
  let ?body = "json_text (result_json (result_of orga))"
  have up: "update_key E (prin_ID (cr_prin p)) createOrganizationScope (cr_key p) 201 ?body (cr_now E p) (view d ws) = Inr (1, v)"
    using assms(1) orga by (simp add: statement_def with_organization_def complete_Done)
  obtain stored where stored: "env_jsonb E ?body = Some stored" using up pid(1) by (auto simp: update_key_def cast_uuid_def split: option.splits)
  define hit where "hit = (\<lambda>row. same_key pid createOrganizationScope (cr_key p) row \<and> k_status row = ''PROCESSING'')"
  define f where "f = (\<lambda>row. if hit row then complete_row 201 stored (env_ts E (cr_now E p)) row else row)"
  have upd: "update_key E (prin_ID (cr_prin p)) createOrganizationScope (cr_key p) 201 ?body (cr_now E p) x
      = Inr (length (filter hit (idempotency_keys x)), x\<lparr>idempotency_keys := map f (idempotency_keys x)\<rparr>)" for x
    using pid(1) stored by (simp add: update_key_def cast_uuid_def Let_def hit_def f_def)
  have none: "filter hit ks = [] \<and> map f ks = ks" if "\<not> list_ex (same_key pid createOrganizationScope (cr_key p)) ks" for ks
    using that by (induction ks) (auto simp: hit_def f_def)
  have n: "length (filter hit (wr_keys ws)) = 1" and v: "v = (view d ws)\<lparr>idempotency_keys := idempotency_keys d @ map f (wr_keys ws)\<rparr>"
    using up none [OF pid(2)] unfolding upd by (auto simp: view_def)
  let ?ws = "ws\<lparr>wr_keys := map f (wr_keys ws)\<rparr>"
  have "key_of (f r) = key_of r" for r by (simp add: f_def)
  then have lk: "locks ?ws = locks ws" by (simp add: locks_def image_image)
  show ?thesis
  proof (rule stableI [where ws' = ?ws])
    fix d' g assume g: "grown g d d'" "locks ?ws \<inter> locks g = {}"
    have "\<not> list_ex (same_key pid createOrganizationScope (cr_key p)) (wr_keys g)"
    proof -
      have "Key (pid, createOrganizationScope, cr_key p) \<notin> locks g" using g(2) pid(3) unfolding lk by blast
      then show ?thesis by (auto simp: list_ex_iff same_key_iff lock_iff)
    qed
    then have "filter hit (idempotency_keys d') = [] \<and> map f (idempotency_keys d') = idempotency_keys d'"
      using g(1) pid(2) by (intro none) (auto simp: grown_def)
    then have "update_key E (prin_ID (cr_prin p)) createOrganizationScope (cr_key p) 201 ?body (cr_now E p) (view d' ws)
        = Inr (1, view d' ?ws)"
      unfolding upd using n by (simp add: view_def)
    then show "statement E p 4 (view d' ws) = Done (view d' ?ws)"
      using orga by (simp add: statement_def with_organization_def complete_stmt_def)
  qed (auto simp: v lk view_def)
qed

lemma statement_writes:
  assumes "statement E p k (view d ws) = Done v" and "k \<le> 4" and "k = 4 \<Longrightarrow> own_key E p d ws"
  shows "stable E p k d ws v"
proof -
  have "k = 0 \<or> k = 1 \<or> k = 2 \<or> k = 3 \<or> k = 4" using assms(2) by linarith
  then show ?thesis
    using claim_stable organization_stable membership_stable audit_stable complete_stable assms by metis
qed

lemma claim_own_key:
  assumes "statement E p 0 (view d ws) = Done (view d ws')"
  shows "own_key E p d ws'"
proof -
  obtain pid where pid: "env_uuid E (prin_ID (cr_prin p)) = Some pid"
      "\<not> list_ex (same_key pid createOrganizationScope (cr_key p)) (idempotency_keys (view d ws))"
      "view d ws' = (view d ws)\<lparr>idempotency_keys := idempotency_keys (view d ws) @
          [new_key_row E pid createOrganizationScope (cr_key p) (request_hash E (cr_cmd p)) (cr_now E p)]\<rparr>"
    using assms unfolding statement_def by (auto simp: claim_Done_iff)
  have "wr_keys ws' = wr_keys ws @ [new_key_row E pid createOrganizationScope (cr_key p) (request_hash E (cr_cmd p)) (cr_now E p)]"
    using arg_cong [OF pid(3), of idempotency_keys] by (simp add: view_def)
  then have "Key (pid, createOrganizationScope, cr_key p) \<in> locks ws'"
    by (simp add: lock_iff new_key_row_def key_of_def)
  then show ?thesis using pid(1,2) by (auto simp: own_key_def view_def)
qed

lemma exec_stable:
  assumes "exec E p k d = Some v" and "k \<le> 5"
  shows "\<exists>ws. v = view d ws \<and> (1 \<le> k \<longrightarrow> own_key E p d ws)
    \<and> (\<forall>d' g. grown g d d' \<and> locks ws \<inter> locks g = {} \<longrightarrow> exec E p k d' = Some (view d' ws))"
  using assms
proof (induction k arbitrary: v)
  case 0
  then show ?case by (intro exI [of _ no_writes]) simp
next
  case (Suc k)
  obtain v1 where v1: "exec E p k d = Some v1" "statement E p k v1 = Done v" using Suc.prems(1) unfolding exec_Suc by blast
  obtain ws where ws: "v1 = view d ws" "1 \<le> k \<longrightarrow> own_key E p d ws"
      "\<forall>d' g. grown g d d' \<and> locks ws \<inter> locks g = {} \<longrightarrow> exec E p k d' = Some (view d' ws)"
    using Suc.IH [OF v1(1)] Suc.prems(2) by auto
  have "stable E p k d ws v" using statement_writes [of E p k d ws v] v1(2) ws(1,2) Suc.prems(2) by simp
  then obtain ws' where ws': "v = view d ws'" "locks ws \<subseteq> locks ws'"
      "\<forall>d' g. grown g d d' \<and> locks ws' \<inter> locks g = {} \<longrightarrow> statement E p k (view d' ws) = Done (view d' ws')"
    unfolding stable_def by blast
  have "own_key E p d ws'"
  proof (cases "k = 0")
    case True
    then show ?thesis using claim_own_key v1(2) ws(1) ws'(1) by metis
  next
    case False
    then show ?thesis using ws(2) ws'(2) unfolding own_key_def by (metis One_nat_def Suc_leI neq0_conv subsetD)
  qed
  moreover have "exec E p (Suc k) d' = Some (view d' ws')" if g: "grown g d d'" "locks ws' \<inter> locks g = {}" for d' g
  proof -
    have "locks ws \<inter> locks g = {}" using g(2) ws'(2) by blast
    then show ?thesis unfolding exec_Suc using ws(3) ws'(3) g by blast
  qed
  ultimately show ?case using ws'(1) by blast
qed

lemma exec_grown:
  assumes "exec E p k d = Some (view d ws)" and "k \<le> 5" and "grown g d d'" and "locks ws \<inter> locks g = {}"
  shows "exec E p k d' = Some (view d' ws)"
proof -
  obtain ws' where "view d ws = view d ws'"
      "\<forall>d' g. grown g d d' \<and> locks ws' \<inter> locks g = {} \<longrightarrow> exec E p k d' = Some (view d' ws')"
    using exec_stable [OF assms(1,2)] by blast
  moreover from this have "ws' = ws" using writes_of_view by metis
  ultimately show ?thesis using assms(3,4) by blast
qed

section \<open>Transactions at the same time\<close>

text \<open>A transaction has run some of its statements, or has found its key taken and has yet to read the row.\<close>

datatype phase = Writing nat writes | Waiting

record running =
  rn_creation :: creation
  rn_phase :: phase

type_synonym create_answer = "goerr + CreateOrganizationResult \<times> bool"

record server =
  sv_tables :: tables
  sv_running :: "nat \<Rightarrow> running option"
  sv_answers :: "(creation \<times> create_answer) list"

definition held :: "running \<Rightarrow> lock set" where
  "held r = (case rn_phase r of Writing k ws \<Rightarrow> locks ws | Waiting \<Rightarrow> {})"

text \<open>No other transaction holds an entry of these rows. A statement waits until this is so.\<close>

definition unlocked :: "nat \<Rightarrow> writes \<Rightarrow> server \<Rightarrow> bool" where
  "unlocked t ws s \<longleftrightarrow> (\<forall>u r. u \<noteq> t \<longrightarrow> sv_running s u = Some r \<longrightarrow> locks ws \<inter> held r = {})"

definition goes_on :: "nat \<Rightarrow> creation \<Rightarrow> phase \<Rightarrow> server \<Rightarrow> server" where
  "goes_on t p ph s = s\<lparr>sv_running := (sv_running s)(t \<mapsto> \<lparr>rn_creation = p, rn_phase = ph\<rparr>)\<rparr>"

definition ends :: "nat \<Rightarrow> (creation \<times> create_answer) list \<Rightarrow> tables \<Rightarrow> server \<Rightarrow> server" where
  "ends t answer d s = s\<lparr>sv_tables := d, sv_running := (sv_running s)(t := None), sv_answers := sv_answers s @ answer\<rparr>"

definition is_at :: "server \<Rightarrow> nat \<Rightarrow> creation \<Rightarrow> phase \<Rightarrow> bool" where
  "is_at s t p ph \<longleftrightarrow> sv_running s t = Some \<lparr>rn_creation = p, rn_phase = ph\<rparr>"

inductive server_step :: "env \<Rightarrow> server \<Rightarrow> server \<Rightarrow> bool" for E :: env where
  arrive: "sv_running s t = None \<Longrightarrow> server_step E s (goes_on t p (Writing 0 no_writes) s)"
| execute: "is_at s t p (Writing k ws) \<Longrightarrow> k \<le> 4 \<Longrightarrow> statement E p k (view (sv_tables s) ws) = Done v
    \<Longrightarrow> unlocked t (writes_of (sv_tables s) v) s
    \<Longrightarrow> server_step E s (goes_on t p (Writing (Suc k) (writes_of (sv_tables s) v)) s)"
| taken: "is_at s t p (Writing 0 ws) \<Longrightarrow> statement E p 0 (view (sv_tables s) ws) = Taken
    \<Longrightarrow> server_step E s (goes_on t p Waiting s)"
| answer: "is_at s t p Waiting
    \<Longrightarrow> select_key E (prin_ID (cr_prin p)) createOrganizationScope (cr_key p) (sv_tables s) = Inr (row, d)
    \<Longrightarrow> server_step E s (ends t [(p, taken_answer E p row)] (sv_tables s) s)"
| fail: "is_at s t p (Writing k ws) \<Longrightarrow> k \<le> 4 \<Longrightarrow> statement E p k (view (sv_tables s) ws) = Failed e
    \<Longrightarrow> server_step E s (ends t [(p, Inl e)] (sv_tables s) s)"
| commit: "is_at s t p (Writing 5 ws)
    \<Longrightarrow> server_step E s (ends t [(p, Inr (new_result E (cr_id p) (cr_cmd p), False))] (view (sv_tables s) ws) s)"
| lost: "sv_running s t = Some r \<Longrightarrow> server_step E s (ends t [] (sv_tables s) s)"
| login: "login_step E (sv_tables s) d \<Longrightarrow> server_step E s (s\<lparr>sv_tables := d\<rparr>)"

inductive server_run :: "env \<Rightarrow> server \<Rightarrow> server \<Rightarrow> bool" for E :: env where
  idle: "server_run E s s"
| step: "server_run E s s1 \<Longrightarrow> server_step E s1 s2 \<Longrightarrow> server_run E s s2"

text \<open>The same requests one after the other.\<close>

inductive serial :: "env \<Rightarrow> tables \<Rightarrow> (creation \<times> create_answer) list \<Rightarrow> tables \<Rightarrow> bool" for E :: env where
  none: "serial E d [] d"
| create: "serial E d xs d1 \<Longrightarrow> create_from E p d1 x d2 \<Longrightarrow> serial E d (xs @ [(p, x)]) d2"
| login: "serial E d xs d1 \<Longrightarrow> login_step E d1 d2 \<Longrightarrow> serial E d xs d2"

section \<open>The invariant\<close>

definition running_ok :: "env \<Rightarrow> tables \<Rightarrow> running \<Rightarrow> bool" where
  "running_ok E d r = (case rn_phase r of
     Writing k ws \<Rightarrow> k \<le> 5 \<and> exec E (rn_creation r) k d = Some (view d ws)
   | Waiting \<Rightarrow> claim_stmt E (rn_creation r) d = Taken)"

definition server_ok_state :: "env \<Rightarrow> server \<Rightarrow> bool" where
  "server_ok_state E s \<longleftrightarrow> (\<forall>t r. sv_running s t = Some r \<longrightarrow> running_ok E (sv_tables s) r)
     \<and> (\<forall>t u r r'. t \<noteq> u \<longrightarrow> sv_running s t = Some r \<longrightarrow> sv_running s u = Some r' \<longrightarrow> held r \<inter> held r' = {})"

lemma running_grown:
  assumes "running_ok E d r" and "grown g d d'" and "held r \<inter> locks g = {}"
  shows "running_ok E d' r"
proof (cases "rn_phase r")
  case (Writing k ws)
  then have "k \<le> 5" "exec E (rn_creation r) k d = Some (view d ws)" "locks ws \<inter> locks g = {}"
    using assms(1,3) by (simp_all add: running_ok_def held_def)
  then show ?thesis using exec_grown [OF _ _ assms(2)] Writing by (simp add: running_ok_def)
next
  case Waiting
  then show ?thesis
    using assms by (auto simp: running_ok_def claim_stmt_def insert_key_def cast_uuid_def grown_def split: option.splits if_splits)
qed

lemma login_grown:
  assumes "login_step E d d'"
  shows "grown no_writes d d'"
  using assms
proof cases
  case (resolved i c t p)
  then show ?thesis by (cases rule: upsert_principal_Inr) (auto simp: grown_def no_writes_def image_image)
qed (auto simp: grown_def no_writes_def revoke_session_def dest!: insert_flow_Inr delete_flow_Inr insert_session_Inr)

text \<open>Steps keep the invariant: when one transaction changes its phase, and when one ends and leaves rows behind.\<close>

lemma goes_on_ok:
  assumes "server_ok_state E s" and "running_ok E (sv_tables s) \<lparr>rn_creation = p, rn_phase = ph\<rparr>"
    and "\<And>u r. u \<noteq> t \<Longrightarrow> sv_running s u = Some r \<Longrightarrow> held \<lparr>rn_creation = p, rn_phase = ph\<rparr> \<inter> held r = {}"
  shows "server_ok_state E (goes_on t p ph s)"
proof -
  let ?r = "\<lparr>rn_creation = p, rn_phase = ph\<rparr>"
  have new: "held ?r \<inter> held r = {}" "held r \<inter> held ?r = {}" if "u \<noteq> t" "sv_running s u = Some r" for u r
    using assms(3) [OF that] by auto
  show ?thesis
    using assms(1,2) new by (simp add: server_ok_state_def goes_on_def) (metis new(1))
qed

lemma ends_ok:
  assumes "server_ok_state E s" and "grown g (sv_tables s) d"
    and "\<And>u r. u \<noteq> t \<Longrightarrow> sv_running s u = Some r \<Longrightarrow> held r \<inter> locks g = {}"
  shows "server_ok_state E (ends t xs d s)"
  using assms running_grown [OF _ assms(2)] unfolding server_ok_state_def ends_def by auto

lemma grown_refl: "grown no_writes d d"
  by (simp add: grown_def no_writes_def)

lemma is_at_running: "is_at s t p ph \<Longrightarrow> server_ok_state E s \<Longrightarrow> running_ok E (sv_tables s) \<lparr>rn_creation = p, rn_phase = ph\<rparr>"
  by (simp add: is_at_def server_ok_state_def)

lemma is_at_held:
  "is_at s t p ph \<Longrightarrow> server_ok_state E s \<Longrightarrow> u \<noteq> t \<Longrightarrow> sv_running s u = Some r
    \<Longrightarrow> held r \<inter> held \<lparr>rn_creation = p, rn_phase = ph\<rparr> = {}"
  unfolding is_at_def server_ok_state_def by blast

lemma step_ok:
  assumes "server_step E s s'" and ok: "server_ok_state E s"
  shows "server_ok_state E s'"
  using assms(1)
proof cases
  case (arrive t p)
  then show ?thesis by (auto intro!: goes_on_ok [OF ok] simp: running_ok_def held_def)
next
  case (execute t p k ws v)
  have r: "exec E p k (sv_tables s) = Some (view (sv_tables s) ws)"
    using is_at_running [OF execute(2) ok] by (simp add: running_ok_def)
  then have e: "exec E p (Suc k) (sv_tables s) = Some v" using execute(4) unfolding exec_Suc by blast
  then have "v = view (sv_tables s) (writes_of (sv_tables s) v)"
    using exec_stable [OF e] execute(3) by (metis Suc_le_mono eval_nat_numeral(3) writes_of_view)
  then have "running_ok E (sv_tables s) \<lparr>rn_creation = p, rn_phase = Writing (Suc k) (writes_of (sv_tables s) v)\<rparr>"
    using e execute(3) by (simp add: running_ok_def)
  then show ?thesis
    unfolding execute(1) by (rule goes_on_ok [OF ok]) (use execute(5) in \<open>auto simp: unlocked_def held_def\<close>)
next
  case (taken t p ws)
  have "ws = no_writes"
    using is_at_running [OF taken(2) ok] by (simp add: running_ok_def) (metis view_no_writes writes_of_view)
  then show ?thesis
    unfolding taken(1) using taken(3) by (intro goes_on_ok [OF ok]) (simp_all add: running_ok_def held_def statement_def)
next
  case (answer t p row d)
  then show ?thesis using ends_ok [OF ok grown_refl] by simp
next
  case (fail t p k ws e)
  then show ?thesis using ends_ok [OF ok grown_refl] by simp
next
  case (commit t p ws)
  then show ?thesis
    using ends_ok [OF ok grown_view, of t ws] is_at_held [OF commit(2) ok] by (simp add: held_def)
next
  case (lost t r)
  then show ?thesis using ends_ok [OF ok grown_refl] by simp
next
  case (login d)
  then show ?thesis
    using ok running_grown [OF _ login_grown [OF login(2)]] by (auto simp: server_ok_state_def)
qed

text \<open>Every step of the server is nothing, a step of the login service, or one whole create.\<close>

lemma step_serial:
  assumes "server_step E s s'" and "calm E" and ok: "server_ok_state E s" and "serial E d0 (sv_answers s) (sv_tables s)"
  shows "serial E d0 (sv_answers s') (sv_tables s')"
  using assms(1)
proof cases
  case (answer t p row d)
  have "claim_stmt E p (sv_tables s) = Taken" using is_at_running [OF answer(2) ok] by (simp add: running_ok_def)
  moreover have "d = sv_tables s" using select_key_db [OF answer(3)] .
  ultimately have "create_from E p (sv_tables s) (taken_answer E p row) (sv_tables s)"
    using create_from_taken [OF assms(2)] answer(3) by blast
  then show ?thesis using serial.create [OF assms(4)] answer(1) by (simp add: ends_def)
next
  case (fail t p k ws e)
  have "exec E p k (sv_tables s) = Some (view (sv_tables s) ws)"
    using is_at_running [OF fail(2) ok] by (simp add: running_ok_def)
  then have "create_from E p (sv_tables s) (Inl e) (sv_tables s)"
    using create_from_failed [OF assms(2) _ fail(3,4)] by blast
  then show ?thesis using serial.create [OF assms(4)] fail(1) by (simp add: ends_def)
next
  case (commit t p ws)
  have "exec E p 5 (sv_tables s) = Some (view (sv_tables s) ws)"
    using is_at_running [OF commit(2) ok] by (simp add: running_ok_def)
  then have "create_from E p (sv_tables s) (Inr (new_result E (cr_id p) (cr_cmd p), False)) (view (sv_tables s) ws)"
    using create_from_done [OF assms(2)] by blast
  then show ?thesis using serial.create [OF assms(4)] commit(1) by (simp add: ends_def)
next
  case (login d)
  then show ?thesis using serial.login [OF assms(4)] by simp
qed (use assms(4) in \<open>simp_all add: goes_on_def ends_def\<close>)

lemma run_serial:
  assumes "server_run E s s'" and "calm E" and "server_ok_state E s" and "serial E d0 (sv_answers s) (sv_tables s)"
  shows "server_ok_state E s' \<and> serial E d0 (sv_answers s') (sv_tables s')"
  using assms by (induction rule: server_run.induct) (auto intro: step_ok step_serial)

definition idle_server :: "tables \<Rightarrow> server" where
  "idle_server d = \<lparr>sv_tables = d, sv_running = (\<lambda>_. None), sv_answers = []\<rparr>"

lemma idle_server_ok: "server_ok_state E (idle_server d)"
  by (simp add: server_ok_state_def idle_server_def)

section \<open>What one after the other means\<close>

lemma create_fromE:
  assumes "create_from E p d x d'"
  obtains w w' where "db w = d" "Create E all_deps (cr_prin p) (cr_key p) (cr_cmd p) w = (x, w')" "db w' = d'"
proof -
  define w where "w = \<lparr>db = d, ids = cr_id p, ticks = cr_tick p, rands = 0, calls = 0\<rparr>"
  have "starts p d w" "db w = d" by (simp_all add: starts_def w_def)
  then show ?thesis using assms that unfolding create_from_def by blast
qed

lemma create_from_elsewhere: "create_from E p d x d' \<Longrightarrow> elsewhere E d d'"
  by (erule create_fromE) (use elsewhere.create [OF elsewhere.quiet] in blast)

lemma serial_elsewhere: "serial E d xs d' \<Longrightarrow> elsewhere E d d'"
  by (induction rule: serial.induct) (auto intro: elsewhere.quiet elsewhere.login elsewhere_trans create_from_elsewhere)

lemma serial_nth:
  assumes "serial E d xs d'" and "i < length xs"
  shows "\<exists>d1 d2. elsewhere E d d1 \<and> create_from E (fst (xs ! i)) d1 (snd (xs ! i)) d2 \<and> elsewhere E d2 d'"
  using assms
proof (induction rule: serial.induct)
  case (create d xs d1 p x d2)
  show ?case
  proof (cases "i < length xs")
    case True
    then obtain e1 e2 where "elsewhere E d e1" "create_from E (fst (xs ! i)) e1 (snd (xs ! i)) e2" "elsewhere E e2 d1"
      using create.IH by blast
    moreover have "elsewhere E e2 d2" if "elsewhere E e2 d1"
      using elsewhere_trans [OF create_from_elsewhere [OF create.hyps(2)] that] .
    ultimately show ?thesis using True by (auto simp: nth_append)
  next
    case False
    then have "(xs @ [(p, x)]) ! i = (p, x)" using create.prems by (simp add: nth_append)
    then show ?thesis using serial_elsewhere [OF create.hyps(1)] create.hyps(2) elsewhere.quiet by auto
  qed
next
  case (login d xs d1 d2)
  then show ?case using elsewhere.login by blast
qed simp

lemma serial_nth2:
  assumes "serial E d xs d'" and "i < j" and "j < length xs"
  shows "\<exists>d1 d2 d3 d4. elsewhere E d d1 \<and> create_from E (fst (xs ! i)) d1 (snd (xs ! i)) d2 \<and> elsewhere E d2 d3
    \<and> create_from E (fst (xs ! j)) d3 (snd (xs ! j)) d4"
  using assms
proof (induction rule: serial.induct)
  case (create d xs d1 p x d2)
  show ?case
  proof (cases "j < length xs")
    case True
    then show ?thesis using create.IH [OF create.prems(1) True] create.prems(1) by (simp add: nth_append)
  next
    case False
    then have j: "(xs @ [(p, x)]) ! j = (p, x)" "i < length xs" using create.prems by (auto simp: nth_append)
    obtain e1 e2 where "elsewhere E d e1" "create_from E (fst (xs ! i)) e1 (snd (xs ! i)) e2" "elsewhere E e2 d1"
      using serial_nth [OF create.hyps(1) j(2)] by blast
    then show ?thesis using j create.hyps(2) by (auto simp: nth_append)
  qed
qed auto

text \<open>The number of organizations grows by the number of answers that report a new one.\<close>

definition reports_new :: "creation \<times> create_answer \<Rightarrow> bool" where
  "reports_new a = (case snd a of Inr (_, False) \<Rightarrow> True | _ \<Rightarrow> False)"

lemma create_from_outcome:
  assumes "create_from E p d x d'" and "keys_ok E d" and "calm E"
  shows "length (organizations d') = length (organizations d) + (if reports_new (p, x) then 1 else 0)"
proof -
  obtain w w' where "db w = d" and w': "Create E all_deps (cr_prin p) (cr_key p) (cr_cmd p) w = (x, w')" "db w' = d'"
    by (rule create_fromE [OF assms(1)])
  have same: "d' = d" if "x = Inl e" for e
    using InTx_InlD [OF w'(1) [unfolded that Create_all_deps]] assms(3) w'(2) \<open>db w = d\<close> by (auto simp: calm_def)
  have one: "length (organizations d') = Suc (length (organizations d))"
    if "first_create E (cr_prin p) (cr_key p) (cr_cmd p) t n d d'" for t n
    using that by (auto simp: first_create_def created_def create_rows_def)
  note o = Create_outcome [of E w, unfolded \<open>db w = d\<close>, OF assms(2) w'(1), unfolded w'(2)]
  show ?thesis
    using o same one by (cases x) (auto simp: reports_new_def split: bool.splits)
qed

lemma serial_count:
  assumes "serial E d xs d'" and "calm E" and "keys_ok E d"
  shows "length (organizations d') = length (organizations d) + length (filter reports_new xs)"
  using assms
proof (induction rule: serial.induct)
  case (create d xs d1 p x d2)
  have "keys_ok E d1" using ledger.guarded.keep_elsewhere [OF serial_elsewhere [OF create.hyps(1)]] create.prems(2) by blast
  then show ?case using create.IH [OF create.prems] create_from_outcome [OF create.hyps(2) _ create.prems(1)] by simp
next
  case (login d xs d1 d2)
  have "organizations d2 = organizations d1" using login_grown [OF login.hyps(2)] by (simp add: grown_def no_writes_def)
  then show ?case using login by simp
qed simp

section \<open>A transaction that nobody holds up\<close>

lemma goes_on_twice [simp]: "goes_on t p ph (goes_on t p ph' s) = goes_on t p ph s"
  by (simp add: goes_on_def)

lemma is_at_goes_on [simp]: "is_at (goes_on t p ph s) t p ph"
  by (simp add: is_at_def goes_on_def)

lemma goes_on_tables [simp]: "sv_tables (goes_on t p ph s) = sv_tables s"
  by (simp add: goes_on_def)

lemma run_alone:
  assumes "exec E p k d = Some v" and "k \<le> 5" and "sv_tables s = d"
    and "\<And>u r. u \<noteq> t \<Longrightarrow> sv_running s u = Some r \<Longrightarrow> held r = {}"
  shows "\<exists>ws. v = view d ws \<and> server_run E (goes_on t p (Writing 0 no_writes) s) (goes_on t p (Writing k ws) s)"
  using assms(1,2)
proof (induction k arbitrary: v)
  case 0
  then show ?case by (intro exI [of _ no_writes]) (simp add: server_run.idle)
next
  case (Suc k)
  obtain v1 where v1: "exec E p k d = Some v1" "statement E p k v1 = Done v" using Suc.prems(1) unfolding exec_Suc by blast
  obtain ws where ws: "v1 = view d ws" and run: "server_run E (goes_on t p (Writing 0 no_writes) s) (goes_on t p (Writing k ws) s)"
    using Suc.IH [OF v1(1)] Suc.prems(2) by auto
  obtain ws' where ws': "v = view d ws'" using exec_stable [OF Suc.prems] by blast
  have "unlocked t ws' (goes_on t p (Writing k ws) s)"
    using assms(4) by (auto simp: unlocked_def goes_on_def)
  then have "server_step E (goes_on t p (Writing k ws) s) (goes_on t p (Writing (Suc k) ws') s)"
    using server_step.execute [OF is_at_goes_on, of k E p t ws s v] v1(2) ws ws' assms(3) Suc.prems(2) by simp
  then show ?case using ws' server_run.step [OF run] by blast
qed

text \<open>Two requests at the same time: both have begun before the first has run a statement.\<close>

lemma two_at_once:
  assumes "exec E p 5 d = Some v" and "claim_stmt E q v = Taken"
    and "select_key E (prin_ID (cr_prin q)) createOrganizationScope (cr_key q) v = Inr (row, v)"
  shows "\<exists>s. server_run E (idle_server d) s \<and> sv_tables s = v
    \<and> sv_answers s = [(p, Inr (new_result E (cr_id p) (cr_cmd p), False)), (q, taken_answer E q row)]"
proof -
  define s1 where "s1 = goes_on 1 q (Writing 0 no_writes) (idle_server d)"
  have a1: "server_run E (idle_server d) s1"
    unfolding s1_def by (rule server_run.step [OF server_run.idle server_step.arrive]) (simp add: idle_server_def)
  have f: "held r = {}" if "u \<noteq> 0" "sv_running s1 u = Some r" for u r
    using that by (auto simp: s1_def goes_on_def idle_server_def held_def split: if_splits)
  obtain ws where ws: "v = view d ws"
      and r2: "server_run E (goes_on 0 p (Writing 0 no_writes) s1) (goes_on 0 p (Writing 5 ws) s1)"
    using run_alone [OF assms(1) order.refl, of s1 0] f by (auto simp: s1_def idle_server_def)
  have t1: "sv_tables s1 = d" "sv_running s1 0 = None" "is_at s1 1 q (Writing 0 no_writes)" "sv_answers s1 = []"
    by (simp_all add: s1_def idle_server_def goes_on_def is_at_def)
  define s2 where "s2 = ends 0 [(p, Inr (new_result E (cr_id p) (cr_cmd p), False))] v (goes_on 0 p (Writing 5 ws) s1)"
  have c: "server_step E (goes_on 0 p (Writing 5 ws) s1) s2"
    using server_step.commit [OF is_at_goes_on, of E 0 p ws s1] t1(1) ws by (simp add: s2_def)
  have s2: "sv_tables s2 = v" "is_at s2 1 q (Writing 0 no_writes)" "sv_answers s2 = [(p, Inr (new_result E (cr_id p) (cr_cmd p), False))]"
    using t1 by (simp_all add: s2_def ends_def goes_on_def is_at_def)
  have w: "server_step E s2 (goes_on 1 q Waiting s2)"
    using server_step.taken [OF s2(2)] assms(2) s2(1) by (simp add: statement_def)
  have "server_step E (goes_on 1 q Waiting s2) (ends 1 [(q, taken_answer E q row)] v (goes_on 1 q Waiting s2))"
    using server_step.answer [OF is_at_goes_on, of E q 1 s2 row v] assms(3) s2(1) by simp
  moreover have "server_run E (idle_server d) (goes_on 1 q Waiting s2)"
  proof -
    have trans: "server_run E a c" if "server_run E b c" "server_run E a b" for a b c
      using that by (induction rule: server_run.induct) (auto intro: server_run.step)
    have "server_run E (idle_server d) (goes_on 0 p (Writing 0 no_writes) s1)"
      using server_run.step [OF a1 server_step.arrive] t1(2) by blast
    then show ?thesis using trans [OF r2] c w server_run.step by blast
  qed
  ultimately have "server_run E (idle_server d) (ends 1 [(q, taken_answer E q row)] v (goes_on 1 q Waiting s2))"
    using server_run.step by blast
  moreover have "sv_tables (ends 1 [(q, taken_answer E q row)] v (goes_on 1 q Waiting s2)) = v"
    "sv_answers (ends 1 [(q, taken_answer E q row)] v (goes_on 1 q Waiting s2))
      = [(p, Inr (new_result E (cr_id p) (cr_cmd p), False)), (q, taken_answer E q row)]"
    using s2 by (simp_all add: ends_def goes_on_def)
  ultimately show ?thesis by blast
qed

section \<open>Properties\<close>

text \<open>
  C6. Concurrent creates are serializable: however the statements of any number of creates are interleaved with each
  other and with the login service, with statements that wait for rows of others, transactions that are
  lost and answers from keys that others committed meanwhile, the committed tables and all answers are those
  of running the same creates with \<open>Create\<close> one after the other, in the order in which they ended.
\<close>

theorem concurrent_serializable:
  assumes "calm E" and "server_run E (idle_server d) s"
  shows "serial E d (sv_answers s) (sv_tables s)"
  using run_serial [OF assms(2,1) idle_server_ok, of d] serial.none by (simp add: idle_server_def)

definition acme_request :: creation where
  "acme_request = \<lparr>cr_prin = bob_admin, cr_key = ''key-0001'', cr_cmd = acme, cr_id = 1, cr_tick = 2\<rparr>"

text \<open>The same command once more, with identifiers and a time of its own.\<close>

definition acme_again :: creation where
  "acme_again = acme_request\<lparr>cr_id := 4, cr_tick := 3\<rparr>"

definition acme_tables :: tables where
  "acme_tables = the (exec sample_env acme_request 5 (db signed_in))"

definition acme_row :: key_row where
  "acme_row = hd (idempotency_keys acme_tables)"

lemma sample_calm: "calm sample_env"
  by (simp add: calm_def)

lemma acme_facts:
  "exec sample_env acme_request 5 (db signed_in) \<noteq> None"
  "claim_stmt sample_env acme_again acme_tables = Taken"
  "(case select_key sample_env (prin_ID (cr_prin acme_again)) createOrganizationScope (cr_key acme_again) acme_tables of
      Inr (row, _) \<Rightarrow> row = acme_row | _ \<Rightarrow> False)"
  by code_simp+

lemma acme_twice:
  "\<exists>s. server_run sample_env (idle_server (db signed_in)) s \<and> sv_tables s = acme_tables
    \<and> sv_answers s = [(acme_request, Inr (new_result sample_env 1 acme, False)), (acme_again, taken_answer sample_env acme_again acme_row)]"
proof -
  have e: "exec sample_env acme_request 5 (db signed_in) = Some acme_tables"
    using acme_facts(1) by (simp add: acme_tables_def)
  have "select_key sample_env (prin_ID (cr_prin acme_again)) createOrganizationScope (cr_key acme_again) acme_tables
      = Inr (acme_row, acme_tables)"
    using acme_facts(3) select_key_db by (auto split: sum.splits)
  from two_at_once [OF e acme_facts(2) this] show ?thesis by (simp add: acme_request_def)
qed

theorem concurrent_serializable_witness:
  "\<exists>s :: server. serial sample_env (db signed_in) (sv_answers s) (sv_tables s) \<and> length (sv_answers s) = 2"
proof -
  obtain s where "server_run sample_env (idle_server (db signed_in)) s" "length (sv_answers s) = 2"
    using acme_twice by force
  then show ?thesis using concurrent_serializable [OF sample_calm] by blast
qed

text \<open>
  C5. Identical commands at the same time create one organization: in any interleaving, once a create under a key
  has been answered with success, every later answer under that key is the same result marked as a
  replay, or the key conflict when the command differs; the organizations that are new are as many as the
  answers that report one, and each has its audit event and its completed key.
\<close>

theorem concurrent_create_once:
  assumes "calm E" and "server_ok E" and "keys_ok E d" and "server_run E (idle_server d) s"
    and "i < j" and "j < length (sv_answers s)"
    and "sv_answers s ! i = (p, Inr (r, b))" and "sv_answers s ! j = (q, y)"
    and "prin_ID (cr_prin q) = prin_ID (cr_prin p)" and "cr_key q = cr_key p"
  shows "y = (if request_hash E (cr_cmd q) = request_hash E (cr_cmd p) then Inr (r, True) else Inl ErrKeyConflict)
    \<and> length (organizations (sv_tables s)) = length (organizations d) + length (filter reports_new (sv_answers s))
    \<and> ledger E d (sv_tables s)"
proof -
  have ser: "serial E d (sv_answers s) (sv_tables s)"
    using run_serial [OF assms(4,1) idle_server_ok, of d] serial.none by (simp add: idle_server_def)
  obtain d1 d2 d3 d4 where e: "elsewhere E d d1" "create_from E p d1 (Inr (r, b)) d2" "elsewhere E d2 d3" "create_from E q d3 y d4"
    using serial_nth2 [OF ser assms(5,6)] assms(7,8) by auto
  have k1: "keys_ok E d1" using ledger.guarded.keep_elsewhere [OF e(1)] assms(3) by blast
  obtain w w' where w: "db w = d1"
      and w': "Create E all_deps (cr_prin p) (cr_key p) (cr_cmd p) w = (Inr (r, b), w')" "db w' = d2"
    by (rule create_fromE [OF e(2)])
  obtain st body where ent: "key_entry E d2 (create_key (cr_prin p) (cr_key p)) = Some (request_hash E (cr_cmd p), Some (st, body))"
      "unmarshal_result body = Some r"
    using Create_answer [OF assms(2) _ w'(1)] k1 w w'(2) by auto
  have k2: "keys_ok E d2" using Create_keys_ok [OF _ w'(1)] k1 w w'(2) by simp
  then have k3: "keys_ok E d3" "ledger E d2 d3" using ledger.guarded.keep_elsewhere [OF e(3)] by blast+
  have ent3: "key_entry E d3 (create_key (cr_prin q) (cr_key q)) = Some (request_hash E (cr_cmd p), Some (st, body))"
    using key_entry_ledger [OF k3(2) ent(1)] assms(9,10) by (simp add: create_key_def)
  obtain v v' where up: "db v = d3" and v': "Create E all_deps (cr_prin q) (cr_key q) (cr_cmd q) v = (y, v')"
    by (rule create_fromE [OF e(4)])
  have "connected E v" using assms(1) by (simp add: connected_def calm_def)
  have "y = (if request_hash E (cr_cmd q) = request_hash E (cr_cmd p) then Inr (r, True) else Inl ErrKeyConflict)"
    using Create_replays [of E v "cr_prin q" "cr_key q" "cr_cmd q" st body r]
      Create_conflicts [of E v "cr_prin q" "cr_key q" "request_hash E (cr_cmd p)" "Some (st, body)" "cr_cmd q"]
      k3(1) up \<open>connected E v\<close> ent3 ent(2) v' by auto
  then show ?thesis
    using serial_count [OF ser assms(1,3)] ledger.guarded.keep_elsewhere [OF serial_elsewhere [OF ser]] assms(3) by blast
qed

lemma signed_in_keys: "keys_ok sample_env (db signed_in)"
  by (simp add: keys_ok_def signed_in_def auth_tables_def empty_tables_def)

theorem concurrent_create_once_witness:
  "\<exists>s. server_run sample_env (idle_server (db signed_in)) s
    \<and> sv_answers s = [(acme_request, Inr (new_result sample_env 1 acme, False)), (acme_again, Inr (new_result sample_env 1 acme, True))]
    \<and> length (organizations (sv_tables s)) = length (organizations (db signed_in)) + 1"
proof -
  obtain s where s: "server_run sample_env (idle_server (db signed_in)) s"
      "sv_answers s = [(acme_request, Inr (new_result sample_env 1 acme, False)), (acme_again, taken_answer sample_env acme_again acme_row)]"
    using acme_twice by blast
  have "0 < (1 :: nat)" "1 < length (sv_answers s)" "sv_answers s ! 0 = (acme_request, Inr (new_result sample_env 1 acme, False))"
    "sv_answers s ! 1 = (acme_again, taken_answer sample_env acme_again acme_row)"
    "prin_ID (cr_prin acme_again) = prin_ID (cr_prin acme_request)" "cr_key acme_again = cr_key acme_request"
    using s(2) by (simp_all add: acme_again_def)
  from concurrent_create_once [OF sample_calm server_ok_sample(1) signed_in_keys s(1) this]
  have "taken_answer sample_env acme_again acme_row = Inr (new_result sample_env 1 acme, True)"
    "length (organizations (sv_tables s)) = length (organizations (db signed_in)) + length (filter reports_new (sv_answers s))"
    by (simp_all add: acme_again_def)
  then show ?thesis using s by (auto simp: reports_new_def)
qed

end
