(* ===== verification/Spec2Isabelle.thy ===== *)
theory Spec2Isabelle
  imports Startup Ledger_Refinement Approval Packaging_Archive Concurrent_Create
begin

text \<open>
  \<^bold>\<open>Verification of skawld-maintenance.\<close>

  The program is the foundation of a maintenance product: an HTTP API with OpenID Connect login, an
  organization registry with idempotent creation and an audit log, a background worker, and a migration
  command, all over one PostgreSQL database, with a tool that packages them for release. This development models its Go sources as functions over an
  explicit state and proves what makes them correct.

  \<^bold>\<open>How the program works.\<close> \<open>cmd/api\<close> loads a configuration (\<open>internal/platform/config\<close>), opens a pool
  (\<open>internal/platform/database\<close>), discovers the identity provider and serves HTTP
  (\<open>internal/platform/httpserver\<close>). A browser logs in through \<open>internal/platform/auth\<close>: \<open>Begin\<close> stores a flow,
  the provider redirects to \<open>Callback\<close>, which consumes the flow, verifies the identity token, resolves the
  principal and opens a session. API requests pass \<open>Middleware\<close>, which finds the principal of the session
  cookie or of a bearer token. \<open>POST /api/v1/organizations\<close> runs the service of
  \<open>internal/identity/application\<close> over the store of \<open>internal/identity/adapter/postgres\<close>: one transaction
  claims the idempotency key (\<open>internal/platform/idempotency\<close>), inserts organization, membership and audit
  event (\<open>internal/platform/audit\<close>) and stores the answer. \<open>GET /api/v1/sites/{id}\<close> reads one site within the
  scope of the principal. \<open>cmd/worker\<close> runs the job queue (\<open>internal/platform/jobs\<close>), \<open>cmd/migrate\<close> the
  migrations.

  \<^bold>\<open>State.\<close> \<open>Database\<close> has the tables of \<open>migrations/00001_foundation.sql\<close> as a record of lists of rows, and
  a \<open>world\<close> that adds counters for identifiers, clock readings, random reads and calls over the connection.
  An \<open>env\<close> gives what is outside: the identifier and time of each reading, the random bytes, the hash,
  PostgreSQL's casts, and for every call whether it works, fails before the server acts, or acts and loses
  its answer. A program is a function from the world to an error or a result and the new world
  (\<open>Skawld_Prelude\<close>); a statement is a function on the tables that checks casts, text encoding, keys,
  foreign keys and CHECK constraints. \<open>InTx\<close> runs a program and keeps its tables only after a commit.

  \<^bold>\<open>Theories.\<close>
    \<^item> \<open>Skawld_Prelude\<close>: errors as values (\<open>errors.Is\<close>, \<open>Join\<close>, wrapping), the error and state monad, weakest
      preconditions, relations kept by programs.
    \<^item> \<open>Go_Strings\<close>, \<open>Go_Json\<close>, \<open>Go_Url\<close>, \<open>Go_Base64\<close>: the parts of the standard library the code uses, with
      UTF-8 decoding, \<open>TrimSpace\<close>, \<open>EqualFold\<close>, \<open>Atoi\<close>, JSON writing and reading (read after write gives the
      document back), \<open>url.Parse\<close> and \<open>RequestURI\<close>, base64url (injective).
    \<^item> \<open>Identity_Domain\<close>, \<open>Approval\<close>: \<open>internal/identity/domain\<close> and \<open>internal/integration/domain\<close>; approval
      decided exactly by the permission and one covering authority.
    \<^item> \<open>Application\<close>: \<open>internal/identity/application\<close>, with the interfaces \<open>organization_store\<close> and
      \<open>site_source\<close> as locales.
    \<^item> \<open>Database\<close>, \<open>Idempotency\<close>, \<open>Audit_Log\<close>, \<open>Ledger_Refinement\<close>: transactions, the key store (locale
      \<open>idempotency_ledger\<close>), the audit sink; the key store refines a map from keys to digests and answers, and
      the byte comparison is equality.
    \<^item> \<open>Organization_Store\<close>, \<open>Organization_Create\<close>: the store; all or nothing, at most one effect per key,
      conflict, retry after a lost commit.
    \<^item> \<open>Site_Reader\<close>: only accessible sites, no information about others.
    \<^item> \<open>Auth_Repository\<close>, \<open>Auth_Correct\<close>: flows, principals and sessions; round trips, permissions and scope
      of a principal.
    \<^item> \<open>Oidc\<close>, \<open>Oidc_Correct\<close>: login, callback, logout, middleware; a session only after a complete and
      verified login, once per flow; redirects that stay on the site.
    \<^item> \<open>App_Config\<close>, \<open>Database_Pool\<close>, \<open>Jobs\<close>: configuration with 32-bit pool sizes, opening a pool,
      migrations, queue configuration.
    \<^item> \<open>Http\<close>, \<open>Http_Server\<close>: requests and responses, handlers, problem documents, the router (locales
      \<open>polite_authenticator\<close> and \<open>authenticator\<close>).
    \<^item> \<open>Api_Server\<close>, \<open>Api_Correct\<close>: the API process as wired in \<open>cmd/api\<close>, the relation \<open>reaches\<close> of states
      over sequences of requests, interleaved with the work of other requests on the same tables (\<open>elsewhere\<close>) between
      requests and between the authentication of a request and its handler, and what holds of all of them: the schema as an invariant, the ledger of
      creations, stable identities, revoked sessions, permissions, replays.
    \<^item> \<open>Concurrent_Create\<close>: creates at the same time, statement by statement, on a server that shows a statement the
      committed rows and the transaction's own and lets an INSERT wait for an uncommitted row with the same unique
      value (\<open>server_step\<close>); every interleaving is equivalent to running the creates one after the other, and identical
      commands create one organization.
    \<^item> \<open>Startup\<close>: the three commands with their exit codes.
    \<^item> \<open>Go_Filepath\<close>, \<open>File_Tree\<close>: \<open>path/filepath\<close> (\<open>Clean\<close> is idempotent, \<open>Dir\<close> and \<open>Base\<close> take a joined path
      apart, the parent of a path is shorter) and a file system as a tree, with what each operation leaves as it was.
    \<^item> \<open>Packaging\<close>, \<open>Packaging_Correct\<close>, \<open>Packaging_Archive\<close>: \<open>tools/package\<close>, every system call of which may
      fail; the nearest repository, files that a run leaves alone, archives that depend on the staged files only,
      checksums of the archives as they are.

  Locales state what a component relies on, and each is interpreted on the model itself:
  \<open>idempotency_ledger\<close> by the key store, \<open>organization_store\<close> by the PostgreSQL store, \<open>site_source\<close> by the site
  reader, \<open>authenticator\<close> by the login service. The locales \<open>table_relation\<close>, \<open>auth_relation\<close>, \<open>work_relation\<close>,
  \<open>create_relation\<close>, \<open>app_relation\<close>, \<open>commit_relation\<close> and \<open>statement_relation\<close> lift a relation on tables from
  statements to programs, requests and sequences of requests; they are interpreted on the invariants.

  \<^bold>\<open>Parameters.\<close> Code that is not in the repository is an argument: the OpenID provider and the OAuth client
  (\<open>provider\<close>), the router library (\<open>chi\<close>, with the documented behaviour \<open>chi_quiet\<close> and \<open>chi_matches\<close>), the
  driver's pool (\<open>pgx\<close>), goose and River (\<open>migrator\<close>, \<open>river\<close>), \<open>uuid.Parse\<close>, SHA-256, the server's casts
  (\<open>server_ok\<close>) and row order (\<open>order_ok\<close>). The isolation of transactions is that of PostgreSQL's READ COMMITTED
  for statements that insert rows and update their own. Each property with such a hypothesis has a witness on a concrete
  instance. The packaging tool takes the compiler, the archive formats and the readings of the system from
  \<open>osenv\<close>; the compiler is assumed to spare a file that is not at its output path. \<open>time.ParseDuration\<close>, the Unicode fold table and the parsing of a URL's host are arguments too.

  \<^bold>\<open>Bounds.\<close> Recursions are structural or have a termination proof; the JSON reader has fuel, the length of its
  input, and reading what was written always succeeds with it. Times and durations are integers of
  nanoseconds; pool sizes are 32-bit words.

  \<^bold>\<open>Not modelled.\<close> Logging and the access log, timeouts and cancellation of a context, TLS and the HTTP
  transport, panics and their recovery, the interleaving of the statements of one login handler with other work,
  deadlocks between transactions (the server ends one, which is the step \<open>lost\<close>), the object store interface, which has no implementation, and, of the
  packaging tool, the parsing of its flags, symbolic links, and other processes that write to the same files.
\<close>

end
